theory Spec2Isabelle
  imports Complex_Main "HOL-Library.Word" "HOL-Library.List_Lexorder"
begin

unbundle bit_operations_syntax

section \<open>JavaScript strings\<close>

text \<open>
  A JavaScript string is a sequence of UTF-16 code units. The regular expressions of
  \<^verbatim>\<open>helpers.ts\<close> carry no \<^verbatim>\<open>u\<close> flag, so they match code unit by code unit.
  String literals of the source are ASCII and are written with \<open>js\<close>.
\<close>

type_synonym code_unit = "16 word"
type_synonym jsstring = "code_unit list"

definition js :: "string \<Rightarrow> jsstring" where
  "js s = map of_char s"

text \<open>
  The class \<^verbatim>\<open>\s\<close> of ECMAScript (WhiteSpace and LineTerminator), which is also the set
  of code units that \<^verbatim>\<open>String.prototype.trim\<close> removes.
\<close>

definition is_space :: "code_unit \<Rightarrow> bool" where
  "is_space c \<longleftrightarrow>
     (0x0009 \<le> c \<and> c \<le> 0x000D) \<or> c = 0x0020 \<or> c = 0x00A0 \<or> c = 0x1680 \<or>
     (0x2000 \<le> c \<and> c \<le> 0x200A) \<or> c = 0x2028 \<or> c = 0x2029 \<or> c = 0x202F \<or>
     c = 0x205F \<or> c = 0x3000 \<or> c = 0xFEFF"

text \<open>The class of combining diacritical marks, U+0300 to U+036F.\<close>

definition is_combining_mark :: "code_unit \<Rightarrow> bool" where
  "is_combining_mark c \<longleftrightarrow> 0x0300 \<le> c \<and> c \<le> 0x036F"

text \<open>The class \<^verbatim>\<open>[a-z0-9]\<close>.\<close>

definition is_lower_alnum :: "code_unit \<Rightarrow> bool" where
  "is_lower_alnum c \<longleftrightarrow> (0x61 \<le> c \<and> c \<le> 0x7A) \<or> (0x30 \<le> c \<and> c \<le> 0x39)"

text \<open>\<^verbatim>\<open>s.replace(/\s+/g, " ")\<close>: every maximal run of white space becomes one space.\<close>

function collapse_ws :: "jsstring \<Rightarrow> jsstring" where
  "collapse_ws [] = []"
| "collapse_ws (c # cs) =
     (if is_space c then 0x20 # collapse_ws (dropWhile is_space cs)
      else c # collapse_ws cs)"
  by pat_completeness auto
termination
  by (relation "measure length") (simp_all add: le_imp_less_Suc length_dropWhile_le)

text \<open>\<^verbatim>\<open>s.trim()\<close>: white space is removed at both ends.\<close>

fun trim_end :: "jsstring \<Rightarrow> jsstring" where
  "trim_end [] = []"
| "trim_end (c # cs) =
     (let r = trim_end cs in if r = [] \<and> is_space c then [] else c # r)"

definition trim :: "jsstring \<Rightarrow> jsstring" where
  "trim s = trim_end (dropWhile is_space s)"

text \<open>
  \<^verbatim>\<open>toLowerCase\<close>, \<^verbatim>\<open>normalize("NFKD")\<close>, \<^verbatim>\<open>Date.parse\<close> and \<^verbatim>\<open>Number\<close>
  (of a string) are built into the JavaScript engine, the first two driven by the
  Unicode character database; none is part of the repository. They are parameters of
  the model. \<^verbatim>\<open>Date.parse\<close> and \<^verbatim>\<open>Number\<close> give \<open>None\<close> for \<^verbatim>\<open>NaN\<close>.
\<close>

record js_builtins =
  toLowerCase :: "jsstring \<Rightarrow> jsstring"
  normalizeNFKD :: "jsstring \<Rightarrow> jsstring"
  Date_parse :: "jsstring \<Rightarrow> int option"
  Number_of :: "jsstring \<Rightarrow> int option"

section \<open>\<^verbatim>\<open>triviaRewards/helpers.ts\<close>: the answer normalizer\<close>

definition strip_marks :: "jsstring \<Rightarrow> jsstring" where
  "strip_marks s = filter (\<lambda>c. \<not> is_combining_mark c) s"

definition blank_other :: "jsstring \<Rightarrow> jsstring" where
  "blank_other s = map (\<lambda>c. if is_lower_alnum c \<or> is_space c then c else 0x20) s"

definition normalizeAnswer :: "'a js_builtins_scheme \<Rightarrow> jsstring \<Rightarrow> jsstring" where
  "normalizeAnswer B answer =
     trim (collapse_ws (blank_other (strip_marks (normalizeNFKD B (toLowerCase B answer)))))"

text \<open>
  The strings the normalizer produces: lower-case ASCII letters, digits and single
  spaces, with no space at either end.
\<close>

definition plain :: "jsstring \<Rightarrow> bool" where
  "plain s \<longleftrightarrow> (\<forall>c \<in> set s. is_lower_alnum c \<or> c = 0x20)"

fun no_adj_space :: "jsstring \<Rightarrow> bool" where
  "no_adj_space [] = True"
| "no_adj_space [c] = True"
| "no_adj_space (a # b # cs) = (\<not> (is_space a \<and> is_space b) \<and> no_adj_space (b # cs))"

definition tidy :: "jsstring \<Rightarrow> bool" where
  "tidy s \<longleftrightarrow> plain s \<and> no_adj_space s \<and>
     (s \<noteq> [] \<longrightarrow> \<not> is_space (hd s) \<and> \<not> is_space (last s))"

text \<open>
  Stand-ins for the built-in functions, to run the model on concrete inputs: an excerpt
  of the Unicode tables for the Latin-1 letters, no date format, and decimal digits
  for numbers.
\<close>

definition decimal_value :: "jsstring \<Rightarrow> int option" where
  "decimal_value s =
     (if s \<noteq> [] \<and> (\<forall>c \<in> set s. 0x30 \<le> c \<and> c \<le> 0x39)
      then Some (foldl (\<lambda>acc c. acc * 10 + (uint c - 0x30)) 0 s) else None)"

definition latin1_lower :: "code_unit \<Rightarrow> code_unit" where
  "latin1_lower c =
     (if (0x41 \<le> c \<and> c \<le> 0x5A) \<or> (0xC0 \<le> c \<and> c \<le> 0xDE \<and> c \<noteq> 0xD7)
      then c + 0x20 else c)"

definition latin1_decompose :: "code_unit \<Rightarrow> jsstring" where
  "latin1_decompose c =
     (if c = 0xE0 then [0x61, 0x0300] else if c = 0xE1 then [0x61, 0x0301]
      else if c = 0xE2 then [0x61, 0x0302] else if c = 0xE3 then [0x61, 0x0303]
      else if c = 0xE4 then [0x61, 0x0308] else if c = 0xE5 then [0x61, 0x030A]
      else if c = 0xE7 then [0x63, 0x0327]
      else if c = 0xE8 then [0x65, 0x0300] else if c = 0xE9 then [0x65, 0x0301]
      else if c = 0xEA then [0x65, 0x0302] else if c = 0xEB then [0x65, 0x0308]
      else if c = 0xEC then [0x69, 0x0300] else if c = 0xED then [0x69, 0x0301]
      else if c = 0xEE then [0x69, 0x0302] else if c = 0xEF then [0x69, 0x0308]
      else if c = 0xF1 then [0x6E, 0x0303]
      else if c = 0xF2 then [0x6F, 0x0300] else if c = 0xF3 then [0x6F, 0x0301]
      else if c = 0xF4 then [0x6F, 0x0302] else if c = 0xF5 then [0x6F, 0x0303]
      else if c = 0xF6 then [0x6F, 0x0308]
      else if c = 0xF9 then [0x75, 0x0300] else if c = 0xFA then [0x75, 0x0301]
      else if c = 0xFB then [0x75, 0x0302] else if c = 0xFC then [0x75, 0x0308]
      else if c = 0xFD then [0x79, 0x0301] else if c = 0xFF then [0x79, 0x0308]
      else [c])"

definition latin1_builtins :: js_builtins where
  "latin1_builtins =
     \<lparr> toLowerCase = map latin1_lower,
       normalizeNFKD = (\<lambda>s. concat (map latin1_decompose s)),
       Date_parse = (\<lambda>s. None),
       Number_of = decimal_value \<rparr>"


section \<open>The \<^verbatim>\<open>crypto\<close> module: UTF-8 and SHA-256\<close>

text \<open>
  \<^verbatim>\<open>hash.update(seed)\<close> hashes the UTF-8 encoding of the string. A surrogate pair
  is one code point of four bytes; a lone surrogate is encoded as U+FFFD.
\<close>

type_synonym byte = "8 word"

definition utf8_of_code_point :: "nat \<Rightarrow> byte list" where
  "utf8_of_code_point n =
     (if n < 0x80 then [of_nat n]
      else if n < 0x800 then [of_nat (0xC0 + n div 64), of_nat (0x80 + n mod 64)]
      else if n < 0x10000 then
        [of_nat (0xE0 + n div 4096), of_nat (0x80 + n div 64 mod 64), of_nat (0x80 + n mod 64)]
      else
        [of_nat (0xF0 + n div 262144), of_nat (0x80 + n div 4096 mod 64),
         of_nat (0x80 + n div 64 mod 64), of_nat (0x80 + n mod 64)])"

definition is_high_surrogate :: "code_unit \<Rightarrow> bool" where
  "is_high_surrogate c \<longleftrightarrow> 0xD800 \<le> c \<and> c \<le> 0xDBFF"

definition is_low_surrogate :: "code_unit \<Rightarrow> bool" where
  "is_low_surrogate c \<longleftrightarrow> 0xDC00 \<le> c \<and> c \<le> 0xDFFF"

fun utf8_encode :: "jsstring \<Rightarrow> byte list" where
  "utf8_encode [] = []"
| "utf8_encode [c] =
     (if is_high_surrogate c \<or> is_low_surrogate c then utf8_of_code_point 0xFFFD
      else utf8_of_code_point (unat c))"
| "utf8_encode (c # d # cs) =
     (if is_high_surrogate c \<and> is_low_surrogate d then
        utf8_of_code_point (0x10000 + (unat c - 0xD800) * 1024 + (unat d - 0xDC00))
        @ utf8_encode cs
      else if is_high_surrogate c \<or> is_low_surrogate c then
        utf8_of_code_point 0xFFFD @ utf8_encode (d # cs)
      else utf8_of_code_point (unat c) @ utf8_encode (d # cs))"

text \<open>SHA-256 as in FIPS 180-4, on 32-bit words.\<close>

type_synonym u32 = "32 word"

definition sha256_K :: "u32 list" where
  "sha256_K =
    [0x428A2F98, 0x71374491, 0xB5C0FBCF, 0xE9B5DBA5, 0x3956C25B, 0x59F111F1, 0x923F82A4, 0xAB1C5ED5,
     0xD807AA98, 0x12835B01, 0x243185BE, 0x550C7DC3, 0x72BE5D74, 0x80DEB1FE, 0x9BDC06A7, 0xC19BF174,
     0xE49B69C1, 0xEFBE4786, 0x0FC19DC6, 0x240CA1CC, 0x2DE92C6F, 0x4A7484AA, 0x5CB0A9DC, 0x76F988DA,
     0x983E5152, 0xA831C66D, 0xB00327C8, 0xBF597FC7, 0xC6E00BF3, 0xD5A79147, 0x06CA6351, 0x14292967,
     0x27B70A85, 0x2E1B2138, 0x4D2C6DFC, 0x53380D13, 0x650A7354, 0x766A0ABB, 0x81C2C92E, 0x92722C85,
     0xA2BFE8A1, 0xA81A664B, 0xC24B8B70, 0xC76C51A3, 0xD192E819, 0xD6990624, 0xF40E3585, 0x106AA070,
     0x19A4C116, 0x1E376C08, 0x2748774C, 0x34B0BCB5, 0x391C0CB3, 0x4ED8AA4A, 0x5B9CCA4F, 0x682E6FF3,
     0x748F82EE, 0x78A5636F, 0x84C87814, 0x8CC70208, 0x90BEFFFA, 0xA4506CEB, 0xBEF9A3F7, 0xC67178F2]"

definition sha256_H0 :: "u32 list" where
  "sha256_H0 =
    [0x6A09E667, 0xBB67AE85, 0x3C6EF372, 0xA54FF53A, 0x510E527F, 0x9B05688C, 0x1F83D9AB, 0x5BE0CD19]"

definition Ch :: "u32 \<Rightarrow> u32 \<Rightarrow> u32 \<Rightarrow> u32" where
  "Ch x y z = (x AND y) XOR (NOT x AND z)"

definition Maj :: "u32 \<Rightarrow> u32 \<Rightarrow> u32 \<Rightarrow> u32" where
  "Maj x y z = (x AND y) XOR (x AND z) XOR (y AND z)"

definition Sigma0 :: "u32 \<Rightarrow> u32" where
  "Sigma0 x = word_rotr 2 x XOR word_rotr 13 x XOR word_rotr 22 x"

definition Sigma1 :: "u32 \<Rightarrow> u32" where
  "Sigma1 x = word_rotr 6 x XOR word_rotr 11 x XOR word_rotr 25 x"

definition sigma0 :: "u32 \<Rightarrow> u32" where
  "sigma0 x = word_rotr 7 x XOR word_rotr 18 x XOR drop_bit 3 x"

definition sigma1 :: "u32 \<Rightarrow> u32" where
  "sigma1 x = word_rotr 17 x XOR word_rotr 19 x XOR drop_bit 10 x"

definition length_bytes :: "64 word \<Rightarrow> byte list" where
  "length_bytes w =
     [ucast (drop_bit 56 w), ucast (drop_bit 48 w), ucast (drop_bit 40 w), ucast (drop_bit 32 w),
      ucast (drop_bit 24 w), ucast (drop_bit 16 w), ucast (drop_bit 8 w), ucast w]"

definition sha256_pad :: "byte list \<Rightarrow> byte list" where
  "sha256_pad m =
     (let l = length m;
          k = (119 - l mod 64) mod 64
      in m @ [0x80] @ replicate k 0 @ length_bytes (of_nat (8 * l)))"

fun be32 :: "byte list \<Rightarrow> u32" where
  "be32 [b0, b1, b2, b3] =
     push_bit 24 (ucast b0) OR push_bit 16 (ucast b1) OR push_bit 8 (ucast b2) OR ucast b3"
| "be32 bs = 0"

definition block_words :: "byte list \<Rightarrow> u32 list" where
  "block_words b = map (\<lambda>i. be32 (take 4 (drop (4 * i) b))) [0..<16]"

primrec schedule :: "nat \<Rightarrow> u32 list \<Rightarrow> u32 list" where
  "schedule 0 w = w"
| "schedule (Suc n) w =
     (let t = length w
      in schedule n (w @ [sigma1 (w ! (t - 2)) + w ! (t - 7) + sigma0 (w ! (t - 15)) + w ! (t - 16)]))"

type_synonym sha_vars = "u32 \<times> u32 \<times> u32 \<times> u32 \<times> u32 \<times> u32 \<times> u32 \<times> u32"

fun sha256_round :: "sha_vars \<Rightarrow> u32 \<times> u32 \<Rightarrow> sha_vars" where
  "sha256_round (a, b, c, d, e, f, g, h) (k, w) =
     (let T1 = h + Sigma1 e + Ch e f g + k + w;
          T2 = Sigma0 a + Maj a b c
      in (T1 + T2, a, b, c, d + T1, e, f, g))"

fun sha256_block :: "u32 list \<Rightarrow> byte list \<Rightarrow> u32 list" where
  "sha256_block [h0, h1, h2, h3, h4, h5, h6, h7] blk =
     (case foldl sha256_round (h0, h1, h2, h3, h4, h5, h6, h7)
             (zip sha256_K (schedule 48 (block_words blk))) of
        (a, b, c, d, e, f, g, h) \<Rightarrow>
          [h0 + a, h1 + b, h2 + c, h3 + d, h4 + e, h5 + f, h6 + g, h7 + h])"
| "sha256_block hs blk = hs"

definition word_bytes :: "u32 \<Rightarrow> byte list" where
  "word_bytes w = [ucast (drop_bit 24 w), ucast (drop_bit 16 w), ucast (drop_bit 8 w), ucast w]"

definition sha256 :: "byte list \<Rightarrow> byte list" where
  "sha256 m =
     (let p = sha256_pad m;
          blocks = map (\<lambda>i. take 64 (drop (64 * i) p)) [0..<length p div 64]
      in concat (map word_bytes (foldl sha256_block sha256_H0 blocks)))"

text \<open>\<^verbatim>\<open>digest("hex")\<close>: two lower-case hexadecimal digits for each byte.\<close>

definition hex_char :: "int \<Rightarrow> code_unit" where
  "hex_char n = (if n < 10 then word_of_int (0x30 + n) else word_of_int (0x57 + n))"

definition to_hex :: "byte list \<Rightarrow> jsstring" where
  "to_hex bs = concat (map (\<lambda>b. [hex_char (uint b div 16), hex_char (uint b mod 16)]) bs)"

definition sha256_hex :: "jsstring \<Rightarrow> jsstring" where
  "sha256_hex s = to_hex (sha256 (utf8_encode s))"

text \<open>
  \<^verbatim>\<open>BigInt(`0x${hash}`)\<close>: the string is read as a hexadecimal literal. A string that
  is not \<^verbatim>\<open>0x\<close> followed by at least one hexadecimal digit raises a SyntaxError,
  which is \<open>None\<close> here.
\<close>

definition hex_digit_value :: "code_unit \<Rightarrow> int option" where
  "hex_digit_value c =
     (if 0x30 \<le> c \<and> c \<le> 0x39 then Some (uint c - 0x30)
      else if 0x61 \<le> c \<and> c \<le> 0x66 then Some (uint c - 0x57)
      else if 0x41 \<le> c \<and> c \<le> 0x46 then Some (uint c - 0x37)
      else None)"

fun hex_digits_value :: "int \<Rightarrow> jsstring \<Rightarrow> int option" where
  "hex_digits_value acc [] = Some acc"
| "hex_digits_value acc (c # cs) =
     (case hex_digit_value c of
        None \<Rightarrow> None
      | Some d \<Rightarrow> hex_digits_value (acc * 16 + d) cs)"

fun BigInt_hex :: "jsstring \<Rightarrow> int option" where
  "BigInt_hex (z # x # d # ds) =
     (if z = 0x30 \<and> (x = 0x78 \<or> x = 0x58)
      then hex_digits_value 0 (d # ds) else None)"
| "BigInt_hex s = None"

text \<open>
  The remainder of two BigInts truncates towards zero and takes the sign of the
  dividend; a zero divisor raises a RangeError.
\<close>

definition bigint_rem :: "int \<Rightarrow> int \<Rightarrow> int option" where
  "bigint_rem a b = (if b = 0 then None else Some (sgn a * (\<bar>a\<bar> mod \<bar>b\<bar>)))"

text \<open>The value of a byte string read as a big-endian unsigned integer.\<close>

definition be_int :: "byte list \<Rightarrow> int" where
  "be_int bs = foldl (\<lambda>acc b. acc * 256 + uint b) 0 bs"

section \<open>Numbers\<close>

text \<open>
  A value of the type \<^verbatim>\<open>number\<close> is a double: a rational with a 53-bit significand, or
  one of the three special values. The two zeros are not told apart; no function
  below depends on the sign of zero.
\<close>

datatype number = Finite rat | NaN | PosInfinity | NegInfinity

text \<open>The comparison \<^verbatim>\<open>x <= 0\<close>, which is false at \<^verbatim>\<open>NaN\<close>.\<close>

fun le_zero :: "number \<Rightarrow> bool" where
  "le_zero (Finite q) = (q \<le> 0)"
| "le_zero NaN = False"
| "le_zero PosInfinity = False"
| "le_zero NegInfinity = True"

text \<open>
  \<^verbatim>\<open>BigInt(x)\<close> for a number \<^verbatim>\<open>x\<close>: a RangeError unless \<^verbatim>\<open>x\<close> is an integer.
\<close>

fun BigInt_of_number :: "number \<Rightarrow> int option" where
  "BigInt_of_number (Finite q) = (if of_int \<lfloor>q\<rfloor> = q then Some \<lfloor>q\<rfloor> else None)"
| "BigInt_of_number x = None"

function bit_length :: "int \<Rightarrow> nat" where
  "bit_length a = (if a \<le> 0 then 0 else Suc (bit_length (a div 2)))"
  by pat_completeness auto
termination
  by (relation "measure nat") auto

declare bit_length.simps [simp del]

text \<open>
  \<^verbatim>\<open>Number(v)\<close> for a BigInt \<^verbatim>\<open>v\<close>: the nearest double, ties to the even significand.
  A magnitude of at most 53 bits is kept; a longer one loses its low bits; one that
  rounds to \<open>2 ^ 1024\<close> or more becomes an infinity.
\<close>

definition Number_of_BigInt :: "int \<Rightarrow> number" where
  "Number_of_BigInt v =
     (let a = \<bar>v\<bar>;
          k = bit_length a - 53;
          q = a div 2 ^ k;
          r = a mod 2 ^ k;
          q' = (if 2 * r > 2 ^ k \<or> (2 * r = 2 ^ k \<and> odd q) then q + 1 else q);
          m = q' * 2 ^ k
      in if m \<ge> 2 ^ 1024 then (if v < 0 then NegInfinity else PosInfinity)
         else Finite (of_int (sgn v * m)))"

text \<open>
  \<^verbatim>\<open>xs[i]\<close> for an array \<^verbatim>\<open>xs\<close> and a number \<^verbatim>\<open>i\<close>: \<^verbatim>\<open>undefined\<close> unless \<^verbatim>\<open>i\<close> is an
  integer that is an index of the array.
\<close>

fun array_at :: "'a list \<Rightarrow> number \<Rightarrow> 'a option" where
  "array_at xs (Finite q) =
     (if of_int \<lfloor>q\<rfloor> = q \<and> 0 \<le> q \<and> \<lfloor>q\<rfloor> < int (length xs) then Some (xs ! nat \<lfloor>q\<rfloor>) else None)"
| "array_at xs i = None"

section \<open>\<^verbatim>\<open>triviaRewards/helpers.ts\<close>: the deterministic selector\<close>

text \<open>
  The result is \<open>None\<close> where the source throws: \<^verbatim>\<open>BigInt(count)\<close> raises a RangeError
  at a count that is not an integer.
\<close>

definition deterministicPick :: "jsstring \<Rightarrow> number \<Rightarrow> number option" where
  "deterministicPick seed count =
     (if le_zero count then Some (Finite (- 1))
      else
        let hash = sha256_hex seed
        in case BigInt_hex (js ''0x'' @ hash) of
             None \<Rightarrow> None
           | Some v \<Rightarrow>
               (case BigInt_of_number count of
                  None \<Rightarrow> None
                | Some c \<Rightarrow>
                    (case bigint_rem v c of
                       None \<Rightarrow> None
                     | Some r \<Rightarrow> Some (Number_of_BigInt r))))"

section \<open>\<^verbatim>\<open>db/triviaRewards.ts\<close>: the round store\<close>

text \<open>
  Timestamps and token amounts are JavaScript numbers holding integers; they are
  \<open>int\<close> here. A nullable column is an \<open>option\<close>. The column
  \<^verbatim>\<open>correct_answers\<close> holds the JSON text of an array of strings and is modelled by
  the array itself. Field names of the reply and payout rows carry a prefix, since the
  three tables share column names.
\<close>

datatype TriviaStatus = Open | Closed

record TriviaRecord =
  trivia_id :: jsstring
  tweet_id :: jsstring
  correct_answers :: "jsstring list"
  window_minutes :: int
  reward_rmz :: int
  created_at :: int
  closes_at :: int
  status :: TriviaStatus
  block_height :: "int option"
  seed :: "jsstring option"
  winner_twitter_user_id :: "jsstring option"
  winner_tweet_id :: "jsstring option"
  claim_code :: "jsstring option"
  claim_expires_at :: "int option"
  used_at :: "int option"
  used_address :: "jsstring option"
  txid :: "jsstring option"
  invalid_attempts :: int
  lock_expires_at :: "int option"

record TriviaReplyInsert =
  r_trivia_id :: jsstring
  r_tweet_id :: jsstring
  r_twitter_user_id :: jsstring
  r_twitter_username :: "jsstring option"
  r_reply_text :: jsstring
  r_normalized_text :: jsstring
  r_is_correct :: int
  r_created_at :: int

record TriviaReplyRecord = TriviaReplyInsert +
  r_id :: int

record PayoutRecord =
  p_id :: int
  p_trivia_id :: jsstring
  p_twitter_user_id :: jsstring
  p_address :: jsstring
  p_rmz_amount :: int
  p_txid :: jsstring
  p_created_at :: int
  p_day_key :: jsstring

record ClaimAttempt =
  a_invalid_attempts :: int
  a_lock_expires_at :: "int option"
  a_updated_at :: int

text \<open>The five tables of \<^verbatim>\<open>ensureTriviaTables\<close>, rows in insertion order.\<close>

record database =
  trivia_rewards :: "TriviaRecord list"
  trivia_replies :: "TriviaReplyRecord list"
  trivia_payouts :: "PayoutRecord list"
  daily_spend :: "jsstring \<rightharpoonup> int"
  trivia_claim_attempts :: "jsstring \<rightharpoonup> ClaimAttempt"

definition empty_db :: database where
  "empty_db =
     \<lparr> trivia_rewards = [], trivia_replies = [], trivia_payouts = [],
       daily_spend = Map.empty, trivia_claim_attempts = Map.empty \<rparr>"

datatype sqlite_error = ConstraintPrimaryKey

text \<open>
  \<^verbatim>\<open>createTrivia\<close>: a plain INSERT; the primary key \<^verbatim>\<open>trivia_id\<close> makes it raise
  when the round exists.
\<close>

definition createTrivia ::
  "database \<Rightarrow> jsstring \<Rightarrow> jsstring \<Rightarrow> jsstring list \<Rightarrow> int \<Rightarrow> int \<Rightarrow> int \<Rightarrow> int
     \<Rightarrow> sqlite_error + database" where
  "createTrivia db triviaId tweetId correctAnswers windowMinutes rewardRmz createdAt closesAt =
     (if \<exists>r \<in> set (trivia_rewards db). trivia_id r = triviaId then Inl ConstraintPrimaryKey
      else Inr (db\<lparr>trivia_rewards := trivia_rewards db @
        [\<lparr> trivia_id = triviaId, tweet_id = tweetId, correct_answers = correctAnswers,
           window_minutes = windowMinutes, reward_rmz = rewardRmz, created_at = createdAt,
           closes_at = closesAt, status = Open, block_height = None, seed = None,
           winner_twitter_user_id = None, winner_tweet_id = None, claim_code = None,
           claim_expires_at = None, used_at = None, used_address = None, txid = None,
           invalid_attempts = 0, lock_expires_at = None \<rparr>]\<rparr>))"

definition getTrivia :: "database \<Rightarrow> jsstring \<Rightarrow> TriviaRecord option" where
  "getTrivia db triviaId = find (\<lambda>r. trivia_id r = triviaId) (trivia_rewards db)"

definition getClaimByCode :: "database \<Rightarrow> jsstring \<Rightarrow> TriviaRecord option" where
  "getClaimByCode db claimCode = find (\<lambda>r. claim_code r = Some claimCode) (trivia_rewards db)"

text \<open>
  \<^verbatim>\<open>addReplies\<close>: INSERT OR IGNORE under the constraint
  \<^verbatim>\<open>UNIQUE(trivia_id, tweet_id)\<close>; the row id counts up from 1 and no row is ever
  deleted.
\<close>

definition insert_reply :: "TriviaReplyRecord list \<Rightarrow> TriviaReplyInsert \<Rightarrow> TriviaReplyRecord list" where
  "insert_reply rows reply =
     (if \<exists>x \<in> set rows. r_trivia_id x = r_trivia_id reply \<and> r_tweet_id x = r_tweet_id reply
      then rows
      else rows @ [TriviaReplyInsert.extend reply
                     (TriviaReplyRecord.fields (int (length rows) + 1))])"

definition addReplies :: "database \<Rightarrow> TriviaReplyInsert list \<Rightarrow> database" where
  "addReplies db replies = db\<lparr>trivia_replies := foldl insert_reply (trivia_replies db) replies\<rparr>"

text \<open>
  \<^verbatim>\<open>listCorrectReplies\<close>: ORDER BY \<^verbatim>\<open>created_at\<close> ASC; rows with equal time stamps
  are taken in insertion order.
\<close>

definition listCorrectReplies :: "database \<Rightarrow> jsstring \<Rightarrow> TriviaReplyRecord list" where
  "listCorrectReplies db triviaId =
     sort_key r_created_at
       (filter (\<lambda>x. r_trivia_id x = triviaId \<and> r_is_correct x = 1) (trivia_replies db))"

definition closeTrivia ::
  "database \<Rightarrow> jsstring \<Rightarrow> int \<Rightarrow> jsstring \<Rightarrow> jsstring option \<Rightarrow> jsstring option
     \<Rightarrow> jsstring option \<Rightarrow> int option \<Rightarrow> database" where
  "closeTrivia db triviaId blockHeight seed' winnerTwitterUserId winnerTweetId claimCode
     claimExpiresAt =
     db\<lparr>trivia_rewards := map (\<lambda>r.
        if trivia_id r = triviaId
        then r\<lparr> status := Closed, block_height := Some blockHeight, seed := Some seed',
                winner_twitter_user_id := winnerTwitterUserId,
                winner_tweet_id := winnerTweetId, claim_code := claimCode,
                claim_expires_at := claimExpiresAt \<rparr>
        else r) (trivia_rewards db)\<rparr>"

text \<open>
  \<^verbatim>\<open>markClaimUsed\<close>: one UPDATE with the condition
  \<^verbatim>\<open>trivia_id = ? AND used_at IS NULL\<close>; the result says whether a row changed.
\<close>

definition markClaimUsed ::
  "database \<Rightarrow> jsstring \<Rightarrow> int \<Rightarrow> jsstring \<Rightarrow> jsstring \<Rightarrow> database \<times> bool" where
  "markClaimUsed db triviaId usedAt usedAddress txid' =
     (let hit = (\<lambda>r. trivia_id r = triviaId \<and> used_at r = None);
          changes = length (filter hit (trivia_rewards db))
      in (db\<lparr>trivia_rewards := map (\<lambda>r.
            if hit r
            then r\<lparr> used_at := Some usedAt, used_address := Some usedAddress,
                    txid := Some txid', invalid_attempts := 0, lock_expires_at := None \<rparr>
            else r) (trivia_rewards db)\<rparr>,
          changes > 0))"

definition clearClaimLock :: "database \<Rightarrow> jsstring \<Rightarrow> database" where
  "clearClaimLock db triviaId =
     db\<lparr>trivia_rewards := map (\<lambda>r.
        if trivia_id r = triviaId then r\<lparr> invalid_attempts := 0, lock_expires_at := None \<rparr>
        else r) (trivia_rewards db)\<rparr>"

text \<open>
  The lock test \<^verbatim>\<open>lockExpiresAt && now >= lockExpiresAt\<close>: the left operand is falsy
  for \<^verbatim>\<open>null\<close> and for the number 0.
\<close>

definition lock_expired :: "int option \<Rightarrow> int \<Rightarrow> bool" where
  "lock_expired lockExpiresAt now =
     (case lockExpiresAt of None \<Rightarrow> False | Some l \<Rightarrow> l \<noteq> 0 \<and> now \<ge> l)"

record LockResult =
  invalidAttempts :: int
  lockExpiresAt :: "int option"

text \<open>
  The body shared by \<^verbatim>\<open>recordInvalidAttempt\<close> and
  \<^verbatim>\<open>recordInvalidClaimCodeAttempt\<close>, from the stored counter to the new one.
\<close>

definition bump_attempts :: "int \<Rightarrow> int option \<Rightarrow> int \<Rightarrow> int \<Rightarrow> int \<Rightarrow> LockResult" where
  "bump_attempts stored_attempts stored_lock now maxAttempts lockMs =
     (let expired = lock_expired stored_lock now;
          invalidAttempts0 = (if expired then 0 else stored_attempts);
          lockExpiresAt0 = (if expired then None else stored_lock);
          invalidAttempts1 = invalidAttempts0 + 1;
          newLockExpiresAt =
            (if invalidAttempts1 \<ge> maxAttempts then Some (now + lockMs) else lockExpiresAt0)
      in \<lparr> invalidAttempts = invalidAttempts1, lockExpiresAt = newLockExpiresAt \<rparr>)"

definition recordInvalidAttempt ::
  "database \<Rightarrow> jsstring \<Rightarrow> int \<Rightarrow> int \<Rightarrow> int \<Rightarrow> database \<times> LockResult" where
  "recordInvalidAttempt db triviaId now maxAttempts lockMs =
     (let row = getTrivia db triviaId;
          res = bump_attempts
                  (case row of None \<Rightarrow> 0 | Some r \<Rightarrow> invalid_attempts r)
                  (case row of None \<Rightarrow> None | Some r \<Rightarrow> lock_expires_at r)
                  now maxAttempts lockMs
      in (db\<lparr>trivia_rewards := map (\<lambda>r.
            if trivia_id r = triviaId
            then r\<lparr> invalid_attempts := invalidAttempts res,
                    lock_expires_at := lockExpiresAt res \<rparr>
            else r) (trivia_rewards db)\<rparr>,
          res))"

definition getClaimAttemptByCode :: "database \<Rightarrow> jsstring \<Rightarrow> ClaimAttempt option" where
  "getClaimAttemptByCode db claimCode = trivia_claim_attempts db claimCode"

text \<open>\<^verbatim>\<open>clearClaimAttemptLock\<close> reads the clock; the reading is the argument \<open>t\<close>.\<close>

definition clearClaimAttemptLock :: "database \<Rightarrow> jsstring \<Rightarrow> int \<Rightarrow> database" where
  "clearClaimAttemptLock db claimCode t =
     (case trivia_claim_attempts db claimCode of
        None \<Rightarrow> db
      | Some a \<Rightarrow> db\<lparr>trivia_claim_attempts := (trivia_claim_attempts db)(claimCode \<mapsto>
          \<lparr> a_invalid_attempts = 0, a_lock_expires_at = None, a_updated_at = t \<rparr>)\<rparr>)"

definition recordInvalidClaimCodeAttempt ::
  "database \<Rightarrow> jsstring \<Rightarrow> int \<Rightarrow> int \<Rightarrow> int \<Rightarrow> database \<times> LockResult" where
  "recordInvalidClaimCodeAttempt db claimCode now maxAttempts lockMs =
     (let existing = getClaimAttemptByCode db claimCode;
          res = bump_attempts
                  (case existing of None \<Rightarrow> 0 | Some a \<Rightarrow> a_invalid_attempts a)
                  (case existing of None \<Rightarrow> None | Some a \<Rightarrow> a_lock_expires_at a)
                  now maxAttempts lockMs
      in (db\<lparr>trivia_claim_attempts := (trivia_claim_attempts db)(claimCode \<mapsto>
            \<lparr> a_invalid_attempts = invalidAttempts res,
              a_lock_expires_at = lockExpiresAt res, a_updated_at = now \<rparr>)\<rparr>,
          res))"

definition recordPayout ::
  "database \<Rightarrow> jsstring \<Rightarrow> jsstring \<Rightarrow> jsstring \<Rightarrow> int \<Rightarrow> jsstring \<Rightarrow> int \<Rightarrow> jsstring
     \<Rightarrow> database" where
  "recordPayout db triviaId twitterUserId address rmzAmount txid' createdAt dayKey =
     db\<lparr>trivia_payouts := trivia_payouts db @
       [\<lparr> p_id = int (length (trivia_payouts db)) + 1, p_trivia_id = triviaId,
          p_twitter_user_id = twitterUserId, p_address = address, p_rmz_amount = rmzAmount,
          p_txid = txid', p_created_at = createdAt, p_day_key = dayKey \<rparr>]\<rparr>"

definition getDailySpend :: "database \<Rightarrow> jsstring \<Rightarrow> int" where
  "getDailySpend db dayKey = (case daily_spend db dayKey of None \<Rightarrow> 0 | Some tot \<Rightarrow> tot)"

definition incrementDailySpend :: "database \<Rightarrow> jsstring \<Rightarrow> int \<Rightarrow> database" where
  "incrementDailySpend db dayKey amount =
     db\<lparr>daily_spend := (daily_spend db)(dayKey \<mapsto>
       (case daily_spend db dayKey of None \<Rightarrow> amount | Some tot \<Rightarrow> tot + amount))\<rparr>"

text \<open>
  \<^verbatim>\<open>recordClaimAndPayout\<close>: the three statements run inside one
  \<^verbatim>\<open>db.transaction\<close>, which commits when the function returns. None of them can
  raise on parameters of the declared types, so the rollback branch is never taken.
\<close>

definition recordClaimAndPayout ::
  "database \<Rightarrow> jsstring \<Rightarrow> int \<Rightarrow> jsstring \<Rightarrow> jsstring \<Rightarrow> jsstring \<Rightarrow> int \<Rightarrow> jsstring
     \<Rightarrow> database \<times> bool" where
  "recordClaimAndPayout db triviaId usedAt usedAddress txid' twitterUserId rmzAmount dayKey =
     (case markClaimUsed db triviaId usedAt usedAddress txid' of
        (db1, updated) \<Rightarrow>
          if \<not> updated then (db1, False)
          else
            let db2 = recordPayout db1 triviaId twitterUserId usedAddress rmzAmount txid'
                        usedAt dayKey;
                db3 = incrementDailySpend db2 dayKey rmzAmount
            in (db3, True))"

definition countWinsForUser :: "database \<Rightarrow> jsstring \<Rightarrow> jsstring \<Rightarrow> int" where
  "countWinsForUser db dayKey twitterUserId =
     int (length (filter (\<lambda>p. p_day_key p = dayKey \<and> p_twitter_user_id p = twitterUserId)
                    (trivia_payouts db)))"

definition sumAddressSpend :: "database \<Rightarrow> jsstring \<Rightarrow> jsstring \<Rightarrow> int" where
  "sumAddressSpend db dayKey address =
     sum_list (map p_rmz_amount
       (filter (\<lambda>p. p_day_key p = dayKey \<and> p_address p = address) (trivia_payouts db)))"

text \<open>
  The store operations that the routes call. \<open>reachable\<close> holds of every state of the
  store that a sequence of them produces from the empty database.
\<close>

inductive reachable :: "database \<Rightarrow> bool" where
  r_init: "reachable empty_db"
| r_create: "reachable db \<Longrightarrow>
     createTrivia db triviaId tweetId answers windowMinutes rewardRmz createdAt closesAt = Inr db'
     \<Longrightarrow> reachable db'"
| r_replies: "reachable db \<Longrightarrow> reachable (addReplies db replies)"
| r_close: "reachable db \<Longrightarrow>
     reachable (closeTrivia db triviaId blockHeight s winner winnerTweet code expires)"
| r_clear: "reachable db \<Longrightarrow> reachable (clearClaimLock db triviaId)"
| r_attempt: "reachable db \<Longrightarrow>
     reachable (fst (recordInvalidAttempt db triviaId now maxAttempts lockMs))"
| r_clear_code: "reachable db \<Longrightarrow> reachable (clearClaimAttemptLock db claimCode t)"
| r_attempt_code: "reachable db \<Longrightarrow>
     reachable (fst (recordInvalidClaimCodeAttempt db claimCode now maxAttempts lockMs))"
| r_settle: "reachable db \<Longrightarrow>
     reachable (fst (recordClaimAndPayout db triviaId usedAt usedAddress txid' twitterUserId
                       rmzAmount dayKey))"

definition payouts_of :: "database \<Rightarrow> jsstring \<Rightarrow> PayoutRecord list" where
  "payouts_of db triviaId = filter (\<lambda>p. p_trivia_id p = triviaId) (trivia_payouts db)"

text \<open>
  The invariant behind single settlement: round ids are unique (the primary key), and a
  round has no payout row before it is marked used and at most one after.
\<close>

definition is_used :: "database \<Rightarrow> jsstring \<Rightarrow> bool" where
  "is_used db triviaId \<longleftrightarrow>
     (\<exists>r \<in> set (trivia_rewards db). trivia_id r = triviaId \<and> used_at r \<noteq> None)"

definition store_inv :: "database \<Rightarrow> bool" where
  "store_inv db \<longleftrightarrow>
     distinct (map trivia_id (trivia_rewards db)) \<and>
     (\<forall>triviaId. length (payouts_of db triviaId) \<le> (if is_used db triviaId then 1 else 0))"

text \<open>
  The lazy-expiry rule in the words of the specification: a stored lock that is set and
  has been reached resets the counter and clears the lock; the counter is then
  incremented, and a count that reaches \<open>maxAttempts\<close> sets the lock to
  \<open>now + lockMs\<close>.
\<close>

definition lazy_expiry_spec :: "int \<Rightarrow> int option \<Rightarrow> int \<Rightarrow> int \<Rightarrow> int \<Rightarrow> LockResult" where
  "lazy_expiry_spec stored_attempts stored_lock now maxAttempts lockMs =
     (let expired = (case stored_lock of None \<Rightarrow> False | Some l \<Rightarrow> now \<ge> l);
          n = (if expired then 0 else stored_attempts) + 1
      in \<lparr> invalidAttempts = n,
           lockExpiresAt = (if n \<ge> maxAttempts then Some (now + lockMs)
                            else if expired then None else stored_lock) \<rparr>)"

text \<open>
  A call of one of the two recorders, with its arguments: the round id or the claim
  code, \<open>now\<close>, \<open>maxAttempts\<close> and \<open>lockMs\<close>; the counter and the lock that the store
  holds for the target of a call (0 and \<^verbatim>\<open>null\<close> where there is no row); and the
  stores in which no lock is the number 0.
\<close>

datatype attempt_call = RoundCall jsstring int int int | CodeCall jsstring int int int

fun run_call :: "database \<Rightarrow> attempt_call \<Rightarrow> database \<times> LockResult" where
  "run_call db (RoundCall triviaId now maxAttempts lockMs) =
     recordInvalidAttempt db triviaId now maxAttempts lockMs"
| "run_call db (CodeCall claimCode now maxAttempts lockMs) =
     recordInvalidClaimCodeAttempt db claimCode now maxAttempts lockMs"

fun call_now :: "attempt_call \<Rightarrow> int" where
  "call_now (RoundCall triviaId now maxAttempts lockMs) = now"
| "call_now (CodeCall claimCode now maxAttempts lockMs) = now"

fun call_maxAttempts :: "attempt_call \<Rightarrow> int" where
  "call_maxAttempts (RoundCall triviaId now maxAttempts lockMs) = maxAttempts"
| "call_maxAttempts (CodeCall claimCode now maxAttempts lockMs) = maxAttempts"

fun call_lockMs :: "attempt_call \<Rightarrow> int" where
  "call_lockMs (RoundCall triviaId now maxAttempts lockMs) = lockMs"
| "call_lockMs (CodeCall claimCode now maxAttempts lockMs) = lockMs"

fun counter_of :: "database \<Rightarrow> attempt_call \<Rightarrow> int" where
  "counter_of db (RoundCall triviaId now maxAttempts lockMs) =
     (case getTrivia db triviaId of None \<Rightarrow> 0 | Some r \<Rightarrow> invalid_attempts r)"
| "counter_of db (CodeCall claimCode now maxAttempts lockMs) =
     (case getClaimAttemptByCode db claimCode of None \<Rightarrow> 0 | Some a \<Rightarrow> a_invalid_attempts a)"

fun lock_of :: "database \<Rightarrow> attempt_call \<Rightarrow> int option" where
  "lock_of db (RoundCall triviaId now maxAttempts lockMs) =
     (case getTrivia db triviaId of None \<Rightarrow> None | Some r \<Rightarrow> lock_expires_at r)"
| "lock_of db (CodeCall claimCode now maxAttempts lockMs) =
     (case getClaimAttemptByCode db claimCode of None \<Rightarrow> None | Some a \<Rightarrow> a_lock_expires_at a)"

fun has_row :: "database \<Rightarrow> attempt_call \<Rightarrow> bool" where
  "has_row db (RoundCall triviaId now maxAttempts lockMs) = (getTrivia db triviaId \<noteq> None)"
| "has_row db (CodeCall claimCode now maxAttempts lockMs) = True"

definition no_zero_lock :: "database \<Rightarrow> bool" where
  "no_zero_lock db \<longleftrightarrow>
     (\<forall>r \<in> set (trivia_rewards db). lock_expires_at r \<noteq> Some 0) \<and>
     (\<forall>a \<in> ran (trivia_claim_attempts db). a_lock_expires_at a \<noteq> Some 0)"

section \<open>\<^verbatim>\<open>triviaRewards/helpers.ts\<close>: day keys and reply parsing\<close>

text \<open>
  Numbers in template strings: an integer prints as its decimal digits (below
  \<open>10 ^ 21\<close> in absolute value, which covers every amount and year met here).
\<close>

function show_nat :: "nat \<Rightarrow> jsstring" where
  "show_nat n = (if n < 10 then [of_nat (48 + n)] else show_nat (n div 10) @ [of_nat (48 + n mod 10)])"
  by pat_completeness auto
termination
  by (relation "measure id") auto

definition show_int :: "int \<Rightarrow> jsstring" where
  "show_int i = (if i < 0 then 0x2D # show_nat (nat (- i)) else show_nat (nat i))"

definition padStart2 :: "jsstring \<Rightarrow> jsstring" where
  "padStart2 s = replicate (2 - length s) 0x30 @ s"

text \<open>
  \<^verbatim>\<open>getUTCFullYear\<close>, \<^verbatim>\<open>getUTCMonth() + 1\<close> and \<^verbatim>\<open>getUTCDate\<close> of a time
  stamp in milliseconds: the date of the proleptic Gregorian calendar.
\<close>

definition utc_date :: "int \<Rightarrow> int \<times> int \<times> int" where
  "utc_date timestampMs =
     (let z = timestampMs div 86400000 + 719468;
          era = z div 146097;
          doe = z - era * 146097;
          yoe = (doe - doe div 1460 + doe div 36524 - doe div 146096) div 365;
          doy = doe - (365 * yoe + yoe div 4 - yoe div 100);
          mp = (5 * doy + 2) div 153;
          d = doy - (153 * mp + 2) div 5 + 1;
          m = (if mp < 10 then mp + 3 else mp - 9);
          y = yoe + era * 400 + (if m \<le> 2 then 1 else 0)
      in (y, m, d))"

definition toDayKey :: "int \<Rightarrow> jsstring" where
  "toDayKey timestampMs =
     (case utc_date timestampMs of
        (year, month, day) \<Rightarrow>
          show_int year @ js ''-'' @ padStart2 (show_int month) @ js ''-'' @ padStart2 (show_int day))"

text \<open>
  A raw reply is any JSON value. Numbers are integers here. Reading a property of a
  value that is not an object gives \<^verbatim>\<open>undefined\<close>, which is what \<^verbatim>\<open>?.\<close> and
  plain access both give for the property names the parser reads.
\<close>

datatype json =
  JUndefined | JNull | JBool bool | JNum int | JStr jsstring
  | JArr "json list" | JObj "(string \<times> json) list"

fun field :: "json \<Rightarrow> string \<Rightarrow> json" where
  "field (JObj kvs) k = (case map_of kvs k of None \<Rightarrow> JUndefined | Some v \<Rightarrow> v)"
| "field v k = JUndefined"

fun js_truthy :: "json \<Rightarrow> bool" where
  "js_truthy JUndefined = False"
| "js_truthy JNull = False"
| "js_truthy (JBool b) = b"
| "js_truthy (JNum n) = (n \<noteq> 0)"
| "js_truthy (JStr s) = (s \<noteq> [])"
| "js_truthy (JArr xs) = True"
| "js_truthy (JObj kvs) = True"

text \<open>\<^verbatim>\<open>!raw || typeof raw !== "object"\<close> is false for objects and arrays only.\<close>

fun is_object :: "json \<Rightarrow> bool" where
  "is_object (JObj kvs) = True"
| "is_object (JArr xs) = True"
| "is_object v = False"

fun pickFirstString :: "json list \<Rightarrow> jsstring" where
  "pickFirstString [] = []"
| "pickFirstString (JStr s # vs) = (if trim s \<noteq> [] then s else pickFirstString vs)"
| "pickFirstString (v # vs) = pickFirstString vs"

record ParsedTweet =
  id' :: jsstring
  text' :: jsstring
  twitterUserId :: jsstring
  twitterUsername :: "jsstring option"
  inReplyToStatusId :: "jsstring option"
  createdAtMs :: "int option"

definition raw_id :: "json \<Rightarrow> jsstring" where
  "raw_id raw = pickFirstString
     [field raw ''id'', field raw ''rest_id'', field raw ''tweet_id'',
      field (field raw ''legacy'') ''id_str'']"

definition raw_text :: "json \<Rightarrow> jsstring" where
  "raw_text raw = pickFirstString
     [field raw ''text'', field raw ''full_text'', field (field raw ''legacy'') ''full_text'',
      field (field raw ''legacy'') ''text'']"

definition raw_twitterUserId :: "json \<Rightarrow> jsstring" where
  "raw_twitterUserId raw = pickFirstString
     [field raw ''userId'', field raw ''user_id'',
      field (field (field (field raw ''core'') ''user_results'') ''result'') ''rest_id'',
      field (field raw ''user'') ''id_str'']"

definition raw_twitterUsername :: "json \<Rightarrow> jsstring" where
  "raw_twitterUsername raw = pickFirstString
     [field raw ''username'',
      field (field (field (field (field raw ''core'') ''user_results'') ''result'') ''legacy'')
        ''screen_name'',
      field (field raw ''user'') ''screen_name'']"

definition raw_inReplyToStatusId :: "json \<Rightarrow> jsstring" where
  "raw_inReplyToStatusId raw = pickFirstString
     [field raw ''inReplyToStatusId'', field raw ''in_reply_to_status_id_str'',
      field (field raw ''legacy'') ''in_reply_to_status_id_str'']"

definition raw_createdAtMs :: "'a js_builtins_scheme \<Rightarrow> json \<Rightarrow> int option" where
  "raw_createdAtMs B raw =
     (case field raw ''timestamp'' of
        JNum t \<Rightarrow> Some (t * 1000)
      | _ \<Rightarrow>
        (case field raw ''created_at'' of
           JNum c \<Rightarrow> Some c
         | _ \<Rightarrow>
           (case field (field raw ''legacy'') ''created_at'' of
              JStr s \<Rightarrow> Date_parse B s
            | _ \<Rightarrow> None)))"

definition nonempty :: "jsstring \<Rightarrow> jsstring option" where
  "nonempty s = (if s = [] then None else Some s)"

definition parseTweetForReply :: "'a js_builtins_scheme \<Rightarrow> json \<Rightarrow> ParsedTweet option" where
  "parseTweetForReply B raw =
     (if \<not> is_object raw then None
      else if raw_id raw = [] then None
      else if raw_twitterUserId raw = [] then None
      else Some \<lparr> id' = raw_id raw, text' = raw_text raw,
                  twitterUserId = raw_twitterUserId raw,
                  twitterUsername = nonempty (raw_twitterUsername raw),
                  inReplyToStatusId = nonempty (raw_inReplyToStatusId raw),
                  createdAtMs = raw_createdAtMs B raw \<rparr>)"

section \<open>\<^verbatim>\<open>triviaRewards/routes.ts\<close>: collecting replies\<close>

text \<open>
  The body of the loop of \<^verbatim>\<open>collectReplies\<close> for one raw reply; \<open>None\<close> is
  \<^verbatim>\<open>continue\<close>. The tests \<^verbatim>\<open>parsed.inReplyToStatusId && ...\<close> and
  \<^verbatim>\<open>parsed.createdAtMs && ...\<close> are truthiness tests: the second is false for a
  missing time stamp and for the time stamp 0. \<open>tnow\<close> is the reading of the clock
  used for a reply without a time stamp.
\<close>

definition scoreReply ::
  "'a js_builtins_scheme \<Rightarrow> jsstring \<Rightarrow> jsstring \<Rightarrow> jsstring list \<Rightarrow> int \<Rightarrow> int \<Rightarrow> int
     \<Rightarrow> json \<Rightarrow> TriviaReplyInsert option" where
  "scoreReply B tweetId triviaId correctAnswers createdAt closesAt tnow raw =
     (case parseTweetForReply B raw of
        None \<Rightarrow> None
      | Some parsed \<Rightarrow>
          if (case inReplyToStatusId parsed of None \<Rightarrow> False | Some r \<Rightarrow> r \<noteq> tweetId) then None
          else if (case createdAtMs parsed of
                     None \<Rightarrow> False
                   | Some t \<Rightarrow> t \<noteq> 0 \<and> (t < createdAt \<or> t > closesAt)) then None
          else
            let normalized = normalizeAnswer B (text' parsed);
                isCorrect = (if normalized \<in> set correctAnswers then 1 else 0)
            in Some \<lparr> r_trivia_id = triviaId, r_tweet_id = id' parsed,
                      r_twitter_user_id = twitterUserId parsed,
                      r_twitter_username = twitterUsername parsed,
                      r_reply_text = text' parsed, r_normalized_text = normalized,
                      r_is_correct = isCorrect,
                      r_created_at = (case createdAtMs parsed of None \<Rightarrow> tnow | Some t \<Rightarrow> t) \<rparr>)"

text \<open>
  \<^verbatim>\<open>collectReplies\<close> on the tweets that the search returned. The clock is read once
  for each reply without a time stamp; \<open>clock i\<close> is the reading at the \<open>i\<close>-th raw
  reply.
\<close>

fun collect_from ::
  "'a js_builtins_scheme \<Rightarrow> jsstring \<Rightarrow> jsstring \<Rightarrow> jsstring list \<Rightarrow> int \<Rightarrow> int
     \<Rightarrow> (nat \<Rightarrow> int) \<Rightarrow> nat \<Rightarrow> json list \<Rightarrow> TriviaReplyInsert list" where
  "collect_from B tweetId triviaId correctAnswers createdAt closesAt clock i [] = []"
| "collect_from B tweetId triviaId correctAnswers createdAt closesAt clock i (raw # raws) =
     (case scoreReply B tweetId triviaId correctAnswers createdAt closesAt (clock i) raw of
        None \<Rightarrow> []
      | Some reply \<Rightarrow> [reply])
     @ collect_from B tweetId triviaId correctAnswers createdAt closesAt clock (Suc i) raws"

definition collectReplies ::
  "'a js_builtins_scheme \<Rightarrow> json list \<Rightarrow> jsstring \<Rightarrow> jsstring \<Rightarrow> jsstring list \<Rightarrow> int \<Rightarrow> int
     \<Rightarrow> (nat \<Rightarrow> int) \<Rightarrow> TriviaReplyInsert list" where
  "collectReplies B rawTweets tweetId triviaId correctAnswers createdAt closesAt clock =
     collect_from B tweetId triviaId correctAnswers createdAt closesAt clock 0 rawTweets"



section \<open>\<^verbatim>\<open>triviaRewards/rmzSend.ts\<close>: the payment executor\<close>

text \<open>The variables of \<^verbatim>\<open>process.env\<close> that the routes read; \<open>None\<close> is unset.\<close>

record environment =
  TRIVIA_ADMIN_TOKEN :: "jsstring option"
  TRIVIA_SALT :: "jsstring option"
  RMZSTATE_TOKEN_ID :: "jsstring option"
  RMZ_TOKEN_ID :: "jsstring option"
  CLAIM_RATE_LIMIT_PER_MINUTE :: "jsstring option"
  DAILY_CAP_RMZ :: "jsstring option"
  MAX_WIN_PER_USER_PER_DAY :: "jsstring option"
  MAX_RMZ_PER_USER_PER_DAY :: "jsstring option"
  REWARD_DRY_RUN :: "jsstring option"
  REWARD_WALLET_MNEMONIC :: "jsstring option"
  REWARD_WALLET_WIF :: "jsstring option"

text \<open>
  A string that may be absent, read as \<^verbatim>\<open>x || ""\<close>; the test \<^verbatim>\<open>!x\<close> holds when
  the result is empty.
\<close>

definition or_empty :: "jsstring option \<Rightarrow> jsstring" where
  "or_empty v = (case v of None \<Rightarrow> [] | Some s \<Rightarrow> s)"

text \<open>\<^verbatim>\<open>Number(process.env.X || d)\<close>; \<open>None\<close> is \<^verbatim>\<open>NaN\<close>.\<close>

definition env_number :: "'a js_builtins_scheme \<Rightarrow> jsstring option \<Rightarrow> int \<Rightarrow> int option" where
  "env_number B v d = (if or_empty v = [] then Some d else Number_of B (or_empty v))"

text \<open>Comparisons with a number that may be \<^verbatim>\<open>NaN\<close> are false for \<^verbatim>\<open>NaN\<close>.\<close>

definition num_gt :: "int \<Rightarrow> int option \<Rightarrow> bool" where
  "num_gt a b = (case b of None \<Rightarrow> False | Some n \<Rightarrow> a > n)"

definition num_ge :: "int \<Rightarrow> int option \<Rightarrow> bool" where
  "num_ge a b = (case b of None \<Rightarrow> False | Some n \<Rightarrow> a \<ge> n)"

record RmzSendParams =
  toAddress :: jsstring
  amountRmz :: int
  tokenId :: jsstring
  mnemonic :: "jsstring option"
  wif :: "jsstring option"

datatype RmzSendError = payout_not_implemented

definition isDryRun :: "'a js_builtins_scheme \<Rightarrow> 'b environment_scheme \<Rightarrow> bool" where
  "isDryRun B env \<longleftrightarrow> toLowerCase B (or_empty (REWARD_DRY_RUN env)) = js ''true''"

text \<open>\<^verbatim>\<open>sendRmz\<close>; \<open>tnow\<close> is the reading of the clock that goes into the dry-run id.\<close>

definition sendRmz ::
  "'a js_builtins_scheme \<Rightarrow> 'b environment_scheme \<Rightarrow> int \<Rightarrow> RmzSendParams \<Rightarrow> RmzSendError + jsstring" where
  "sendRmz B env tnow params =
     (if isDryRun B env then
        Inr (js ''dryrun_'' @
             take 16 (sha256_hex (toAddress params @ js '':'' @ show_int (amountRmz params) @
                        js '':'' @ tokenId params @ js '':'' @ show_int tnow)))
      else Inl payout_not_implemented)"

section \<open>\<^verbatim>\<open>triviaRewards/routes.ts\<close>: the routes\<close>

definition REWARD_RMZ_DEFAULT :: int where "REWARD_RMZ_DEFAULT = 3"
definition TRIVIA_WINDOW_MINUTES_DEFAULT :: int where "TRIVIA_WINDOW_MINUTES_DEFAULT = 10"
definition CLAIM_TTL_MS :: int where "CLAIM_TTL_MS = 60 * 60 * 1000"
definition CLAIM_LOCK_MS :: int where "CLAIM_LOCK_MS = 15 * 60 * 1000"
definition rateLimitWindowMs :: int where "rateLimitWindowMs = 60 * 1000"

record Bucket =
  bucket_count :: int
  bucket_resetAt :: int

text \<open>
  The state of one server process: the store, the rate-limit buckets held in memory,
  and a log of the calls of \<^verbatim>\<open>sendRmz\<close> (kept to say when the payment executor was
  invoked; the source has no such log).
\<close>

record server =
  store :: database
  rateLimitBuckets :: "jsstring \<rightharpoonup> Bucket"
  sendRmz_calls :: "RmzSendParams list"

definition allowRateLimit :: "server \<Rightarrow> jsstring \<Rightarrow> int option \<Rightarrow> int \<Rightarrow> server \<times> bool" where
  "allowRateLimit st key limit tnow =
     (let fresh = st\<lparr>rateLimitBuckets := (rateLimitBuckets st)(key \<mapsto>
                     \<lparr> bucket_count = 1, bucket_resetAt = tnow + rateLimitWindowMs \<rparr>)\<rparr>
      in case rateLimitBuckets st key of
           None \<Rightarrow> (fresh, True)
         | Some bucket \<Rightarrow>
             if tnow > bucket_resetAt bucket then (fresh, True)
             else if num_ge (bucket_count bucket) limit then (st, False)
             else (st\<lparr>rateLimitBuckets := (rateLimitBuckets st)(key \<mapsto>
                        bucket\<lparr>bucket_count := bucket_count bucket + 1\<rparr>)\<rparr>, True))"

text \<open>
  The part of a request that every route reads: the two spellings of the authorization
  header, the forwarding header, and the peer address.
\<close>

record request =
  authorization :: json
  Authorization :: json
  x_forwarded_for :: json
  ip :: "jsstring option"

datatype response = Response int json

definition error_body :: "string \<Rightarrow> json" where
  "error_body msg = JObj [(''error'', JStr (js msg))]"

text \<open>
  \<^verbatim>\<open>header.match(/^Bearer\s+(.+)$/i)\<close>. The white space after the word is matched
  greedily and gives characters back until the rest, up to the end of the string, is
  non-empty and free of line terminators: \<open>bearer_capture k rest\<close> tries \<open>k\<close>, then
  \<open>k - 1\<close>, down to one white-space character.
\<close>

definition ascii_lower :: "code_unit \<Rightarrow> code_unit" where
  "ascii_lower c = (if 0x41 \<le> c \<and> c \<le> 0x5A then c + 0x20 else c)"

definition is_line_terminator :: "code_unit \<Rightarrow> bool" where
  "is_line_terminator c \<longleftrightarrow> c = 0x000A \<or> c = 0x000D \<or> c = 0x2028 \<or> c = 0x2029"

fun bearer_capture :: "nat \<Rightarrow> jsstring \<Rightarrow> jsstring option" where
  "bearer_capture 0 rest = None"
| "bearer_capture (Suc k) rest =
     (let cap = drop (Suc k) rest
      in if cap \<noteq> [] \<and> (\<forall>c \<in> set cap. \<not> is_line_terminator c) then Some cap
         else bearer_capture k rest)"

definition extractBearerToken :: "'a request_scheme \<Rightarrow> jsstring" where
  "extractBearerToken req =
     (let header = (if js_truthy (authorization req) then authorization req
                    else if js_truthy (Authorization req) then Authorization req
                    else JStr [])
      in case header of
           JStr h \<Rightarrow>
             if map ascii_lower (take 6 h) = js ''bearer'' then
               (case bearer_capture (length (takeWhile is_space (drop 6 h))) (drop 6 h) of
                  None \<Rightarrow> []
                | Some token \<Rightarrow> token)
             else []
         | _ \<Rightarrow> [])"

text \<open>
  \<^verbatim>\<open>requireAdmin\<close>: the result says whether the request may go on; when it may not,
  the response has been sent.
\<close>

definition unauthorized :: response where
  "unauthorized = Response 401 (error_body ''unauthorized'')"

definition requireAdmin :: "'b environment_scheme \<Rightarrow> 'a request_scheme \<Rightarrow> bool \<times> response option" where
  "requireAdmin env req =
     (let expected = TRIVIA_ADMIN_TOKEN env;
          provided = extractBearerToken req
      in if or_empty expected = [] \<or> Some provided \<noteq> expected then (False, Some unauthorized)
         else (True, None))"

definition getRequestIp :: "'a request_scheme \<Rightarrow> jsstring" where
  "getRequestIp req =
     (case x_forwarded_for req of
        JStr forwarded \<Rightarrow>
          if trim forwarded \<noteq> [] then trim (takeWhile (\<lambda>c. c \<noteq> 0x2C) forwarded)
          else (case ip req of None \<Rightarrow> js ''unknown'' | Some a \<Rightarrow> if a = [] then js ''unknown'' else a)
      | _ \<Rightarrow> (case ip req of None \<Rightarrow> js ''unknown'' | Some a \<Rightarrow> if a = [] then js ''unknown'' else a))"

definition isValidEcashAddress :: "jsstring \<Rightarrow> bool" where
  "isValidEcashAddress a \<longleftrightarrow> take 6 a = js ''ecash:'' \<and> length a > 12"

subsection \<open>\<^verbatim>\<open>POST /api/trivia/create\<close>\<close>

text \<open>
  The JSON body: \<open>None\<close> for a field that is absent, strings where the route expects
  them. \<open>q_correctAnswers\<close> is \<open>None\<close> when the field is not an array; \<open>q_windowMinutes\<close>
  and \<open>q_rewardRmz\<close> hold \<^verbatim>\<open>Number\<close> of the field, \<open>None\<close> for \<^verbatim>\<open>NaN\<close>.
\<close>

record create_request = request +
  q_triviaId :: "jsstring option"
  q_tweetId :: "jsstring option"
  q_correctAnswers :: "jsstring list option"
  q_windowMinutes :: "int option"
  q_rewardRmz :: "int option"

definition number_or :: "int option \<Rightarrow> int \<Rightarrow> int" where
  "number_or v d = (case v of None \<Rightarrow> d | Some n \<Rightarrow> if n = 0 then d else n)"

text \<open>
  An exception that no handler catches: the framework answers 500.
\<close>

definition uncaught :: response where
  "uncaught = Response 500 JUndefined"

definition create_route ::
  "'a js_builtins_scheme \<Rightarrow> 'b environment_scheme \<Rightarrow> int \<Rightarrow> server \<Rightarrow> create_request
     \<Rightarrow> server \<times> response" where
  "create_route B env tnow st req =
     (if \<not> fst (requireAdmin env req) then (st, unauthorized)
      else if or_empty (q_triviaId req) = [] \<or> or_empty (q_tweetId req) = [] \<or>
              q_correctAnswers req = None
        then (st, Response 400 (error_body ''Missing triviaId, tweetId, or answers.''))
      else
        let triviaId = or_empty (q_triviaId req);
            tweetId = or_empty (q_tweetId req);
            normalizedAnswers = filter (\<lambda>a. a \<noteq> [])
              (map (normalizeAnswer B) (case q_correctAnswers req of None \<Rightarrow> [] | Some xs \<Rightarrow> xs))
        in if normalizedAnswers = []
             then (st, Response 400 (error_body ''No valid answers provided.''))
           else if getTrivia (store st) triviaId \<noteq> None
             then (st, Response 409 (error_body ''Trivia already exists.''))
           else
             let createdAt = tnow;
                 windowMinutesFinal = number_or (q_windowMinutes req) TRIVIA_WINDOW_MINUTES_DEFAULT;
                 rewardFinal = number_or (q_rewardRmz req) REWARD_RMZ_DEFAULT;
                 closesAt = createdAt + windowMinutesFinal * 60 * 1000
             in case createTrivia (store st) triviaId tweetId normalizedAnswers windowMinutesFinal
                       rewardFinal createdAt closesAt of
                  Inl e \<Rightarrow> (st, uncaught)
                | Inr db \<Rightarrow>
                    (st\<lparr>store := db\<rparr>,
                     Response 200 (JObj [(''triviaId'', JStr triviaId), (''tweetId'', JStr tweetId),
                       (''windowMinutes'', JNum windowMinutesFinal),
                       (''rewardRmz'', JNum rewardFinal), (''closesAt'', JNum closesAt)])))"

subsection \<open>\<^verbatim>\<open>POST /api/trivia/close\<close>\<close>

record close_request = request +
  k_triviaId :: "jsstring option"

text \<open>
  What the route observes outside the process: whether the agent runtime and its
  Twitter client exist, the tweets of the search (\<open>None\<close> when the search throws), the
  clock, the block height of the chain oracle (\<open>None\<close> when it throws), and the
  sixteen random bytes of the claim code.
\<close>

record close_world =
  w_runtime :: bool
  w_twitterManager :: bool
  w_tweets :: "json list option"
  w_now :: int
  w_clock :: "nat \<Rightarrow> int"
  w_blockHeight :: "int option"
  w_randomBytes :: "byte list"
  w_expiry_now :: int

fun join_comma :: "jsstring list \<Rightarrow> jsstring" where
  "join_comma [] = []"
| "join_comma [x] = x"
| "join_comma (x # y # ys) = x @ js '','' @ join_comma (y # ys)"

text \<open>
  The keys of \<^verbatim>\<open>uniqueCorrect\<close> sorted by \<^verbatim>\<open>Array.prototype.sort\<close>: the distinct
  author ids in the order of their UTF-16 code units.
\<close>

definition participantIds_of :: "TriviaReplyRecord list \<Rightarrow> jsstring list" where
  "participantIds_of correctReplies = sort (remdups (map r_twitter_user_id correctReplies))"

definition selection_seed :: "jsstring \<Rightarrow> jsstring \<Rightarrow> jsstring \<Rightarrow> jsstring list \<Rightarrow> jsstring" where
  "selection_seed salt triviaId tweetId participantIds =
     salt @ js '':'' @ triviaId @ js '':'' @ tweetId @ js '':'' @ join_comma participantIds"

definition close_failed :: response where
  "close_failed = Response 500 (error_body ''Failed to close trivia.'')"

definition close_route ::
  "'a js_builtins_scheme \<Rightarrow> 'b environment_scheme \<Rightarrow> close_world \<Rightarrow> server \<Rightarrow> close_request
     \<Rightarrow> server \<times> response" where
  "close_route B env w st req =
     (if \<not> fst (requireAdmin env req) then (st, unauthorized)
      else if or_empty (k_triviaId req) = []
        then (st, Response 400 (error_body ''Missing triviaId.''))
      else
        case getTrivia (store st) (or_empty (k_triviaId req)) of
          None \<Rightarrow> (st, Response 404 (error_body ''Trivia not found.''))
        | Some trivia \<Rightarrow>
            if status trivia = Closed
              then (st, Response 409 (error_body ''Trivia already closed.''))
            else if w_now w < closes_at trivia
              then (st, Response 400 (error_body ''Trivia window still open.''))
            else if \<not> w_runtime w
              then (st, Response 500 (error_body ''Runtime not available.''))
            else if \<not> w_twitterManager w
              then (st, Response 500 (error_body ''Twitter client not available.''))
            else
              case w_tweets w of
                None \<Rightarrow> (st, close_failed)
              | Some rawTweets \<Rightarrow>
                  let replies = collectReplies B rawTweets (tweet_id trivia) (trivia_id trivia)
                                  (correct_answers trivia) (created_at trivia) (closes_at trivia)
                                  (w_clock w);
                      db1 = addReplies (store st) replies;
                      st1 = st\<lparr>store := db1\<rparr>;
                      correctReplies = listCorrectReplies db1 (trivia_id trivia);
                      participantIds = participantIds_of correctReplies
                  in if or_empty (TRIVIA_SALT env) = []
                       then (st1, Response 500 (error_body ''TRIVIA_SALT not configured.''))
                     else
                       case w_blockHeight w of
                         None \<Rightarrow> (st1, close_failed)
                       | Some blockHeight \<Rightarrow>
                           let seed' = selection_seed (or_empty (TRIVIA_SALT env))
                                         (trivia_id trivia) (tweet_id trivia) participantIds
                           in if participantIds = [] then
                                (st1\<lparr>store := closeTrivia db1 (trivia_id trivia) blockHeight seed'
                                                  None None None None\<rparr>,
                                 Response 200 (JObj [(''triviaId'', JStr (trivia_id trivia)),
                                   (''seed'', JStr seed'),
                                   (''status'', JStr (js ''no_correct_answers'')),
                                   (''winner'', JNull)]))
                              else
                                case deterministicPick seed'
                                       (Finite (of_nat (length participantIds))) of
                                  None \<Rightarrow> (st1, close_failed)
                                | Some winnerIndex \<Rightarrow>
                                    case (case array_at participantIds winnerIndex of
                                            None \<Rightarrow> None
                                          | Some winnerId \<Rightarrow>
                                              find (\<lambda>r. r_twitter_user_id r = winnerId)
                                                correctReplies) of
                                      None \<Rightarrow>
                                        (st1, Response 500 (error_body ''Failed to pick winner.''))
                                    | Some winner \<Rightarrow>
                                        let claimCode = to_hex (w_randomBytes w);
                                            claimExpiresAt = w_expiry_now w + CLAIM_TTL_MS
                                        in (st1\<lparr>store := closeTrivia db1 (trivia_id trivia)
                                                  blockHeight seed'
                                                  (Some (r_twitter_user_id winner))
                                                  (Some (r_tweet_id winner))
                                                  (Some claimCode) (Some claimExpiresAt)\<rparr>,
                                            Response 200 (JObj
                                              [(''triviaId'', JStr (trivia_id trivia)),
                                               (''seed'', JStr seed'),
                                               (''winner'', JObj
                                                  [(''twitterUserId'', JStr (r_twitter_user_id winner)),
                                                   (''tweetId'', JStr (r_tweet_id winner))]),
                                               (''claimCode'', JStr claimCode),
                                               (''claimExpiresAt'', JNum claimExpiresAt)])))"

subsection \<open>\<^verbatim>\<open>POST /api/claim\<close>\<close>

record claim_request = request +
  c_claimCode :: "jsstring option"
  c_address :: "jsstring option"

text \<open>
  The readings of the clock, in the order of the source (the rate limit by address, the
  handler's \<^verbatim>\<open>now\<close>, \<^verbatim>\<open>clearClaimAttemptLock\<close>, the rate limit by user,
  \<^verbatim>\<open>sendRmz\<close>), and the answer of the chain oracle \<^verbatim>\<open>ownsToken\<close>, which catches its
  own errors.
\<close>

record claim_world =
  t_ip :: int
  t_now :: int
  t_clear :: int
  t_user :: int
  t_send :: int
  g_ownsToken :: bool

definition rate_limited :: response where
  "rate_limited = Response 429 (error_body ''rate_limited'')"

text \<open>\<^verbatim>\<open>lock && now < Number(lock)\<close>, a truthiness test like \<open>lock_expired\<close>.\<close>

definition lock_active :: "int option \<Rightarrow> int \<Rightarrow> bool" where
  "lock_active lock tnow = (case lock of None \<Rightarrow> False | Some l \<Rightarrow> l \<noteq> 0 \<and> tnow < l)"

definition truthy_time :: "int option \<Rightarrow> bool" where
  "truthy_time t = (case t of None \<Rightarrow> False | Some n \<Rightarrow> n \<noteq> 0)"

definition already_paid :: "TriviaRecord \<Rightarrow> response" where
  "already_paid claim =
     Response 200 (JObj [(''triviaId'', JStr (trivia_id claim)),
       (''txid'', (case txid claim of None \<Rightarrow> JNull | Some t \<Rightarrow> JStr t)),
       (''status'', JStr (js ''already_paid''))])"

text \<open>
  The three places that record a round-scoped invalid attempt and answer 429 when the
  lock is on, and the given error otherwise.
\<close>

definition invalid_attempt :: "server \<Rightarrow> TriviaRecord \<Rightarrow> int \<Rightarrow> response \<Rightarrow> server \<times> response" where
  "invalid_attempt st claim tnow resp =
     (case recordInvalidAttempt (store st) (trivia_id claim) tnow 3 CLAIM_LOCK_MS of
        (db, lock) \<Rightarrow>
          (st\<lparr>store := db\<rparr>,
           if lock_active (lockExpiresAt lock) tnow then rate_limited else resp))"

text \<open>
  The handler up to and including the token gate. \<open>Inl\<close> is a response sent, \<open>Inr\<close>
  the state, the round and the address with which the handler goes on to the caps.
\<close>

definition claim_gate ::
  "'a js_builtins_scheme \<Rightarrow> 'b environment_scheme \<Rightarrow> claim_world \<Rightarrow> server \<Rightarrow> claim_request
     \<Rightarrow> (server \<times> response) + (server \<times> TriviaRecord \<times> jsstring)" where
  "claim_gate B env w st req =
     (let claimRateLimit = env_number B (CLAIM_RATE_LIMIT_PER_MINUTE env) 10;
          requestIp = getRequestIp req
      in case allowRateLimit st (js ''ip:'' @ requestIp) claimRateLimit (t_ip w) of
        (st0, allowed) \<Rightarrow>
          if \<not> allowed then Inl (st0, rate_limited)
          else if or_empty (c_claimCode req) = [] \<or> or_empty (c_address req) = []
            then Inl (st0, Response 400 (error_body ''Missing claimCode or address.''))
          else
            let claimCode = or_empty (c_claimCode req);
                address = or_empty (c_address req);
                tnow = t_now w;
                code_lock = (case getClaimAttemptByCode (store st0) claimCode of
                               None \<Rightarrow> None | Some a \<Rightarrow> a_lock_expires_at a)
            in if lock_active code_lock tnow then Inl (st0, rate_limited)
               else
                 let st1 = (if lock_expired code_lock tnow
                            then st0\<lparr>store := clearClaimAttemptLock (store st0) claimCode (t_clear w)\<rparr>
                            else st0)
                 in case getClaimByCode (store st1) claimCode of
                      None \<Rightarrow>
                        (case recordInvalidClaimCodeAttempt (store st1) claimCode tnow 3 CLAIM_LOCK_MS of
                           (db, lock) \<Rightarrow>
                             Inl (st1\<lparr>store := db\<rparr>,
                                  if lock_active (lockExpiresAt lock) tnow then rate_limited
                                  else Response 404 (error_body ''Claim code not found.'')))
                    | Some claim \<Rightarrow>
                        if lock_active (lock_expires_at claim) tnow then Inl (st1, rate_limited)
                        else
                          let st2 = (if lock_expired (lock_expires_at claim) tnow
                                     then st1\<lparr>store := clearClaimLock (store st1) (trivia_id claim)\<rparr>
                                     else st1)
                          in case (if or_empty (winner_twitter_user_id claim) \<noteq> []
                                   then allowRateLimit st2
                                          (js ''user:'' @ or_empty (winner_twitter_user_id claim))
                                          claimRateLimit (t_user w)
                                   else (st2, True)) of
                               (st3, allowed_user) \<Rightarrow>
                                 if \<not> allowed_user then Inl (st3, rate_limited)
                                 else if truthy_time (used_at claim) then Inl (st3, already_paid claim)
                                 else if \<not> isValidEcashAddress address
                                   then Inl (invalid_attempt st3 claim tnow
                                               (Response 400 (error_body ''invalid_address'')))
                                 else if (case claim_expires_at claim of
                                            None \<Rightarrow> False | Some e \<Rightarrow> e \<noteq> 0 \<and> tnow > e)
                                   then Inl (invalid_attempt st3 claim tnow
                                               (Response 410 (error_body ''Claim expired.'')))
                                 else if or_empty (winner_twitter_user_id claim) = []
                                   then Inl (st3, Response 400 (error_body ''Claim not eligible.''))
                                 else if or_empty (RMZSTATE_TOKEN_ID env) = []
                                   then Inl (st3, Response 500
                                               (error_body ''RMZSTATE_TOKEN_ID not configured.''))
                                 else if \<not> g_ownsToken w
                                   then Inl (invalid_attempt st3 claim tnow
                                               (Response 403 (error_body ''not_eligible'')))
                                 else Inr (st3, claim, address))"

text \<open>The three capacity checks of the handler, on the state that reaches them.\<close>

definition cap_breached ::
  "'a js_builtins_scheme \<Rightarrow> 'b environment_scheme \<Rightarrow> database \<Rightarrow> TriviaRecord \<Rightarrow> jsstring \<Rightarrow> int \<Rightarrow> bool" where
  "cap_breached B env db claim address tnow \<longleftrightarrow>
     num_gt (getDailySpend db (toDayKey tnow) + reward_rmz claim)
       (env_number B (DAILY_CAP_RMZ env) 50) \<or>
     num_ge (countWinsForUser db (toDayKey tnow) (or_empty (winner_twitter_user_id claim)))
       (env_number B (MAX_WIN_PER_USER_PER_DAY env) 1) \<or>
     num_gt (sumAddressSpend db (toDayKey tnow) address + reward_rmz claim)
       (env_number B (MAX_RMZ_PER_USER_PER_DAY env) 3)"

text \<open>The rest of the handler: the caps, the payment and the settlement.\<close>

definition claim_payout ::
  "'a js_builtins_scheme \<Rightarrow> 'b environment_scheme \<Rightarrow> claim_world \<Rightarrow> server \<Rightarrow> TriviaRecord
     \<Rightarrow> jsstring \<Rightarrow> server \<times> response" where
  "claim_payout B env w st claim address =
     (let rewardRmz = reward_rmz claim;
          tnow = t_now w;
          dayKey = toDayKey tnow;
          dailyCap = env_number B (DAILY_CAP_RMZ env) 50;
          maxWinPerUser = env_number B (MAX_WIN_PER_USER_PER_DAY env) 1;
          maxRmzPerAddress = env_number B (MAX_RMZ_PER_USER_PER_DAY env) 3;
          winner = or_empty (winner_twitter_user_id claim)
      in if num_gt (getDailySpend (store st) dayKey + rewardRmz) dailyCap then (st, rate_limited)
         else if num_ge (countWinsForUser (store st) dayKey winner) maxWinPerUser
           then (st, rate_limited)
         else if num_gt (sumAddressSpend (store st) dayKey address + rewardRmz) maxRmzPerAddress
           then (st, rate_limited)
         else if or_empty (RMZ_TOKEN_ID env) = []
           then (st, Response 500 (error_body ''RMZ_TOKEN_ID not configured.''))
         else
           let params = \<lparr> toAddress = address, amountRmz = rewardRmz,
                          tokenId = or_empty (RMZ_TOKEN_ID env),
                          mnemonic = REWARD_WALLET_MNEMONIC env, wif = REWARD_WALLET_WIF env \<rparr>;
               st' = st\<lparr>sendRmz_calls := sendRmz_calls st @ [params]\<rparr>
           in case sendRmz B env (t_send w) params of
                Inl e \<Rightarrow> (st', Response 501 (error_body ''payout_not_implemented''))
              | Inr sent_txid \<Rightarrow>
                  (st'\<lparr>store := fst (recordClaimAndPayout (store st') (trivia_id claim) tnow address
                                        sent_txid winner rewardRmz dayKey)\<rparr>,
                   Response 200 (JObj [(''triviaId'', JStr (trivia_id claim)),
                     (''txid'', JStr sent_txid), (''rewardRmz'', JNum rewardRmz)])))"

definition claim_route ::
  "'a js_builtins_scheme \<Rightarrow> 'b environment_scheme \<Rightarrow> claim_world \<Rightarrow> server \<Rightarrow> claim_request
     \<Rightarrow> server \<times> response" where
  "claim_route B env w st req =
     (case claim_gate B env w st req of
        Inl sent \<Rightarrow> sent
      | Inr (st', claim, address) \<Rightarrow> claim_payout B env w st' claim address)"

text \<open>
  The stores that differ from \<open>db\<close> at most by an expired lockout that was cleared: on the
  counter of the claim code, on the round, or on both.
\<close>

definition cleared_variants :: "database \<Rightarrow> jsstring \<Rightarrow> int \<Rightarrow> jsstring \<Rightarrow> database list" where
  "cleared_variants db claimCode t triviaId =
     [db, clearClaimAttemptLock db claimCode t, clearClaimLock db triviaId,
      clearClaimLock (clearClaimAttemptLock db claimCode t) triviaId]"

text \<open>
  No invalid attempt was recorded between two stores: every counter, of a round or of
  a claim code, is what it was or has been reset to 0.
\<close>

definition no_attempt_recorded :: "database \<Rightarrow> database \<Rightarrow> bool" where
  "no_attempt_recorded db db' \<longleftrightarrow>
     list_all2 (\<lambda>r r'. trivia_id r' = trivia_id r \<and>
                  (invalid_attempts r' = invalid_attempts r \<or> invalid_attempts r' = 0))
       (trivia_rewards db) (trivia_rewards db') \<and>
     (\<forall>c. case trivia_claim_attempts db' c of
            None \<Rightarrow> trivia_claim_attempts db c = None
          | Some a' \<Rightarrow> (\<exists>a. trivia_claim_attempts db c = Some a \<and>
                (a_invalid_attempts a' = a_invalid_attempts a \<or> a_invalid_attempts a' = 0)))"


section \<open>Sample states\<close>

text \<open>A store with one closed round awaiting its claim, and the same round locked out.\<close>

definition sample_round :: TriviaRecord where
  "sample_round =
     \<lparr> trivia_id = js ''t1'', tweet_id = js ''100'', correct_answers = [js ''paris''],
       window_minutes = 10, reward_rmz = 3, created_at = 1000, closes_at = 601000,
       status = Closed, block_height = Some 800000, seed = Some (js ''s:t1:100:u1''),
       winner_twitter_user_id = Some (js ''u1''), winner_tweet_id = Some (js ''101''),
       claim_code = Some (js ''c0de''), claim_expires_at = Some 4300000, used_at = None,
       used_address = None, txid = None, invalid_attempts = 0, lock_expires_at = None \<rparr>"

definition sample_db :: database where
  "sample_db = empty_db\<lparr>trivia_rewards := [sample_round]\<rparr>"

definition locked_db :: database where
  "locked_db =
     empty_db\<lparr>trivia_rewards := [sample_round\<lparr>invalid_attempts := 3,
                                               lock_expires_at := Some 1600000\<rparr>]\<rparr>"

text \<open>
  Raw replies: a direct reply in the window, a reply that carries its author but not
  its own id, and a reply dated at the epoch.
\<close>

definition raw_paris :: json where
  "raw_paris = JObj [(''id'', JStr (js ''101'')), (''text'', JStr (js ''Paris!!'')),
     (''userId'', JStr (js ''u1'')), (''username'', JStr (js ''alice'')),
     (''inReplyToStatusId'', JStr (js ''100'')), (''timestamp'', JNum 500)]"

definition raw_no_id :: json where
  "raw_no_id = JObj [(''text'', JStr (js ''paris'')), (''userId'', JStr (js ''u2''))]"

definition raw_epoch :: json where
  "raw_epoch = JObj [(''id'', JStr (js ''103'')), (''text'', JStr (js ''paris'')),
     (''userId'', JStr (js ''u3'')), (''timestamp'', JNum 0)]"

text \<open>An environment with the admin token and the salt set, and two admin requests.\<close>

definition sample_env :: environment where
  "sample_env =
     \<lparr> TRIVIA_ADMIN_TOKEN = Some (js ''s3cret''), TRIVIA_SALT = Some (js ''salt''),
       RMZSTATE_TOKEN_ID = Some (js ''aa''), RMZ_TOKEN_ID = Some (js ''bb''),
       CLAIM_RATE_LIMIT_PER_MINUTE = None, DAILY_CAP_RMZ = None,
       MAX_WIN_PER_USER_PER_DAY = None, MAX_RMZ_PER_USER_PER_DAY = None,
       REWARD_DRY_RUN = Some (js ''true''), REWARD_WALLET_MNEMONIC = None,
       REWARD_WALLET_WIF = None \<rparr>"

definition request_with :: "json \<Rightarrow> request" where
  "request_with auth =
     \<lparr> authorization = auth, Authorization = JUndefined, x_forwarded_for = JUndefined,
       ip = Some (js ''10.0.0.1'') \<rparr>"

definition sample_server :: server where
  "sample_server = \<lparr> store = sample_db, rateLimitBuckets = Map.empty, sendRmz_calls = [] \<rparr>"

definition create_req_noauth :: create_request where
  "create_req_noauth =
     \<lparr> authorization = JUndefined, Authorization = JUndefined, x_forwarded_for = JUndefined,
       ip = Some (js ''10.0.0.1''), q_triviaId = Some (js ''t2''), q_tweetId = Some (js ''200''),
       q_correctAnswers = Some [js ''rome''], q_windowMinutes = None, q_rewardRmz = None \<rparr>"

definition close_req_guess :: close_request where
  "close_req_guess =
     \<lparr> authorization = JStr (js ''bearer  guess''), Authorization = JUndefined,
       x_forwarded_for = JUndefined, ip = Some (js ''10.0.0.1''), k_triviaId = Some (js ''t1'') \<rparr>"

definition close_req_admin :: close_request where
  "close_req_admin =
     \<lparr> authorization = JStr (js ''Bearer s3cret''), Authorization = JUndefined,
       x_forwarded_for = JUndefined, ip = Some (js ''10.0.0.1''), k_triviaId = Some (js ''t1'') \<rparr>"

definition sample_world :: close_world where
  "sample_world =
     \<lparr> w_runtime = True, w_twitterManager = True, w_tweets = Some [raw_paris, raw_no_id],
       w_now = 700000, w_clock = (\<lambda>i. 700001), w_blockHeight = Some 800000,
       w_randomBytes = [0xC0, 0xDE, 1, 2, 3, 4, 5, 6, 7, 8, 9, 10, 11, 12, 13, 14],
       w_expiry_now = 700002 \<rparr>"

text \<open>
  A close with several repliers: the winner of the sample round, two replies of a
  second author in the wrong order of time, a wrong answer, a reply without id and a
  reply dated at the epoch.
\<close>

definition raw_late :: json where
  "raw_late = JObj [(''id'', JStr (js ''109'')), (''text'', JStr (js '' PARIS'')),
     (''userId'', JStr (js ''u8'')), (''inReplyToStatusId'', JStr (js ''100'')),
     (''timestamp'', JNum 450)]"

definition raw_early :: json where
  "raw_early = JObj [(''id'', JStr (js ''108'')), (''text'', JStr (js ''paris.'')),
     (''userId'', JStr (js ''u8'')), (''inReplyToStatusId'', JStr (js ''100'')),
     (''timestamp'', JNum 400)]"

definition raw_london :: json where
  "raw_london = JObj [(''id'', JStr (js ''105'')), (''text'', JStr (js ''London'')),
     (''userId'', JStr (js ''u4'')), (''inReplyToStatusId'', JStr (js ''100'')),
     (''timestamp'', JNum 420)]"

definition crowd_world :: close_world where
  "crowd_world =
     sample_world\<lparr> w_tweets :=
       Some [raw_late, raw_paris, raw_london, raw_no_id, raw_epoch, raw_early] \<rparr>"

text \<open>The sample round while it is still open, after its window.\<close>

definition open_round :: TriviaRecord where
  "open_round =
     sample_round\<lparr> status := Open, block_height := None, seed := None,
       winner_twitter_user_id := None, winner_tweet_id := None, claim_code := None,
       claim_expires_at := None \<rparr>"

definition open_server :: server where
  "open_server =
     \<lparr> store = empty_db\<lparr>trivia_rewards := [open_round]\<rparr>, rateLimitBuckets = Map.empty,
       sendRmz_calls = [] \<rparr>"

text \<open>
  A claim for the sample round, the same round after its settlement, a server whose
  daily total has reached the default cap of 50, and a server on which the winner has
  used up the rate limit of the minute.
\<close>

definition claim_req :: claim_request where
  "claim_req =
     \<lparr> authorization = JUndefined, Authorization = JUndefined, x_forwarded_for = JUndefined,
       ip = Some (js ''10.0.0.1''), c_claimCode = Some (js ''c0de''),
       c_address = Some (js ''ecash:qq0000000000'') \<rparr>"

definition claim_w :: claim_world where
  "claim_w = \<lparr> t_ip = 700100, t_now = 700101, t_clear = 700102, t_user = 700103,
               t_send = 700104, g_ownsToken = True \<rparr>"

definition used_round :: TriviaRecord where
  "used_round =
     sample_round\<lparr> used_at := Some 690000, used_address := Some (js ''ecash:qq0000000000''),
       txid := Some (js ''dryrun_0123456789abcdef'') \<rparr>"

definition used_server :: server where
  "used_server =
     \<lparr> store = empty_db\<lparr>trivia_rewards := [used_round]\<rparr>, rateLimitBuckets = Map.empty,
       sendRmz_calls = [] \<rparr>"

definition busy_server :: server where
  "busy_server =
     \<lparr> store = empty_db\<lparr>trivia_rewards := [used_round]\<rparr>,
       rateLimitBuckets = [js ''user:u1'' \<mapsto> \<lparr> bucket_count = 10, bucket_resetAt = 750000 \<rparr>],
       sendRmz_calls = [] \<rparr>"

definition capped_server :: server where
  "capped_server =
     \<lparr> store = sample_db\<lparr>daily_spend := [toDayKey 700101 \<mapsto> 50]\<rparr>,
       rateLimitBuckets = Map.empty, sendRmz_calls = [] \<rparr>"


section \<open>Properties of the answer normalizer\<close>

lemma alnum_not_mark: "is_lower_alnum c \<Longrightarrow> \<not> is_combining_mark c"
  unfolding is_lower_alnum_def is_combining_mark_def by unat_arith

lemma alnum_not_space: "is_lower_alnum c \<Longrightarrow> \<not> is_space c"
  unfolding is_lower_alnum_def is_space_def by unat_arith

lemma space_is_space: "is_space 0x20" by (simp add: is_space_def)
lemma space_not_mark: "\<not> is_combining_mark 0x20" by (simp add: is_combining_mark_def)

lemma plain_strip_marks: "plain s \<Longrightarrow> strip_marks s = s"
  by (induction s) (auto simp: plain_def strip_marks_def alnum_not_mark space_not_mark)

lemma plain_blank_other: "plain s \<Longrightarrow> blank_other s = s"
  by (induction s) (auto simp: plain_def blank_other_def)

lemma blank_other_class: "c \<in> set (blank_other s) \<Longrightarrow> is_lower_alnum c \<or> is_space c"
  by (auto simp: blank_other_def space_is_space split: if_splits)

lemma collapse_ws_class:
  "\<forall>c \<in> set s. is_lower_alnum c \<or> is_space c \<Longrightarrow>
   \<forall>c \<in> set (collapse_ws s). is_lower_alnum c \<or> c = 0x20"
proof (induction s rule: collapse_ws.induct)
  case 1
  then show ?case by simp
next
  case (2 c cs)
  show ?case
  proof (cases "is_space c")
    case True
    have "\<forall>x \<in> set (dropWhile is_space cs). is_lower_alnum x \<or> is_space x"
      using "2.prems" by (auto dest: set_dropWhileD)
    with True "2.IH"(1) show ?thesis by simp
  next
    case False
    with "2.IH"(2) "2.prems" show ?thesis by auto
  qed
qed

lemma collapse_ws_hd:
  "s \<noteq> [] \<Longrightarrow> \<not> is_space (hd s) \<Longrightarrow> collapse_ws s \<noteq> [] \<and> hd (collapse_ws s) = hd s"
  by (cases s) auto

lemma dropWhile_hd_not: "dropWhile P xs \<noteq> [] \<Longrightarrow> \<not> P (hd (dropWhile P xs))"
  by (simp add: hd_dropWhile)

lemma no_adj_space_Cons:
  "no_adj_space (a # s) \<longleftrightarrow> (s = [] \<or> (\<not> (is_space a \<and> is_space (hd s)) \<and> no_adj_space s))"
  by (cases s) auto

lemma collapse_ws_no_adj: "no_adj_space (collapse_ws s)"
proof (induction s rule: collapse_ws.induct)
  case 1
  then show ?case by simp
next
  case (2 c cs)
  show ?case
  proof (cases "is_space c")
    case True
    let ?d = "dropWhile is_space cs"
    have ih: "no_adj_space (collapse_ws ?d)" using True "2.IH"(1) by simp
    show ?thesis
    proof (cases "?d = []")
      case True
      then have "collapse_ws ?d = []" by (simp del: dropWhile_eq_Nil_conv)
      with \<open>is_space c\<close> show ?thesis by (simp del: dropWhile_eq_Nil_conv)
    next
      case False
      then have "\<not> is_space (hd ?d)" by (rule dropWhile_hd_not)
      with False have "collapse_ws ?d \<noteq> [] \<and> hd (collapse_ws ?d) = hd ?d"
        by (simp add: collapse_ws_hd)
      with \<open>\<not> is_space (hd ?d)\<close> ih \<open>is_space c\<close> show ?thesis
        by (simp add: no_adj_space_Cons)
    qed
  next
    case False
    with "2.IH"(2) show ?thesis by (simp add: no_adj_space_Cons)
  qed
qed

lemma no_adj_space_dropWhile: "no_adj_space s \<Longrightarrow> no_adj_space (dropWhile P s)"
  by (induction s rule: no_adj_space.induct) auto

lemma trim_end_hd: "trim_end s \<noteq> [] \<Longrightarrow> hd (trim_end s) = hd s"
  by (cases s) (auto simp: Let_def split: if_splits)

lemma trim_end_subset: "set (trim_end s) \<subseteq> set s"
  by (induction s) (auto simp: Let_def)

lemma trim_end_no_adj: "no_adj_space s \<Longrightarrow> no_adj_space (trim_end s)"
proof (induction s)
  case Nil
  then show ?case by simp
next
  case (Cons c cs)
  then have ih: "no_adj_space (trim_end cs)" by (cases cs) auto
  show ?case
  proof (cases "trim_end cs = []")
    case True
    then show ?thesis by (simp add: Let_def)
  next
    case False
    then have "cs \<noteq> []" by auto
    with Cons.prems have "\<not> (is_space c \<and> is_space (hd cs))" by (cases cs) auto
    with False ih show ?thesis by (simp add: Let_def no_adj_space_Cons trim_end_hd)
  qed
qed

lemma trim_end_last: "trim_end s \<noteq> [] \<Longrightarrow> \<not> is_space (last (trim_end s))"
  by (induction s) (auto simp: Let_def split: if_splits)

lemma trim_end_fix: "s = [] \<or> \<not> is_space (last s) \<Longrightarrow> trim_end s = s"
  by (induction s) (auto simp: Let_def split: if_splits)

lemma trim_tidy_parts:
  assumes "\<forall>c \<in> set s. is_lower_alnum c \<or> c = 0x20" "no_adj_space s"
  shows "tidy (trim s)"
proof -
  let ?d = "dropWhile is_space s"
  have p: "plain (trim s)"
    using assms(1) trim_end_subset [of ?d] set_dropWhileD [of _ is_space s]
    unfolding plain_def trim_def by blast
  have n: "no_adj_space (trim s)"
    unfolding trim_def by (intro trim_end_no_adj no_adj_space_dropWhile assms(2))
  have e: "trim s \<noteq> [] \<longrightarrow> \<not> is_space (hd (trim s)) \<and> \<not> is_space (last (trim s))"
  proof
    assume ne: "trim s \<noteq> []"
    then have "trim_end ?d \<noteq> []" by (simp add: trim_def)
    then have "?d \<noteq> []" by (metis trim_end.simps(1))
    then have "\<not> is_space (hd ?d)" by (rule dropWhile_hd_not)
    with ne show "\<not> is_space (hd (trim s)) \<and> \<not> is_space (last (trim s))"
      unfolding trim_def by (simp add: trim_end_hd trim_end_last)
  qed
  from p n e show ?thesis unfolding tidy_def by simp
qed

lemma normalizeAnswer_tidy: "tidy (normalizeAnswer B x)"
  unfolding normalizeAnswer_def
  by (intro trim_tidy_parts collapse_ws_class collapse_ws_no_adj ballI blank_other_class)

lemma collapse_ws_fix: "plain s \<Longrightarrow> no_adj_space s \<Longrightarrow> collapse_ws s = s"
proof (induction s rule: collapse_ws.induct)
  case 1
  then show ?case by simp
next
  case (2 c cs)
  have pc: "plain cs" using "2.prems"(1) by (simp add: plain_def)
  have nc: "no_adj_space cs" using "2.prems"(2) by (cases cs) auto
  show ?case
  proof (cases "is_space c")
    case True
    then have c: "c = 0x20" using "2.prems"(1) alnum_not_space by (auto simp: plain_def)
    have "cs = [] \<or> \<not> is_space (hd cs)" using True "2.prems"(2) by (cases cs) auto
    then have d: "dropWhile is_space cs = cs" by (cases cs) auto
    with True "2.IH"(1) pc nc c show ?thesis by simp
  next
    case False
    with "2.IH"(2) pc nc show ?thesis by simp
  qed
qed

lemma trim_fix: "tidy s \<Longrightarrow> trim s = s"
proof -
  assume t: "tidy s"
  then have "dropWhile is_space s = s" by (cases s) (auto simp: tidy_def)
  moreover have "s = [] \<or> \<not> is_space (last s)" using t by (auto simp: tidy_def)
  ultimately show ?thesis by (simp add: trim_def trim_end_fix)
qed

lemma normalizeAnswer_fix:
  assumes "tidy s" "toLowerCase B s = s" "normalizeNFKD B s = s"
  shows "normalizeAnswer B s = s"
  using assms
  by (simp add: normalizeAnswer_def tidy_def plain_strip_marks plain_blank_other
      collapse_ws_fix trim_fix)

lemma latin1_lower_plain: "is_lower_alnum c \<or> c = 0x20 \<Longrightarrow> latin1_lower c = c"
  unfolding is_lower_alnum_def latin1_lower_def by (simp; unat_arith)

lemma latin1_decompose_plain: "is_lower_alnum c \<or> c = 0x20 \<Longrightarrow> latin1_decompose c = [c]"
proof -
  assume "is_lower_alnum c \<or> c = 0x20"
  then have "c \<le> 0x7A" unfolding is_lower_alnum_def by unat_arith
  then have "c < 0xE0" by unat_arith
  then show ?thesis unfolding latin1_decompose_def by auto
qed

lemma latin1_builtins_plain:
  "plain s \<Longrightarrow> toLowerCase latin1_builtins s = s \<and> normalizeNFKD latin1_builtins s = s"
  by (induction s)
     (simp_all add: plain_def latin1_builtins_def latin1_lower_plain latin1_decompose_plain)

lemma normalizeAnswer_cong:
  "filter (\<lambda>c. \<not> (0x0300 \<le> c \<and> c \<le> 0x036F)) (normalizeNFKD B (toLowerCase B y)) =
   filter (\<lambda>c. \<not> (0x0300 \<le> c \<and> c \<le> 0x036F)) (normalizeNFKD B (toLowerCase B z)) \<Longrightarrow>
   normalizeAnswer B y = normalizeAnswer B z"
  by (simp add: normalizeAnswer_def strip_marks_def is_combining_mark_def)

text \<open>
  Claim C3. The normalizer is a total function of its input string, and normalising twice
  gives the same string as normalising once. It does not tell apart two strings with
  the same lower-case form, nor two strings whose lower-case forms decompose to
  strings that differ only in the combining marks U+0300 to U+036F. In particular
  "Caf\<^verbatim>\<open>U+00E9\<close>!" has the normal form of "cafe", and "R\<^verbatim>\<open>U+00E9\<close>sum\<^verbatim>\<open>U+00E9\<close>", with a
  mark inside the word, that of "resume". \<^verbatim>\<open>toLowerCase\<close> and \<^verbatim>\<open>normalize("NFKD")\<close>
  are parameters: the result holds for every pair of functions that leave lower-case
  ASCII letters, digits and spaces alone, lower-case the letters C and R and decompose
  U+00E9 into e followed by U+0301, as the built-in functions do.
\<close>

theorem normalizeAnswer_idempotent:
  assumes ascii: "\<forall>s. plain s \<longrightarrow> toLowerCase B s = s \<and> normalizeNFKD B s = s"
    and lower: "toLowerCase B (js ''Caf'' @ [0xE9] @ js ''!'') = js ''caf'' @ [0xE9] @ js ''!''"
    and decomp: "normalizeNFKD B (js ''caf'' @ [0xE9] @ js ''!'') = js ''cafe'' @ [0x0301] @ js ''!''"
    and lower': "toLowerCase B (js ''R'' @ [0xE9] @ js ''sum'' @ [0xE9]) =
                   js ''r'' @ [0xE9] @ js ''sum'' @ [0xE9]"
    and decomp': "normalizeNFKD B (js ''r'' @ [0xE9] @ js ''sum'' @ [0xE9]) =
                    js ''re'' @ [0x0301] @ js ''sume'' @ [0x0301]"
  shows "normalizeAnswer B (normalizeAnswer B x) = normalizeAnswer B x \<and>
         (toLowerCase B y = toLowerCase B z \<longrightarrow> normalizeAnswer B y = normalizeAnswer B z) \<and>
         (filter (\<lambda>c. \<not> (0x0300 \<le> c \<and> c \<le> 0x036F)) (normalizeNFKD B (toLowerCase B y)) =
          filter (\<lambda>c. \<not> (0x0300 \<le> c \<and> c \<le> 0x036F)) (normalizeNFKD B (toLowerCase B z)) \<longrightarrow>
            normalizeAnswer B y = normalizeAnswer B z) \<and>
         normalizeAnswer B (js ''Caf'' @ [0xE9] @ js ''!'') = normalizeAnswer B (js ''cafe'') \<and>
         normalizeAnswer B (js ''cafe'') = js ''cafe'' \<and>
         normalizeAnswer B (js ''R'' @ [0xE9] @ js ''sum'' @ [0xE9]) =
           normalizeAnswer B (js ''resume'') \<and>
         normalizeAnswer B (js ''resume'') = js ''resume''"
proof (intro conjI impI)
  have t: "tidy (normalizeAnswer B x)" by (rule normalizeAnswer_tidy)
  then have "plain (normalizeAnswer B x)" by (simp add: tidy_def)
  with ascii t show "normalizeAnswer B (normalizeAnswer B x) = normalizeAnswer B x"
    by (simp add: normalizeAnswer_fix)
next
  assume "toLowerCase B y = toLowerCase B z"
  then show "normalizeAnswer B y = normalizeAnswer B z" by (simp add: normalizeAnswer_def)
next
  assume "filter (\<lambda>c. \<not> (0x0300 \<le> c \<and> c \<le> 0x036F)) (normalizeNFKD B (toLowerCase B y)) =
          filter (\<lambda>c. \<not> (0x0300 \<le> c \<and> c \<le> 0x036F)) (normalizeNFKD B (toLowerCase B z))"
  then show "normalizeAnswer B y = normalizeAnswer B z" by (rule normalizeAnswer_cong)
next
  have c: "tidy (js ''cafe'')"
    by (simp add: tidy_def plain_def js_def is_lower_alnum_def is_space_def)
  then have "plain (js ''cafe'')" by (simp add: tidy_def)
  with ascii c show r: "normalizeAnswer B (js ''cafe'') = js ''cafe''"
    by (simp add: normalizeAnswer_fix)
  have "normalizeAnswer B (js ''Caf'' @ [0xE9] @ js ''!'') = js ''cafe''"
    unfolding normalizeAnswer_def lower decomp
    by (simp add: js_def strip_marks_def blank_other_def trim_def
        is_combining_mark_def is_lower_alnum_def is_space_def)
  with r show "normalizeAnswer B (js ''Caf'' @ [0xE9] @ js ''!'') = normalizeAnswer B (js ''cafe'')"
    by simp
next
  have c: "tidy (js ''resume'')"
    by (simp add: tidy_def plain_def js_def is_lower_alnum_def is_space_def)
  then have "plain (js ''resume'')" by (simp add: tidy_def)
  with ascii c show r: "normalizeAnswer B (js ''resume'') = js ''resume''"
    by (simp add: normalizeAnswer_fix)
  have "normalizeAnswer B (js ''R'' @ [0xE9] @ js ''sum'' @ [0xE9]) = js ''resume''"
    unfolding normalizeAnswer_def lower' decomp'
    by (simp add: js_def strip_marks_def blank_other_def trim_def
        is_combining_mark_def is_lower_alnum_def is_space_def)
  with r show "normalizeAnswer B (js ''R'' @ [0xE9] @ js ''sum'' @ [0xE9]) =
                 normalizeAnswer B (js ''resume'')"
    by simp
qed

theorem normalizeAnswer_idempotent_witness:
  "normalizeAnswer latin1_builtins (normalizeAnswer latin1_builtins (js ''  Hello,   World! '')) =
     normalizeAnswer latin1_builtins (js ''  Hello,   World! '') \<and>
   normalizeAnswer latin1_builtins (js ''PARIS'') = normalizeAnswer latin1_builtins (js ''Paris'') \<and>
   normalizeAnswer latin1_builtins (js ''cr'' @ [0xE8] @ js ''me'') =
     normalizeAnswer latin1_builtins (js ''creme'') \<and>
   normalizeAnswer latin1_builtins (js ''Caf'' @ [0xE9] @ js ''!'') =
     normalizeAnswer latin1_builtins (js ''cafe'') \<and>
   normalizeAnswer latin1_builtins (js ''R'' @ [0xE9] @ js ''sum'' @ [0xE9]) =
     normalizeAnswer latin1_builtins (js ''resume'') \<and>
   normalizeAnswer latin1_builtins (js ''  Hello,   World! '') = js ''hello world'' \<and>
   normalizeAnswer latin1_builtins (js ''Caf'' @ [0xE9] @ js ''!'') = js ''cafe'' \<and>
   normalizeAnswer latin1_builtins (js ''R'' @ [0xE9] @ js ''sum'' @ [0xE9]) = js ''resume''"
proof -
  have a: "\<forall>s. plain s \<longrightarrow>
             toLowerCase latin1_builtins s = s \<and> normalizeNFKD latin1_builtins s = s"
    using latin1_builtins_plain by blast
  have l: "toLowerCase latin1_builtins (js ''Caf'' @ [0xE9] @ js ''!'') = js ''caf'' @ [0xE9] @ js ''!''"
    by (simp add: latin1_builtins_def latin1_lower_def js_def)
  have d: "normalizeNFKD latin1_builtins (js ''caf'' @ [0xE9] @ js ''!'') =
             js ''cafe'' @ [0x0301] @ js ''!''"
    by (simp add: latin1_builtins_def latin1_decompose_def js_def)
  have l': "toLowerCase latin1_builtins (js ''R'' @ [0xE9] @ js ''sum'' @ [0xE9]) =
              js ''r'' @ [0xE9] @ js ''sum'' @ [0xE9]"
    by (simp add: latin1_builtins_def latin1_lower_def js_def)
  have d': "normalizeNFKD latin1_builtins (js ''r'' @ [0xE9] @ js ''sum'' @ [0xE9]) =
              js ''re'' @ [0x0301] @ js ''sume'' @ [0x0301]"
    by (simp add: latin1_builtins_def latin1_decompose_def js_def)
  have c: "toLowerCase latin1_builtins (js ''PARIS'') = toLowerCase latin1_builtins (js ''Paris'')"
    by (simp add: latin1_builtins_def latin1_lower_def js_def)
  have m: "filter (\<lambda>c. \<not> (0x0300 \<le> c \<and> c \<le> 0x036F))
             (normalizeNFKD latin1_builtins (toLowerCase latin1_builtins (js ''cr'' @ [0xE8] @ js ''me''))) =
           filter (\<lambda>c. \<not> (0x0300 \<le> c \<and> c \<le> 0x036F))
             (normalizeNFKD latin1_builtins (toLowerCase latin1_builtins (js ''creme'')))"
    by (simp add: latin1_builtins_def latin1_lower_def latin1_decompose_def js_def)
  have h: "normalizeAnswer latin1_builtins (js ''  Hello,   World! '') = js ''hello world''"
    by (simp add: normalizeAnswer_def latin1_builtins_def latin1_lower_def latin1_decompose_def
        js_def strip_marks_def blank_other_def trim_def
        is_combining_mark_def is_lower_alnum_def is_space_def)
  note n = normalizeAnswer_idempotent [OF a l d l' d']
  from n [of "js ''  Hello,   World! ''" "js ''PARIS''" "js ''Paris''"]
    n [of "js ''  Hello,   World! ''" "js ''cr'' @ [0xE8] @ js ''me''" "js ''creme''"] c m h
  show ?thesis by simp
qed

section \<open>Properties of the deterministic selector\<close>

lemma hex_digit_value_hex_char:
  assumes "0 \<le> n" "n < 16"
  shows "hex_digit_value (hex_char n) = Some n"
proof -
  have u: "uint (word_of_int (k + n) :: code_unit) = k + n" if "0 \<le> k" "k < 100" for k
  proof -
    have a: "0 \<le> k + n" using that assms by simp
    have b: "k + n < 2 ^ 16" using that assms by simp
    have "take_bit 16 (k + n) = k + n" using a b by (rule take_bit_int_eq_self)
    then show ?thesis by (simp only: uint_word_of_int_eq len_bit0 len_num1 mult_2 one_add_one numeral_Bit0 [symmetric]) 
  qed
  show ?thesis
    using assms u [of "0x30"] u [of "0x57"]
    by (simp add: hex_char_def hex_digit_value_def word_le_def del: of_int_add of_int_numeral)
qed
lemma hex_digits_value_to_hex:
  "hex_digits_value acc (to_hex bs) = Some (foldl (\<lambda>a b. a * 256 + uint b) acc bs)"
proof (induction bs arbitrary: acc)
  case Nil
  then show ?case by (simp add: to_hex_def)
next
  case (Cons b bs)
  have hi: "hex_digit_value (hex_char (uint b div 16)) = Some (uint b div 16)"
  proof (rule hex_digit_value_hex_char)
    show "0 \<le> uint b div 16" by (simp add: pos_imp_zdiv_nonneg_iff)
    show "uint b div 16 < 16" using uint_lt2p [of b] by simp
  qed
  have lo: "hex_digit_value (hex_char (uint b mod 16)) = Some (uint b mod 16)"
    by (rule hex_digit_value_hex_char) auto
  have e: "(acc * 16 + uint b div 16) * 16 + uint b mod 16 = acc * 256 + uint b"
    by (simp add: algebra_simps)
  have "hex_digits_value acc (to_hex (b # bs)) =
          hex_digits_value ((acc * 16 + uint b div 16) * 16 + uint b mod 16) (to_hex bs)"
    using hi lo by (simp add: to_hex_def)
  also have "\<dots> = Some (foldl (\<lambda>a b. a * 256 + uint b) (acc * 256 + uint b) bs)"
    unfolding e by (rule Cons.IH)
  finally show ?case by simp
qed

lemma to_hex_eq_Nil: "to_hex bs = [] \<longleftrightarrow> bs = []"
  by (cases bs) (simp_all add: to_hex_def)

lemma BigInt_hex_to_hex: "bs \<noteq> [] \<Longrightarrow> BigInt_hex (js ''0x'' @ to_hex bs) = Some (be_int bs)"
proof -
  assume "bs \<noteq> []"
  then obtain d ds where "to_hex bs = d # ds" by (cases "to_hex bs") (auto simp: to_hex_eq_Nil)
  then show ?thesis
    using hex_digits_value_to_hex [of 0 bs] by (simp add: js_def be_int_def)
qed

lemma be_int_nonneg_aux: "0 \<le> acc \<Longrightarrow> 0 \<le> foldl (\<lambda>a b. a * 256 + uint b) acc (bs :: byte list)"
  by (induction bs arbitrary: acc) simp_all

lemma be_int_nonneg: "0 \<le> be_int bs"
  by (simp add: be_int_def be_int_nonneg_aux)

lemma sha256_round_length: "length hs = 8 \<Longrightarrow> length (sha256_block hs blk) = 8"
proof -
  assume "length hs = 8"
  then obtain h0 h1 h2 h3 h4 h5 h6 h7 where "hs = [h0, h1, h2, h3, h4, h5, h6, h7]"
    by (auto simp: length_Suc_conv eval_nat_numeral)
  then show ?thesis by (simp split: prod.splits)
qed

lemma foldl_sha256_block_length:
  "length hs = 8 \<Longrightarrow> length (foldl sha256_block hs blocks) = 8"
  by (induction blocks arbitrary: hs) (simp_all add: sha256_round_length)

lemma length_concat_word_bytes: "length (concat (map word_bytes ws)) = 4 * length ws"
  by (induction ws) (simp_all add: word_bytes_def)

lemma sha256_length: "length (sha256 m) = 32"
  by (simp add: sha256_def Let_def length_concat_word_bytes foldl_sha256_block_length sha256_H0_def)

lemma bit_length_le: "a < 2 ^ n \<Longrightarrow> bit_length a \<le> n"
proof (induction n arbitrary: a)
  case 0
  then show ?case by (simp add: bit_length.simps)
next
  case (Suc n)
  show ?case
  proof (cases "a \<le> 0")
    case True
    then show ?thesis by (simp add: bit_length.simps)
  next
    case False
    from Suc.prems have "a div 2 < 2 ^ n" by simp
    then have "bit_length (a div 2) \<le> n" by (rule Suc.IH)
    with False show ?thesis by (subst bit_length.simps) simp
  qed
qed

lemma Number_of_BigInt_exact:
  assumes "\<bar>v\<bar> < 2 ^ 53"
  shows "Number_of_BigInt v = Finite (of_int v)"
proof -
  have k: "bit_length \<bar>v\<bar> - 53 = 0" using bit_length_le [OF assms] by simp
  have "\<bar>v\<bar> < (2 :: int) ^ 1024"
    using assms by (rule less_trans) simp
  moreover have "sgn v * \<bar>v\<bar> = v" by (simp add: sgn_if)
  ultimately show ?thesis by (simp add: Number_of_BigInt_def k)
qed

lemma deterministicPick_pos:
  assumes "0 < n" "n \<le> 2 ^ 53"
  shows "deterministicPick sd (Finite (of_int n)) =
           Some (Finite (of_int (be_int (sha256 (utf8_encode sd)) mod n)))"
proof -
  let ?d = "sha256 (utf8_encode sd)"
  have "?d \<noteq> []" using sha256_length [of "utf8_encode sd"] by auto
  then have b: "BigInt_hex (js ''0x'' @ sha256_hex sd) = Some (be_int ?d)"
    by (simp add: sha256_hex_def BigInt_hex_to_hex)
  have r: "bigint_rem (be_int ?d) n = Some (be_int ?d mod n)"
    using assms be_int_nonneg [of ?d] by (cases "be_int ?d = 0") (simp_all add: bigint_rem_def)
  have "0 \<le> be_int ?d mod n" "be_int ?d mod n < n" using assms by simp_all
  with assms have "\<bar>be_int ?d mod n\<bar> < 2 ^ 53" by simp
  then have x: "Number_of_BigInt (be_int ?d mod n) = Finite (of_int (be_int ?d mod n))"
    by (rule Number_of_BigInt_exact)
  from assms b r x show ?thesis by (simp add: deterministicPick_def Let_def)
qed

text \<open>
  Claim C2. For a count that is zero or negative the selector returns the sentinel
  \<open>- 1\<close>. For a count that is a positive integer of at most \<open>2 ^ 53\<close> (every array
  length is one) it returns, without raising, the SHA-256 digest of the UTF-8 bytes of
  the seed, read as an unsigned big-endian integer, modulo the count; this value lies
  in \<open>[0, count)\<close>. The selector is a function of its two arguments alone, which is
  what makes it deterministic.
\<close>

theorem deterministicPick_spec:
  "(le_zero count \<longrightarrow> deterministicPick sd count = Some (Finite (- 1))) \<and>
   (0 < n \<and> n \<le> 2 ^ 53 \<longrightarrow>
      deterministicPick sd (Finite (of_int n)) =
        Some (Finite (of_int (be_int (sha256 (utf8_encode sd)) mod n))) \<and>
      0 \<le> be_int (sha256 (utf8_encode sd)) mod n \<and>
      be_int (sha256 (utf8_encode sd)) mod n < n)"
  by (simp add: deterministicPick_pos) (simp add: deterministicPick_def)

lemma sha256_abc:
  "sha256_hex (js ''abc'') = js ''ba7816bf8f01cfea414140de5dae2223b00361a396177a9cb410ff61f20015ad''"
  by code_simp

lemma BigInt_hex_abc:
  "BigInt_hex (js ''0x'' @ sha256_hex (js ''abc'')) =
     Some 0xBA7816BF8F01CFEA414140DE5DAE2223B00361A396177A9CB410FF61F20015AD"
  by (simp add: sha256_abc) (simp add: js_def hex_digit_value_def)

theorem deterministicPick_spec_witness:
  "deterministicPick (js ''abc'') (Finite 0) = Some (Finite (- 1)) \<and>
   deterministicPick (js ''abc'') NegInfinity = Some (Finite (- 1)) \<and>
   deterministicPick (js ''abc'') (Finite 7) = Some (Finite 5) \<and>
   be_int (sha256 (utf8_encode (js ''abc''))) mod 7 = 5"
proof -
  have n: "Number_of_BigInt 5 = Finite 5"
    using Number_of_BigInt_exact [of 5] by simp
  have p: "deterministicPick (js ''abc'') (Finite 7) = Some (Finite 5)"
    by (simp add: deterministicPick_def BigInt_hex_abc bigint_rem_def n)
  from deterministicPick_spec [of "Finite 0" "js ''abc''" 7]
    deterministicPick_spec [of NegInfinity "js ''abc''" 7] p
  show ?thesis by simp
qed

text \<open>
  Outside these counts the selector does what the engine does: above \<open>2 ^ 53\<close> the
  remainder is rounded to a double, and a count that is not an integer, \<^verbatim>\<open>NaN\<close> or
  \<^verbatim>\<open>Infinity\<close> raises.
\<close>

lemma deterministicPick_rounds:
  "deterministicPick (js ''abc'') (Finite (2 ^ 64)) = Some (Finite 12975151322591401984) \<and>
   0xBA7816BF8F01CFEA414140DE5DAE2223B00361A396177A9CB410FF61F20015AD mod 2 ^ 64
     = (12975151322591401389 :: int)"
proof -
  have l: "bit_length 12975151322591401389 = 64" by code_simp
  have n: "Number_of_BigInt 12975151322591401389 = Finite 12975151322591401984"
    by (simp add: Number_of_BigInt_def l)
  show ?thesis
    by (simp add: deterministicPick_def BigInt_hex_abc bigint_rem_def n)
qed

lemma deterministicPick_raises:
  "deterministicPick sd (Finite (3 / 2)) = None \<and> deterministicPick sd NaN = None \<and>
   deterministicPick sd PosInfinity = None"
proof -
  let ?d = "sha256 (utf8_encode sd)"
  have "?d \<noteq> []" using sha256_length [of "utf8_encode sd"] by auto
  then have b: "BigInt_hex (js ''0x'' @ sha256_hex sd) = Some (be_int ?d)"
    by (simp add: sha256_hex_def BigInt_hex_to_hex)
  have f: "\<lfloor>3 / 2 :: rat\<rfloor> = 1" by (simp add: floor_eq_iff)
  show ?thesis by (simp add: deterministicPick_def b f)
qed

section \<open>Properties of the round store\<close>

lemma markClaimUsed_ok:
  "snd (markClaimUsed db triviaId usedAt usedAddress txid') \<longleftrightarrow>
     (\<exists>r \<in> set (trivia_rewards db). trivia_id r = triviaId \<and> used_at r = None)"
  by (auto simp: markClaimUsed_def Let_def filter_empty_conv)

lemma markClaimUsed_miss:
  assumes "\<not> snd (markClaimUsed db triviaId usedAt usedAddress txid')"
  shows "fst (markClaimUsed db triviaId usedAt usedAddress txid') = db"
proof -
  from assms have "\<forall>r \<in> set (trivia_rewards db). \<not> (trivia_id r = triviaId \<and> used_at r = None)"
    by (simp add: markClaimUsed_ok)
  then have "map (\<lambda>r. if trivia_id r = triviaId \<and> used_at r = None
                 then r\<lparr> used_at := Some usedAt, used_address := Some usedAddress,
                         txid := Some txid', invalid_attempts := 0, lock_expires_at := None \<rparr>
                 else r) (trivia_rewards db) = trivia_rewards db"
    by (intro map_idI) auto
  then show ?thesis by (simp add: markClaimUsed_def Let_def)
qed

lemma markClaimUsed_payouts:
  "trivia_payouts (fst (markClaimUsed db triviaId usedAt usedAddress txid')) = trivia_payouts db"
  "daily_spend (fst (markClaimUsed db triviaId usedAt usedAddress txid')) = daily_spend db"
  by (simp_all add: markClaimUsed_def Let_def)

lemma map_map_same: "(\<And>x. g (f x) = g x) \<Longrightarrow> map g (map f xs) = map g xs"
  by (induction xs) simp_all

lemma store_inv_frame:
  assumes "store_inv db"
    and "trivia_payouts db' = trivia_payouts db"
    and "map trivia_id (trivia_rewards db') = map trivia_id (trivia_rewards db)"
    and "\<And>t. is_used db t \<Longrightarrow> is_used db' t"
  shows "store_inv db'"
proof -
  have "length (payouts_of db' t) \<le> (if is_used db' t then 1 else 0)" for t
  proof -
    have "length (payouts_of db t) \<le> (if is_used db t then 1 else 0)"
      using assms(1) by (simp add: store_inv_def)
    moreover have "payouts_of db' t = payouts_of db t"
      using assms(2) by (simp add: payouts_of_def)
    ultimately show ?thesis using assms(4) [of t] by (simp split: if_splits)
  qed
  moreover have "distinct (map trivia_id (trivia_rewards db'))"
    using assms(1,3) by (simp add: store_inv_def)
  ultimately show ?thesis by (simp add: store_inv_def)
qed

lemma is_used_map:
  assumes "\<And>r. trivia_id (f r) = trivia_id r" "\<And>r. used_at r \<noteq> None \<Longrightarrow> used_at (f r) \<noteq> None"
    and "trivia_rewards db' = map f (trivia_rewards db)"
    and "is_used db t"
  shows "is_used db' t"
  using assms unfolding is_used_def by (metis (no_types, lifting) imageI list.set_map)

lemma store_inv_map:
  assumes "store_inv db"
    and "trivia_payouts db' = trivia_payouts db"
    and "trivia_rewards db' = map f (trivia_rewards db)"
    and "\<And>r. trivia_id (f r) = trivia_id r" "\<And>r. used_at r \<noteq> None \<Longrightarrow> used_at (f r) \<noteq> None"
  shows "store_inv db'"
proof (rule store_inv_frame [OF assms(1,2)])
  show "map trivia_id (trivia_rewards db') = map trivia_id (trivia_rewards db)"
    unfolding assms(3) by (rule map_map_same) (rule assms(4))
  show "is_used db' t" if "is_used db t" for t
    using assms(4,5,3) that by (rule is_used_map)
qed

lemma store_inv_empty: "store_inv empty_db"
  by (simp add: store_inv_def empty_db_def payouts_of_def)

lemma store_inv_create:
  assumes "store_inv db"
    and "createTrivia db triviaId tweetId answers windowMinutes rewardRmz createdAt closesAt = Inr db'"
  shows "store_inv db'"
proof -
  from assms(2) have fresh: "triviaId \<notin> trivia_id ` set (trivia_rewards db)"
    by (auto simp: createTrivia_def split: if_splits)
  from assms(2) obtain row where rows: "trivia_rewards db' = trivia_rewards db @ [row]"
    and row: "trivia_id row = triviaId" "used_at row = None"
    and pay: "trivia_payouts db' = trivia_payouts db"
    by (auto simp: createTrivia_def split: if_splits)
  have "is_used db' t \<longleftrightarrow> is_used db t" for t
    using rows row by (auto simp: is_used_def)
  moreover have "distinct (map trivia_id (trivia_rewards db'))"
    using assms(1) fresh rows row by (simp add: store_inv_def)
  ultimately show ?thesis using assms(1) pay by (simp add: store_inv_def payouts_of_def)
qed

lemma recordClaimAndPayout_eq:
  "recordClaimAndPayout db triviaId usedAt usedAddress txid' userId rmzAmount dayKey =
     (if snd (markClaimUsed db triviaId usedAt usedAddress txid')
      then (incrementDailySpend
              (recordPayout (fst (markClaimUsed db triviaId usedAt usedAddress txid'))
                 triviaId userId usedAddress rmzAmount txid' usedAt dayKey)
              dayKey rmzAmount, True)
      else (db, False))"
proof (cases "markClaimUsed db triviaId usedAt usedAddress txid'")
  case (Pair db1 updated)
  show ?thesis
  proof (cases updated)
    case True
    with Pair show ?thesis by (simp add: recordClaimAndPayout_def Let_def)
  next
    case False
    with Pair markClaimUsed_miss [of db triviaId usedAt usedAddress txid']
    show ?thesis by (simp add: recordClaimAndPayout_def)
  qed
qed

lemma store_inv_settle:
  assumes "store_inv db"
  shows "store_inv (fst (recordClaimAndPayout db triviaId usedAt usedAddress txid' userId
                       rmzAmount dayKey))"
proof (cases "snd (markClaimUsed db triviaId usedAt usedAddress txid')")
  case False
  then show ?thesis
    using assms by (simp add: recordClaimAndPayout_eq)
next
  case True
  let ?f = "\<lambda>r. if trivia_id r = triviaId \<and> used_at r = None
                 then r\<lparr> used_at := Some usedAt, used_address := Some usedAddress,
                         txid := Some txid', invalid_attempts := 0, lock_expires_at := None \<rparr>
                 else r"
  let ?db' = "fst (recordClaimAndPayout db triviaId usedAt usedAddress txid' userId
                       rmzAmount dayKey)"
  have rows: "trivia_rewards ?db' = map ?f (trivia_rewards db)"
    using True
    by (simp add: recordClaimAndPayout_eq recordPayout_def incrementDailySpend_def)
       (simp add: markClaimUsed_def Let_def)
  have "\<exists>p. trivia_payouts ?db' = trivia_payouts db @ [p] \<and> p_trivia_id p = triviaId"
    using True
    by (simp add: recordClaimAndPayout_eq recordPayout_def incrementDailySpend_def
        markClaimUsed_payouts)
  then obtain p where pay: "trivia_payouts ?db' = trivia_payouts db @ [p]"
    and p: "p_trivia_id p = triviaId" by blast
  from True obtain r where r: "r \<in> set (trivia_rewards db)" "trivia_id r = triviaId" "used_at r = None"
    by (auto simp: markClaimUsed_ok)
  have d: "distinct (map trivia_id (trivia_rewards db))" using assms by (simp add: store_inv_def)
  have not_used: "\<not> is_used db triviaId"
  proof
    assume "is_used db triviaId"
    then obtain r' where r': "r' \<in> set (trivia_rewards db)" "trivia_id r' = triviaId" "used_at r' \<noteq> None"
      by (auto simp: is_used_def)
    with r d have "r' = r" by (metis distinct_map inj_on_def)
    with r r' show False by simp
  qed
  then have none: "payouts_of db triviaId = []"
    using assms by (auto simp: store_inv_def dest: spec [of _ triviaId])
  have used': "is_used ?db' triviaId"
  proof -
    have "?f r \<in> set (trivia_rewards ?db')" unfolding rows using r(1) by simp
    moreover have "trivia_id (?f r) = triviaId \<and> used_at (?f r) \<noteq> None" using r by simp
    ultimately show ?thesis unfolding is_used_def by blast
  qed
  have keep: "is_used ?db' t" if "is_used db t" for t
  proof (rule is_used_map [OF _ _ rows that])
    show "trivia_id (?f x) = trivia_id x" for x by simp
    show "used_at (?f x) \<noteq> None" if "used_at x \<noteq> None" for x using that by simp
  qed
  have d': "distinct (map trivia_id (trivia_rewards ?db'))"
  proof -
    have m: "map trivia_id (map ?f (trivia_rewards db)) = map trivia_id (trivia_rewards db)"
      by (rule map_map_same) simp
    show ?thesis unfolding rows m by (rule d)
  qed
  have "length (payouts_of ?db' t) \<le> (if is_used ?db' t then 1 else 0)" for t
  proof (cases "t = triviaId")
    case True
    with none pay p used' show ?thesis by (simp add: payouts_of_def)
  next
    case False
    with pay p have "payouts_of ?db' t = payouts_of db t" by (simp add: payouts_of_def)
    moreover have "length (payouts_of db t) \<le> (if is_used db t then 1 else 0)"
      using assms by (simp add: store_inv_def)
    ultimately show ?thesis using keep [of t] by (auto split: if_splits)
  qed
  with d' show ?thesis by (simp add: store_inv_def)
qed

lemma reachable_store_inv: "reachable db \<Longrightarrow> store_inv db"
proof (induction rule: reachable.induct)
  case r_init
  show ?case by (rule store_inv_empty)
next
  case (r_create db triviaId tweetId answers windowMinutes rewardRmz createdAt closesAt db')
  then show ?case by (blast intro: store_inv_create)
next
  case (r_replies db replies)
  show ?case
    by (rule store_inv_frame [OF r_replies.IH]) (simp_all add: addReplies_def is_used_def)
next
  case (r_close db triviaId blockHeight s winner winnerTweet code expires)
  show ?case
    by (rule store_inv_map [OF r_close.IH, where f = "\<lambda>r. if trivia_id r = triviaId
        then r\<lparr> status := Closed, block_height := Some blockHeight, seed := Some s,
                winner_twitter_user_id := winner, winner_tweet_id := winnerTweet,
                claim_code := code, claim_expires_at := expires \<rparr>
        else r"]) (simp_all add: closeTrivia_def)
next
  case (r_clear db triviaId)
  show ?case
    by (rule store_inv_map [OF r_clear.IH, where f = "\<lambda>r. if trivia_id r = triviaId
        then r\<lparr> invalid_attempts := 0, lock_expires_at := None \<rparr> else r"])
       (simp_all add: clearClaimLock_def)
next
  case (r_attempt db triviaId now maxAttempts lockMs)
  obtain res where res: "snd (recordInvalidAttempt db triviaId now maxAttempts lockMs) = res"
    by simp
  show ?case
    by (rule store_inv_map [OF r_attempt.IH, where f = "\<lambda>r. if trivia_id r = triviaId
        then r\<lparr> invalid_attempts := invalidAttempts res,
                lock_expires_at := lockExpiresAt res \<rparr> else r"])
       (use res in \<open>simp_all add: recordInvalidAttempt_def Let_def\<close>)
next
  case (r_clear_code db claimCode t)
  show ?case
    by (rule store_inv_frame [OF r_clear_code.IH])
       (simp_all add: clearClaimAttemptLock_def is_used_def split: option.splits)
next
  case (r_attempt_code db claimCode now maxAttempts lockMs)
  show ?case
    by (rule store_inv_frame [OF r_attempt_code.IH])
       (simp_all add: recordInvalidClaimCodeAttempt_def Let_def is_used_def)
next
  case (r_settle db triviaId usedAt usedAddress txid' userId rmzAmount dayKey)
  then show ?case by (simp add: store_inv_settle)
qed

lemma reachable_sample_db: "reachable sample_db"
proof -
  have "createTrivia empty_db (js ''t1'') (js ''100'') [js ''paris''] 10 3 1000 601000 = Inr
          (empty_db\<lparr>trivia_rewards := [sample_round\<lparr>status := Open, block_height := None,
             seed := None, winner_twitter_user_id := None, winner_tweet_id := None,
             claim_code := None, claim_expires_at := None\<rparr>]\<rparr>)"
    by (simp add: createTrivia_def empty_db_def sample_round_def)
  from r_create [OF r_init this]
  have "reachable (closeTrivia (empty_db\<lparr>trivia_rewards := [sample_round\<lparr>status := Open,
             block_height := None, seed := None, winner_twitter_user_id := None,
             winner_tweet_id := None, claim_code := None, claim_expires_at := None\<rparr>]\<rparr>)
          (js ''t1'') 800000 (js ''s:t1:100:u1'') (Some (js ''u1'')) (Some (js ''101''))
          (Some (js ''c0de'')) (Some 4300000))"
    by (rule r_close)
  then show ?thesis by (simp add: closeTrivia_def sample_db_def sample_round_def empty_db_def)
qed

text \<open>
  Claim C1. Settlement marks the round used only where \<^verbatim>\<open>used_at\<close> is null, and
  it appends the payout row and adds the amount to the day's total exactly when that
  update changed a row. When no row changed (the round is already settled, or missing)
  it returns false and leaves the whole store as it was. In every state that the
  store's operations can reach from the empty database, a round has at most one payout
  row after a settlement.
\<close>

theorem recordClaimAndPayout_atomic:
  assumes "recordClaimAndPayout db triviaId usedAt usedAddress txid' userId rmzAmount dayKey
             = (db', ok)"
  shows "(ok \<longleftrightarrow> (\<exists>r \<in> set (trivia_rewards db). trivia_id r = triviaId \<and> used_at r = None)) \<and>
    (ok \<longrightarrow>
       trivia_rewards db' = map (\<lambda>r.
         if trivia_id r = triviaId \<and> used_at r = None
         then r\<lparr> used_at := Some usedAt, used_address := Some usedAddress, txid := Some txid',
                 invalid_attempts := 0, lock_expires_at := None \<rparr>
         else r) (trivia_rewards db) \<and>
       trivia_payouts db' = trivia_payouts db @
         [\<lparr> p_id = int (length (trivia_payouts db)) + 1, p_trivia_id = triviaId,
            p_twitter_user_id = userId, p_address = usedAddress,
            p_rmz_amount = rmzAmount, p_txid = txid', p_created_at = usedAt,
            p_day_key = dayKey \<rparr>] \<and>
       daily_spend db' = (daily_spend db)(dayKey \<mapsto> getDailySpend db dayKey + rmzAmount)) \<and>
    (\<not> ok \<longrightarrow> db' = db) \<and>
    (reachable db \<longrightarrow> (\<forall>t. length (payouts_of db' t) \<le> 1))"
proof (intro conjI impI)
  let ?m = "markClaimUsed db triviaId usedAt usedAddress txid'"
  from assms have ok: "ok = snd ?m"
    by (simp add: recordClaimAndPayout_eq split: if_splits)
  then show "ok \<longleftrightarrow> (\<exists>r \<in> set (trivia_rewards db). trivia_id r = triviaId \<and> used_at r = None)"
    by (simp add: markClaimUsed_ok)
  {
    assume ok
    with ok assms have db': "db' = incrementDailySpend
              (recordPayout (fst ?m) triviaId userId usedAddress rmzAmount txid' usedAt dayKey)
              dayKey rmzAmount"
      by (simp add: recordClaimAndPayout_eq)
    show "trivia_rewards db' = map (\<lambda>r.
         if trivia_id r = triviaId \<and> used_at r = None
         then r\<lparr> used_at := Some usedAt, used_address := Some usedAddress, txid := Some txid',
                 invalid_attempts := 0, lock_expires_at := None \<rparr>
         else r) (trivia_rewards db)"
      unfolding db' by (simp add: incrementDailySpend_def recordPayout_def markClaimUsed_def Let_def)
    show "trivia_payouts db' = trivia_payouts db @
         [\<lparr> p_id = int (length (trivia_payouts db)) + 1, p_trivia_id = triviaId,
            p_twitter_user_id = userId, p_address = usedAddress,
            p_rmz_amount = rmzAmount, p_txid = txid', p_created_at = usedAt,
            p_day_key = dayKey \<rparr>]"
      unfolding db' by (simp add: incrementDailySpend_def recordPayout_def markClaimUsed_payouts)
    show "daily_spend db' = (daily_spend db)(dayKey \<mapsto> getDailySpend db dayKey + rmzAmount)"
      unfolding db'
      by (simp add: incrementDailySpend_def recordPayout_def markClaimUsed_payouts
          getDailySpend_def split: option.splits)
  }
  {
    assume "\<not> ok"
    with ok assms show "db' = db" by (simp add: recordClaimAndPayout_eq)
  }
  {
    assume "reachable db"
    then have "store_inv db" by (rule reachable_store_inv)
    then have "store_inv (fst (recordClaimAndPayout db triviaId usedAt usedAddress txid'
                                 userId rmzAmount dayKey))"
      by (rule store_inv_settle)
    with assms have "store_inv db'" by simp
    then show "\<forall>t. length (payouts_of db' t) \<le> 1"
      by (auto simp: store_inv_def intro: order_trans)
  }
qed

theorem recordClaimAndPayout_atomic_witness:
  "snd (recordClaimAndPayout sample_db (js ''t1'') 2000 (js ''ecash:qq0000000'') (js ''tx1'')
          (js ''u1'') 3 (js ''2024-01-01'')) \<and>
   length (payouts_of (fst (recordClaimAndPayout sample_db (js ''t1'') 2000 (js ''ecash:qq0000000'')
          (js ''tx1'') (js ''u1'') 3 (js ''2024-01-01''))) (js ''t1'')) = 1 \<and>
   daily_spend (fst (recordClaimAndPayout sample_db (js ''t1'') 2000 (js ''ecash:qq0000000'')
          (js ''tx1'') (js ''u1'') 3 (js ''2024-01-01''))) (js ''2024-01-01'') = Some 3 \<and>
   recordClaimAndPayout
     (fst (recordClaimAndPayout sample_db (js ''t1'') 2000 (js ''ecash:qq0000000'') (js ''tx1'')
          (js ''u1'') 3 (js ''2024-01-01'')))
     (js ''t1'') 2500 (js ''ecash:qq1111111'') (js ''tx2'') (js ''u1'') 3 (js ''2024-01-01'') =
     (fst (recordClaimAndPayout sample_db (js ''t1'') 2000 (js ''ecash:qq0000000'') (js ''tx1'')
          (js ''u1'') 3 (js ''2024-01-01'')), False)"
proof -
  let ?s1 = "recordClaimAndPayout sample_db (js ''t1'') 2000 (js ''ecash:qq0000000'') (js ''tx1'')
          (js ''u1'') 3 (js ''2024-01-01'')"
  let ?s2 = "recordClaimAndPayout (fst ?s1) (js ''t1'') 2500 (js ''ecash:qq1111111'') (js ''tx2'')
          (js ''u1'') 3 (js ''2024-01-01'')"
  have hit: "\<exists>r \<in> set (trivia_rewards sample_db). trivia_id r = js ''t1'' \<and> used_at r = None"
    by (simp add: sample_db_def sample_round_def empty_db_def)
  have e1: "?s1 = (fst ?s1, snd ?s1)" by simp
  note a1 = recordClaimAndPayout_atomic [OF e1]
  from a1 [THEN conjunct1] hit have ok1: "snd ?s1" by (rule iffD2)
  note b1 = a1 [THEN conjunct2, THEN conjunct1, rule_format, OF ok1]
  have rows1: "trivia_rewards (fst ?s1) =
      [sample_round\<lparr> used_at := Some 2000, used_address := Some (js ''ecash:qq0000000''),
         txid := Some (js ''tx1''), invalid_attempts := 0, lock_expires_at := None \<rparr>]"
    unfolding b1 [THEN conjunct1] by (simp add: sample_db_def sample_round_def empty_db_def)
  have pay1: "length (payouts_of (fst ?s1) (js ''t1'')) = 1"
    unfolding payouts_of_def b1 [THEN conjunct2, THEN conjunct1]
    by (simp add: sample_db_def empty_db_def)
  have day1: "daily_spend (fst ?s1) (js ''2024-01-01'') = Some 3"
    unfolding b1 [THEN conjunct2, THEN conjunct2]
    by (simp add: getDailySpend_def sample_db_def empty_db_def)
  have e2: "?s2 = (fst ?s2, snd ?s2)" by simp
  note a2 = recordClaimAndPayout_atomic [OF e2]
  have miss: "\<not> (\<exists>r \<in> set (trivia_rewards (fst ?s1)). trivia_id r = js ''t1'' \<and> used_at r = None)"
    unfolding rows1 by simp
  from a2 [THEN conjunct1] miss have no2: "\<not> snd ?s2" by simp
  from a2 [THEN conjunct2, THEN conjunct2, THEN conjunct1] no2 have "fst ?s2 = fst ?s1" by simp
  with no2 have eq: "?s2 = (fst ?s1, False)" by (simp add: prod_eq_iff)
  show ?thesis by (intro conjI) (rule ok1 pay1 day1 eq)+
qed

lemma find_map_row:
  assumes "distinct (map trivia_id rows)" "r \<in> set rows" "trivia_id r = t"
    and "\<And>x. trivia_id (f x) = trivia_id x"
  shows "find (\<lambda>x. trivia_id x = t) (map f rows) = Some (f r)"
  using assms(1,2)
proof (induction rows)
  case Nil
  then show ?case by simp
next
  case (Cons a rows)
  show ?case
  proof (cases "a = r")
    case True
    with assms(3,4) show ?thesis by simp
  next
    case False
    with Cons.prems have r: "r \<in> set rows" by simp
    with Cons.prems assms(3) have "trivia_id a \<noteq> t" by (auto simp: image_iff)
    with Cons r assms(4) show ?thesis by simp
  qed
qed

text \<open>
  Claim C10. The conditional update of a settlement does more than set
  \<^verbatim>\<open>used_at\<close>, \<^verbatim>\<open>used_address\<close> and \<^verbatim>\<open>txid\<close>: in the same row it sets
  \<^verbatim>\<open>invalid_attempts\<close> to 0 and \<^verbatim>\<open>lock_expires_at\<close> to null. So after a
  successful settlement the round read back from the store has its lockout cleared,
  whatever the counter and the lock were before.
\<close>

theorem markClaimUsed_clears_lock:
  assumes "markClaimUsed db triviaId usedAt usedAddress txid' = (db', True)"
    and "distinct (map trivia_id (trivia_rewards db))"
  shows "\<exists>r r'. getTrivia db triviaId = Some r \<and> getTrivia db' triviaId = Some r' \<and>
           r' = r\<lparr> used_at := Some usedAt, used_address := Some usedAddress, txid := Some txid',
                    invalid_attempts := 0, lock_expires_at := None \<rparr> \<and>
           invalid_attempts r' = 0 \<and> lock_expires_at r' = None"
proof -
  let ?f = "\<lambda>r. if trivia_id r = triviaId \<and> used_at r = None
                 then r\<lparr> used_at := Some usedAt, used_address := Some usedAddress,
                         txid := Some txid', invalid_attempts := 0, lock_expires_at := None \<rparr>
                 else r"
  from assms(1) have "snd (markClaimUsed db triviaId usedAt usedAddress txid')" by simp
  then obtain r where r: "r \<in> set (trivia_rewards db)" "trivia_id r = triviaId" "used_at r = None"
    by (auto simp: markClaimUsed_ok)
  from assms(1) have rows: "trivia_rewards db' = map ?f (trivia_rewards db)"
    by (auto simp: markClaimUsed_def Let_def)
  have "find (\<lambda>x. trivia_id x = triviaId) (map id (trivia_rewards db)) = Some (id r)"
    using assms(2) r(1,2) by (rule find_map_row) simp
  then have g: "getTrivia db triviaId = Some r" by (simp add: getTrivia_def)
  have "find (\<lambda>x. trivia_id x = triviaId) (map ?f (trivia_rewards db)) = Some (?f r)"
    using assms(2) r(1,2) by (rule find_map_row) simp
  then have g': "getTrivia db' triviaId = Some (?f r)" by (simp add: getTrivia_def rows)
  from g g' r show ?thesis by simp
qed

theorem markClaimUsed_clears_lock_witness:
  "getTrivia locked_db (js ''t1'') =
     Some (sample_round\<lparr>invalid_attempts := 3, lock_expires_at := Some 1600000\<rparr>) \<and>
   getTrivia (fst (markClaimUsed locked_db (js ''t1'') 2000 (js ''ecash:qq0000000'') (js ''tx1'')))
     (js ''t1'') =
     Some (sample_round\<lparr> used_at := Some 2000, used_address := Some (js ''ecash:qq0000000''),
             txid := Some (js ''tx1''), invalid_attempts := 0, lock_expires_at := None \<rparr>)"
proof -
  let ?m = "markClaimUsed locked_db (js ''t1'') 2000 (js ''ecash:qq0000000'') (js ''tx1'')"
  have "snd ?m" by (simp add: markClaimUsed_ok locked_db_def sample_round_def empty_db_def)
  then have e: "?m = (fst ?m, True)" by (simp add: prod_eq_iff)
  have d: "distinct (map trivia_id (trivia_rewards locked_db))"
    by (simp add: locked_db_def empty_db_def)
  have g: "getTrivia locked_db (js ''t1'') =
             Some (sample_round\<lparr>invalid_attempts := 3, lock_expires_at := Some 1600000\<rparr>)"
    by (simp add: getTrivia_def locked_db_def empty_db_def sample_round_def)
  from markClaimUsed_clears_lock [OF e d] obtain r r' where
    r: "getTrivia locked_db (js ''t1'') = Some r" and
    r': "getTrivia (fst ?m) (js ''t1'') = Some r'"
      "r' = r\<lparr> used_at := Some 2000, used_address := Some (js ''ecash:qq0000000''),
                txid := Some (js ''tx1''), invalid_attempts := 0, lock_expires_at := None \<rparr>"
    by blast
  from r g have "r = sample_round\<lparr>invalid_attempts := 3, lock_expires_at := Some 1600000\<rparr>"
    by simp
  with r' have "getTrivia (fst ?m) (js ''t1'') =
     Some (sample_round\<lparr> used_at := Some 2000, used_address := Some (js ''ecash:qq0000000''),
             txid := Some (js ''tx1''), invalid_attempts := 0, lock_expires_at := None \<rparr>)"
    by simp
  with g show ?thesis by (intro conjI)
qed

lemma bump_attempts_spec:
  "stored_lock \<noteq> Some 0 \<Longrightarrow>
   bump_attempts stored_attempts stored_lock now maxAttempts lockMs =
   lazy_expiry_spec stored_attempts stored_lock now maxAttempts lockMs"
  by (cases stored_lock) (auto simp: bump_attempts_def lazy_expiry_spec_def lock_expired_def Let_def)

lemma recordInvalidAttempt_spec:
  assumes "getTrivia db triviaId = Some r" "lock_expires_at r \<noteq> Some 0"
  shows "snd (recordInvalidAttempt db triviaId now maxAttempts lockMs) =
         lazy_expiry_spec (invalid_attempts r) (lock_expires_at r) now maxAttempts lockMs"
  using assms by (simp add: recordInvalidAttempt_def Let_def bump_attempts_spec)

lemma recordInvalidClaimCodeAttempt_spec:
  assumes "getClaimAttemptByCode db claimCode = Some a" "a_lock_expires_at a \<noteq> Some 0"
  shows "snd (recordInvalidClaimCodeAttempt db claimCode now maxAttempts lockMs) =
           lazy_expiry_spec (a_invalid_attempts a) (a_lock_expires_at a) now maxAttempts lockMs \<and>
         getClaimAttemptByCode (fst (recordInvalidClaimCodeAttempt db claimCode now maxAttempts lockMs))
           claimCode =
           Some \<lparr> a_invalid_attempts = invalidAttempts
                     (lazy_expiry_spec (a_invalid_attempts a) (a_lock_expires_at a) now maxAttempts lockMs),
                  a_lock_expires_at = lockExpiresAt
                     (lazy_expiry_spec (a_invalid_attempts a) (a_lock_expires_at a) now maxAttempts lockMs),
                  a_updated_at = now \<rparr>"
  using assms
  by (simp add: recordInvalidClaimCodeAttempt_def getClaimAttemptByCode_def Let_def bump_attempts_spec)

lemma no_zero_lock_recordInvalidAttempt:
  assumes "no_zero_lock db" "0 < now" "0 \<le> lockMs"
  shows "no_zero_lock (fst (recordInvalidAttempt db triviaId now maxAttempts lockMs))"
proof -
  have b: "lockExpiresAt (bump_attempts n l now maxAttempts lockMs) \<noteq> Some 0" if "l \<noteq> Some 0" for n l
    using that assms(2,3) by (simp add: bump_attempts_def Let_def)
  have "(case getTrivia db triviaId of None \<Rightarrow> None | Some r \<Rightarrow> lock_expires_at r) \<noteq> Some 0"
    using assms(1) by (auto simp: no_zero_lock_def getTrivia_def find_Some_iff split: option.splits)
  from b [OF this] assms(1) show ?thesis
    by (auto simp: no_zero_lock_def recordInvalidAttempt_def Let_def)
qed

lemma no_zero_lock_recordInvalidClaimCodeAttempt:
  assumes "no_zero_lock db" "0 < now" "0 \<le> lockMs"
  shows "no_zero_lock (fst (recordInvalidClaimCodeAttempt db claimCode now maxAttempts lockMs))"
proof -
  have b: "lockExpiresAt (bump_attempts n l now maxAttempts lockMs) \<noteq> Some 0" if "l \<noteq> Some 0" for n l
    using that assms(2,3) by (simp add: bump_attempts_def Let_def)
  have "(case getClaimAttemptByCode db claimCode of None \<Rightarrow> None | Some a \<Rightarrow> a_lock_expires_at a)
          \<noteq> Some 0"
    using assms(1)
    by (auto simp: no_zero_lock_def getClaimAttemptByCode_def ran_def split: option.splits)
  from b [OF this] assms(1) show ?thesis
    by (auto simp: no_zero_lock_def recordInvalidClaimCodeAttempt_def Let_def ran_def
        split: if_splits)
qed

lemma no_zero_lock_run_call:
  "no_zero_lock db \<Longrightarrow> 0 < call_now c \<Longrightarrow> 0 \<le> call_lockMs c \<Longrightarrow>
   no_zero_lock (fst (run_call db c))"
  by (cases c)
     (simp_all add: no_zero_lock_recordInvalidAttempt no_zero_lock_recordInvalidClaimCodeAttempt)

lemma no_zero_lock_calls:
  "no_zero_lock db \<Longrightarrow> \<forall>c \<in> set calls. 0 < call_now c \<and> 0 \<le> call_lockMs c \<Longrightarrow>
   no_zero_lock (foldl (\<lambda>d c. fst (run_call d c)) db calls)"
  by (induction calls arbitrary: db) (simp_all add: no_zero_lock_run_call)

lemma lock_of_not_zero: "no_zero_lock db \<Longrightarrow> lock_of db c \<noteq> Some 0"
  by (cases c)
     (auto simp: no_zero_lock_def getTrivia_def find_Some_iff getClaimAttemptByCode_def ran_def
        split: option.splits)

lemma run_call_result:
  "snd (run_call db c) =
     bump_attempts (counter_of db c) (lock_of db c) (call_now c) (call_maxAttempts c)
       (call_lockMs c)"
  by (cases c) (simp_all add: recordInvalidAttempt_def recordInvalidClaimCodeAttempt_def Let_def)

lemma find_map_update:
  "(\<And>x. P (f x) = P x) \<Longrightarrow> find P (map f xs) = map_option f (find P xs)"
  by (induction xs) simp_all

lemma run_call_stored:
  assumes "has_row db c"
  shows "counter_of (fst (run_call db c)) c = invalidAttempts (snd (run_call db c)) \<and>
         lock_of (fst (run_call db c)) c = lockExpiresAt (snd (run_call db c))"
proof (cases c)
  case (RoundCall t now m l)
  from assms RoundCall obtain r where r: "getTrivia db t = Some r" by auto
  then have i: "trivia_id r = t" by (auto simp: getTrivia_def find_Some_iff)
  let ?res = "bump_attempts (invalid_attempts r) (lock_expires_at r) now m l"
  let ?f = "\<lambda>r. if trivia_id r = t
               then r\<lparr> invalid_attempts := invalidAttempts ?res,
                       lock_expires_at := lockExpiresAt ?res \<rparr> else r"
  have "find (\<lambda>x. trivia_id x = t) (map ?f (trivia_rewards db)) =
          map_option ?f (find (\<lambda>x. trivia_id x = t) (trivia_rewards db))"
    by (rule find_map_update) simp
  with r i RoundCall show ?thesis
    by (simp add: recordInvalidAttempt_def Let_def getTrivia_def cong: if_cong)
next
  case (CodeCall code now m l)
  then show ?thesis
    by (simp add: recordInvalidClaimCodeAttempt_def getClaimAttemptByCode_def Let_def)
qed

text \<open>
  Rows start without a lock, and no other operation of the store writes a lock of 0.
\<close>

lemma no_zero_lock_others:
  "no_zero_lock empty_db"
  "no_zero_lock db \<Longrightarrow>
   createTrivia db triviaId tweetId answers windowMinutes rewardRmz createdAt closesAt = Inr db'
   \<Longrightarrow> no_zero_lock db'"
  "no_zero_lock db \<Longrightarrow> no_zero_lock (addReplies db replies)"
  "no_zero_lock db \<Longrightarrow>
   no_zero_lock (closeTrivia db triviaId blockHeight s winner winnerTweet code expires)"
  "no_zero_lock db \<Longrightarrow> no_zero_lock (clearClaimLock db triviaId)"
  "no_zero_lock db \<Longrightarrow> no_zero_lock (clearClaimAttemptLock db claimCode t)"
  "no_zero_lock db \<Longrightarrow>
   no_zero_lock (fst (recordClaimAndPayout db triviaId usedAt usedAddress txid' userId
                        rmzAmount dayKey))"
  by (auto simp: no_zero_lock_def empty_db_def createTrivia_def addReplies_def closeTrivia_def
      clearClaimLock_def clearClaimAttemptLock_def recordClaimAndPayout_def markClaimUsed_def
      recordPayout_def incrementDailySpend_def Let_def ran_def
      split: if_splits option.splits prod.splits) blast

text \<open>
  Claim C7. Take a store in which no lock is the number 0, any sequence of calls of the
  two recorders made at positive clock readings with non-negative lock windows, and one
  more such call. That call returns what the lazy-expiry rule gives for the counter and
  the lock stored for its target after the sequence: a stored lock that is set and has
  been reached resets the counter, so that the count returned is 1, and clears the
  lock; the count is the counter plus one otherwise; a count of \<open>maxAttempts\<close> or more
  sets the lock to \<open>now + lockMs\<close>; and where the target has a row, the count and the
  lock returned are the ones stored.
\<close>

theorem recordInvalidAttempt_lazy_expiry:
  assumes "no_zero_lock db"
    and "\<forall>c \<in> set calls. 0 < call_now c \<and> 0 \<le> call_lockMs c"
    and "0 < call_now call" and "0 \<le> call_lockMs call"
  shows "let db' = foldl (\<lambda>d c. fst (run_call d c)) db calls;
             res = snd (run_call db' call);
             expired = (\<exists>l. lock_of db' call = Some l \<and> l \<le> call_now call)
         in res = lazy_expiry_spec (counter_of db' call) (lock_of db' call)
                    (call_now call) (call_maxAttempts call) (call_lockMs call) \<and>
            invalidAttempts res = (if expired then 0 else counter_of db' call) + 1 \<and>
            lockExpiresAt res =
              (if call_maxAttempts call \<le> invalidAttempts res
               then Some (call_now call + call_lockMs call)
               else if expired then None else lock_of db' call) \<and>
            (has_row db' call \<longrightarrow>
               counter_of (fst (run_call db' call)) call = invalidAttempts res \<and>
               lock_of (fst (run_call db' call)) call = lockExpiresAt res) \<and>
            no_zero_lock (fst (run_call db' call))"
proof -
  define db' where "db' = foldl (\<lambda>d c. fst (run_call d c)) db calls"
  have n: "no_zero_lock db'" unfolding db'_def using assms(1,2) by (rule no_zero_lock_calls)
  then have z: "lock_of db' call \<noteq> Some 0" by (rule lock_of_not_zero)
  have r: "snd (run_call db' call) =
             lazy_expiry_spec (counter_of db' call) (lock_of db' call)
               (call_now call) (call_maxAttempts call) (call_lockMs call)"
    using z by (simp add: run_call_result bump_attempts_spec)
  have e: "(\<exists>l. lock_of db' call = Some l \<and> l \<le> call_now call) =
           (case lock_of db' call of None \<Rightarrow> False | Some l \<Rightarrow> call_now call \<ge> l)"
    by (cases "lock_of db' call") simp_all
  have a: "invalidAttempts (snd (run_call db' call)) =
             (if (\<exists>l. lock_of db' call = Some l \<and> l \<le> call_now call) then 0
              else counter_of db' call) + 1"
    unfolding r e by (simp add: lazy_expiry_spec_def Let_def)
  have l: "lockExpiresAt (snd (run_call db' call)) =
              (if call_maxAttempts call \<le> invalidAttempts (snd (run_call db' call))
               then Some (call_now call + call_lockMs call)
               else if (\<exists>l. lock_of db' call = Some l \<and> l \<le> call_now call) then None
               else lock_of db' call)"
    unfolding r e by (simp add: lazy_expiry_spec_def Let_def)
  have s: "has_row db' call \<longrightarrow>
               counter_of (fst (run_call db' call)) call =
                 invalidAttempts (snd (run_call db' call)) \<and>
               lock_of (fst (run_call db' call)) call =
                 lockExpiresAt (snd (run_call db' call))"
    using run_call_stored by blast
  have k: "no_zero_lock (fst (run_call db' call))"
    using n assms(3,4) by (rule no_zero_lock_run_call)
  from r a l s k show ?thesis
    unfolding Let_def db'_def [symmetric] by (intro conjI)
qed

theorem recordInvalidAttempt_lazy_expiry_witness:
  "snd (run_call
     (foldl (\<lambda>d c. fst (run_call d c)) sample_db
        [RoundCall (js ''t1'') 700000 3 900000, CodeCall (js ''guess'') 700001 3 900000,
         RoundCall (js ''t1'') 700002 3 900000, RoundCall (js ''t1'') 700003 3 900000])
     (RoundCall (js ''t1'') 1600003 3 900000)) = \<lparr> invalidAttempts = 1, lockExpiresAt = None \<rparr> \<and>
   lock_of
     (foldl (\<lambda>d c. fst (run_call d c)) sample_db
        [RoundCall (js ''t1'') 700000 3 900000, CodeCall (js ''guess'') 700001 3 900000,
         RoundCall (js ''t1'') 700002 3 900000, RoundCall (js ''t1'') 700003 3 900000])
     (RoundCall (js ''t1'') 1600003 3 900000) = Some 1600003 \<and>
   counter_of
     (foldl (\<lambda>d c. fst (run_call d c)) sample_db
        [RoundCall (js ''t1'') 700000 3 900000, CodeCall (js ''guess'') 700001 3 900000,
         RoundCall (js ''t1'') 700002 3 900000, RoundCall (js ''t1'') 700003 3 900000])
     (RoundCall (js ''t1'') 1600003 3 900000) = 3"
proof -
  let ?calls = "[RoundCall (js ''t1'') 700000 3 900000, CodeCall (js ''guess'') 700001 3 900000,
         RoundCall (js ''t1'') 700002 3 900000, RoundCall (js ''t1'') 700003 3 900000]"
  let ?db = "foldl (\<lambda>d c. fst (run_call d c)) sample_db ?calls"
  let ?call = "RoundCall (js ''t1'') 1600003 3 900000"
  have z: "no_zero_lock sample_db"
    by (simp add: no_zero_lock_def sample_db_def sample_round_def empty_db_def)
  have c: "\<forall>c \<in> set ?calls. 0 < call_now c \<and> 0 \<le> call_lockMs c" by simp
  have s: "lock_of ?db ?call = Some 1600003 \<and> counter_of ?db ?call = 3"
    by (simp add: recordInvalidAttempt_def recordInvalidClaimCodeAttempt_def getTrivia_def
        getClaimAttemptByCode_def sample_db_def sample_round_def empty_db_def bump_attempts_def
        lock_expired_def Let_def)
  from recordInvalidAttempt_lazy_expiry [OF z c, of ?call, unfolded Let_def] s
  show ?thesis by (simp add: lazy_expiry_spec_def Let_def)
qed

text \<open>
  A lock of 0, which the theorem leaves out, is the one stored value at which the
  recorders do not follow the rule: the test \<^verbatim>\<open>lockExpiresAt && now >= lockExpiresAt\<close>
  takes the number 0 for no lock. A call at time 0 with a lock window of 0 stores such
  a lock; the next call keeps the old count, where the rule resets it.
\<close>

lemma recordInvalidAttempt_at_lock_zero:
  "fst (recordInvalidAttempt sample_db (js ''t1'') 0 1 0) =
     sample_db\<lparr>trivia_rewards := [sample_round\<lparr>invalid_attempts := 1, lock_expires_at := Some 0\<rparr>]\<rparr> \<and>
   snd (recordInvalidAttempt (fst (recordInvalidAttempt sample_db (js ''t1'') 0 1 0))
          (js ''t1'') 5 3 900000) = \<lparr> invalidAttempts = 2, lockExpiresAt = Some 0 \<rparr> \<and>
   lazy_expiry_spec 1 (Some 0) 5 3 900000 = \<lparr> invalidAttempts = 1, lockExpiresAt = None \<rparr> \<and>
   snd (recordInvalidClaimCodeAttempt
          (fst (recordInvalidClaimCodeAttempt empty_db (js ''guess'') 0 1 0))
          (js ''guess'') 5 3 900000) = \<lparr> invalidAttempts = 2, lockExpiresAt = Some 0 \<rparr>"
proof (intro conjI)
  show a: "fst (recordInvalidAttempt sample_db (js ''t1'') 0 1 0) =
     sample_db\<lparr>trivia_rewards := [sample_round\<lparr>invalid_attempts := 1, lock_expires_at := Some 0\<rparr>]\<rparr>"
    by (simp add: recordInvalidAttempt_def getTrivia_def sample_db_def sample_round_def empty_db_def
        bump_attempts_def lock_expired_def Let_def)
  show "snd (recordInvalidAttempt (fst (recordInvalidAttempt sample_db (js ''t1'') 0 1 0))
          (js ''t1'') 5 3 900000) = \<lparr> invalidAttempts = 2, lockExpiresAt = Some 0 \<rparr>"
    unfolding a
    by (simp add: recordInvalidAttempt_def getTrivia_def sample_db_def sample_round_def empty_db_def
        bump_attempts_def lock_expired_def Let_def)
  show "lazy_expiry_spec 1 (Some 0) 5 3 900000 = \<lparr> invalidAttempts = 1, lockExpiresAt = None \<rparr>"
    by (simp add: lazy_expiry_spec_def Let_def)
  show "snd (recordInvalidClaimCodeAttempt
          (fst (recordInvalidClaimCodeAttempt empty_db (js ''guess'') 0 1 0))
          (js ''guess'') 5 3 900000) = \<lparr> invalidAttempts = 2, lockExpiresAt = Some 0 \<rparr>"
    by (simp add: recordInvalidClaimCodeAttempt_def getClaimAttemptByCode_def empty_db_def
        bump_attempts_def lock_expired_def Let_def)
qed

section \<open>Properties of reply collection\<close>


lemma collectReplies_single:
  "collectReplies B [raw] tweetId triviaId correctAnswers createdAt closesAt clock =
     (case scoreReply B tweetId triviaId correctAnswers createdAt closesAt (clock 0) raw of
        None \<Rightarrow> [] | Some reply \<Rightarrow> [reply])"
  by (simp add: collectReplies_def)

lemma collect_from_set:
  "reply \<in> set (collect_from B tweetId triviaId correctAnswers createdAt closesAt clock i raws) \<longleftrightarrow>
   (\<exists>k < length raws.
      scoreReply B tweetId triviaId correctAnswers createdAt closesAt (clock (i + k)) (raws ! k)
        = Some reply)"
proof (induction raws arbitrary: i)
  case Nil
  then show ?case by simp
next
  case (Cons raw raws)
  have "(\<exists>k < Suc (length raws). P k) \<longleftrightarrow> P 0 \<or> (\<exists>k < length raws. P (Suc k))" for P
    by (metis less_Suc_eq_0_disj)
  then show ?case using Cons.IH [of "Suc i"] by (auto split: option.splits)
qed




section \<open>Properties of the administrative routes\<close>

lemma requireAdmin_cases:
  "requireAdmin env req = (True, None) \<or> requireAdmin env req = (False, Some unauthorized)"
  by (simp add: requireAdmin_def Let_def)

lemma requireAdmin_pass:
  "fst (requireAdmin env req) \<longleftrightarrow>
     (\<exists>tok. TRIVIA_ADMIN_TOKEN env = Some tok \<and> tok \<noteq> [] \<and> extractBearerToken req = tok)"
  by (cases "TRIVIA_ADMIN_TOKEN env") (auto simp: requireAdmin_def Let_def or_empty_def)

lemma extractBearerToken_missing:
  "\<not> js_truthy (authorization req) \<Longrightarrow> \<not> js_truthy (Authorization req) \<Longrightarrow>
   extractBearerToken req = []"
  by (simp add: extractBearerToken_def js_def)

text \<open>
  Claim C5. A request passes \<^verbatim>\<open>requireAdmin\<close> exactly when a secret is configured and
  the bearer credential of the request equals it. Every other request, whether its
  credential is missing or differs from the secret, gets the one response
  \<open>unauthorized\<close> (status 401), and both administrative routes answer it with that
  response and leave the server state as it was.
\<close>

theorem requireAdmin_spec:
  "(fst (requireAdmin env req) \<longleftrightarrow>
      (\<exists>tok. TRIVIA_ADMIN_TOKEN env = Some tok \<and> tok \<noteq> [] \<and> extractBearerToken req = tok)) \<and>
   (\<not> js_truthy (authorization req) \<and> \<not> js_truthy (Authorization req) \<longrightarrow>
      requireAdmin env req = (False, Some unauthorized)) \<and>
   (Some (extractBearerToken req) \<noteq> TRIVIA_ADMIN_TOKEN env \<longrightarrow>
      requireAdmin env req = (False, Some unauthorized)) \<and>
   (\<not> fst (requireAdmin env creq) \<longrightarrow> create_route B env tnow st creq = (st, unauthorized)) \<and>
   (\<not> fst (requireAdmin env kreq) \<longrightarrow> close_route B env w st kreq = (st, unauthorized))"
proof (intro conjI impI)
  show "fst (requireAdmin env req) \<longleftrightarrow>
      (\<exists>tok. TRIVIA_ADMIN_TOKEN env = Some tok \<and> tok \<noteq> [] \<and> extractBearerToken req = tok)"
    by (rule requireAdmin_pass)
  show "requireAdmin env req = (False, Some unauthorized)"
    if "\<not> js_truthy (authorization req) \<and> \<not> js_truthy (Authorization req)"
  proof -
    from that have "extractBearerToken req = []" by (simp add: extractBearerToken_missing)
    then have "\<not> fst (requireAdmin env req)" by (simp add: requireAdmin_pass)
    with requireAdmin_cases [of env req] show ?thesis by auto
  qed
  show "requireAdmin env req = (False, Some unauthorized)"
    if "Some (extractBearerToken req) \<noteq> TRIVIA_ADMIN_TOKEN env"
    using that by (simp add: requireAdmin_def Let_def)
  show "create_route B env tnow st creq = (st, unauthorized)" if "\<not> fst (requireAdmin env creq)"
    using that by (simp add: create_route_def)
  show "close_route B env w st kreq = (st, unauthorized)" if "\<not> fst (requireAdmin env kreq)"
    using that by (simp add: close_route_def)
qed

lemma bearer_good: "extractBearerToken (request_with (JStr (js ''Bearer s3cret''))) = js ''s3cret''"
  by code_simp

lemma bearer_bad: "extractBearerToken close_req_guess = js ''guess''"
  by code_simp

theorem requireAdmin_spec_witness:
  "requireAdmin sample_env (request_with (JStr (js ''Bearer s3cret''))) = (True, None) \<and>
   requireAdmin sample_env (request_with JUndefined) = (False, Some unauthorized) \<and>
   requireAdmin sample_env close_req_guess = (False, Some unauthorized) \<and>
   create_route latin1_builtins sample_env 5 sample_server create_req_noauth
     = (sample_server, unauthorized) \<and>
   close_route latin1_builtins sample_env sample_world sample_server close_req_guess
     = (sample_server, unauthorized)"
proof -
  let ?good = "request_with (JStr (js ''Bearer s3cret''))"
  let ?none = "request_with JUndefined"
  have tok: "TRIVIA_ADMIN_TOKEN sample_env = Some (js ''s3cret'')" by (simp add: sample_env_def)
  have ne: "js ''s3cret'' \<noteq> []" by (simp add: js_def)
  have neq: "js ''guess'' \<noteq> js ''s3cret''" by (simp add: js_def)
  have cn: "\<not> js_truthy (authorization create_req_noauth) \<and>
            \<not> js_truthy (Authorization create_req_noauth)"
    by (simp add: create_req_noauth_def)
  note s1 = requireAdmin_spec [of sample_env ?good create_req_noauth latin1_builtins 5
      sample_server close_req_guess sample_world]
  note s2 = requireAdmin_spec [of sample_env ?none create_req_noauth latin1_builtins 5
      sample_server close_req_guess sample_world]
  note s3 = requireAdmin_spec [of sample_env close_req_guess create_req_noauth latin1_builtins 5
      sample_server close_req_guess sample_world]
  note s4 = requireAdmin_spec [of sample_env create_req_noauth create_req_noauth latin1_builtins 5
      sample_server close_req_guess sample_world]
  from s1 [THEN conjunct1] tok ne bearer_good have "fst (requireAdmin sample_env ?good)" by simp
  with requireAdmin_cases [of sample_env ?good] have a: "requireAdmin sample_env ?good = (True, None)"
    by auto
  from s2 [THEN conjunct2, THEN conjunct1]
  have b: "requireAdmin sample_env ?none = (False, Some unauthorized)"
    by (simp add: request_with_def)
  from s3 [THEN conjunct2, THEN conjunct2, THEN conjunct1] tok bearer_bad neq
  have c: "requireAdmin sample_env close_req_guess = (False, Some unauthorized)" by simp
  from s4 [THEN conjunct2, THEN conjunct1] cn
  have "\<not> fst (requireAdmin sample_env create_req_noauth)" by simp
  with s1 [THEN conjunct2, THEN conjunct2, THEN conjunct2, THEN conjunct1]
  have d: "create_route latin1_builtins sample_env 5 sample_server create_req_noauth =
             (sample_server, unauthorized)"
    by simp
  from c have "\<not> fst (requireAdmin sample_env close_req_guess)" by simp
  with s1 [THEN conjunct2, THEN conjunct2, THEN conjunct2, THEN conjunct2]
  have e: "close_route latin1_builtins sample_env sample_world sample_server close_req_guess =
             (sample_server, unauthorized)"
    by simp
  show ?thesis by (intro conjI) (rule a b c d e)+
qed

section \<open>Properties of the close route\<close>

lemma find_map_same:
  "(\<And>x. P (f x) = P x) \<Longrightarrow> find P (map f xs) = map_option f (find P xs)"
  by (induction xs) simp_all

lemma find_by_key:
  "k \<in> f ` set xs \<Longrightarrow> \<exists>y. find (\<lambda>r. f r = k) xs = Some y \<and> f y = k \<and> y \<in> set xs"
  by (induction xs) auto

lemma set_participantIds_of:
  "set (participantIds_of rs) = r_twitter_user_id ` set rs"
  by (simp add: participantIds_of_def)

lemma participantIds_of_sorted: "sorted (participantIds_of rs) \<and> distinct (participantIds_of rs)"
  by (simp add: participantIds_of_def)

lemma getTrivia_id: "getTrivia db t = Some r \<Longrightarrow> trivia_id r = t"
  by (auto simp: getTrivia_def find_Some_iff)

lemma getTrivia_closeTrivia:
  "getTrivia db t = Some r \<Longrightarrow>
   getTrivia (closeTrivia db t h s wu wt cc ce) t =
     Some (r\<lparr> status := Closed, block_height := Some h, seed := Some s,
              winner_twitter_user_id := wu, winner_tweet_id := wt, claim_code := cc,
              claim_expires_at := ce \<rparr>)"
proof -
  assume g: "getTrivia db t = Some r"
  let ?f = "\<lambda>r. if trivia_id r = t
        then r\<lparr> status := Closed, block_height := Some h, seed := Some s,
                winner_twitter_user_id := wu, winner_tweet_id := wt, claim_code := cc,
                claim_expires_at := ce \<rparr>
        else r"
  have "find (\<lambda>x. trivia_id x = t) (map ?f (trivia_rewards db)) =
          map_option ?f (find (\<lambda>x. trivia_id x = t) (trivia_rewards db))"
    by (rule find_map_same) simp
  with g getTrivia_id [OF g] show ?thesis by (simp add: getTrivia_def closeTrivia_def)
qed

lemma getTrivia_addReplies: "getTrivia (addReplies db rs) t = getTrivia db t"
  by (simp add: getTrivia_def addReplies_def)

lemma array_at_index: "i < length xs \<Longrightarrow> array_at xs (Finite (of_nat i)) = Some (xs ! i)"
  by simp

lemma pick_index:
  assumes "ids \<noteq> []" "length ids \<le> 2 ^ 53"
  shows "\<exists>i < length ids.
           deterministicPick sd (Finite (of_nat (length ids))) = Some (Finite (of_nat i)) \<and>
           int i = be_int (sha256 (utf8_encode sd)) mod int (length ids)"
proof -
  let ?n = "int (length ids)"
  let ?v = "be_int (sha256 (utf8_encode sd)) mod ?n"
  from assms have pos: "0 < ?n" by simp
  from assms(2) have "?n \<le> int (2 ^ 53)" by (simp only: of_nat_le_iff)
  then have le: "?n \<le> 2 ^ 53" by simp
  from pos le have "deterministicPick sd (Finite (of_int ?n)) = Some (Finite (of_int ?v))"
    by (rule deterministicPick_pos)
  then have p: "deterministicPick sd (Finite (of_nat (length ids))) = Some (Finite (of_int ?v))"
    by simp
  from pos have v: "0 \<le> ?v" "?v < ?n" by simp_all
  then have n: "nat ?v < length ids" "int (nat ?v) = ?v" by simp_all
  have "(of_int ?v :: rat) = of_nat (nat ?v)"
    by (rule of_nat_nat [symmetric]) (rule v(1))
  with p n show ?thesis by metis
qed

lemma join_comma_concat: "join_comma ids = tl (concat (map (\<lambda>x. js '','' @ x) ids))"
  by (induction ids rule: join_comma.induct) (simp_all add: js_def)

lemma set_listCorrectReplies:
  "set (listCorrectReplies db t) =
     {r \<in> set (trivia_replies db). r_trivia_id r = t \<and> r_is_correct r = 1}"
  by (auto simp: listCorrectReplies_def)

lemma sorted_listCorrectReplies: "sorted (map r_created_at (listCorrectReplies db t))"
  by (simp add: listCorrectReplies_def)

lemma find_sorted_least:
  "sorted (map f xs) \<Longrightarrow> find P xs = Some y \<Longrightarrow> z \<in> set xs \<Longrightarrow> P z \<Longrightarrow> f y \<le> f z"
  by (induction xs) (auto split: if_splits)

lemma length_collect_from:
  "length (collect_from B tw t ca c0 c1 clock i raws) \<le> length raws"
  by (induction raws arbitrary: i) (simp_all split: option.splits add: le_SucI)

lemma length_insert_replies:
  "length (foldl insert_reply rows rs) \<le> length rows + length rs"
proof (induction rs arbitrary: rows)
  case Nil
  then show ?case by simp
next
  case (Cons r rs)
  have "length (insert_reply rows r) \<le> Suc (length rows)" by (simp add: insert_reply_def)
  with Cons [of "insert_reply rows r"] show ?case by simp
qed

lemma length_participantIds_of:
  "length (participantIds_of (listCorrectReplies (addReplies db rs) t))
     \<le> length (trivia_replies db) + length rs"
proof -
  have "length (participantIds_of (listCorrectReplies (addReplies db rs) t))
          \<le> length (listCorrectReplies (addReplies db rs) t)"
    using length_remdups_leq [of "map r_twitter_user_id (listCorrectReplies (addReplies db rs) t)"]
    by (simp add: participantIds_of_def)
  also have "\<dots> \<le> length (trivia_replies (addReplies db rs))"
    by (simp add: listCorrectReplies_def)
  also have "\<dots> \<le> length (trivia_replies db) + length rs"
    by (simp add: addReplies_def length_insert_replies)
  finally show ?thesis .
qed

text \<open>
  Claim C9. A close request that passes the checks of the route (authorised, the round
  exists, is open and past its window, the runtime, the Twitter client, the salt and
  the block height are there) adds the collected replies to the store. The eligible
  replies are the rows of the store that belong to this round and are marked correct;
  the ids are the authors of the eligible replies, each once, in ascending order. With
  no such id the round is closed with no winner and no claim code. Otherwise the seed
  is the salt, the round id, the post id and the ids joined by commas, separated by
  colons; the index is the SHA-256 digest of the seed modulo the number of ids, which
  is what the selector returns; the winner is the id at that index, with the earliest
  eligible reply of that author; and the round is closed with that winner, the
  hexadecimal form of the random bytes as claim code, and an expiry \<open>CLAIM_TTL_MS\<close>
  after the clock reading. The rows of the store and the replies fetched are together
  at most \<open>2 ^ 53\<close>, so that the number of ids is a count that a double holds exactly.
\<close>

theorem close_route_selects_winner:
  assumes "fst (requireAdmin env req)"
    and "k_triviaId req = Some t" and "t \<noteq> []"
    and "getTrivia (store st) t = Some trivia" and "status trivia = Open"
    and "closes_at trivia \<le> w_now w"
    and "w_runtime w" and "w_twitterManager w"
    and "w_tweets w = Some rawTweets" and "w_blockHeight w = Some h"
    and "TRIVIA_SALT env = Some salt" and "salt \<noteq> []"
    and "length (trivia_replies (store st)) + length rawTweets \<le> 2 ^ 53"
  shows "let db1 = addReplies (store st)
                     (collectReplies B rawTweets (tweet_id trivia) t (correct_answers trivia)
                        (created_at trivia) (closes_at trivia) (w_clock w));
             eligible = {r \<in> set (trivia_replies db1). r_trivia_id r = t \<and> r_is_correct r = 1};
             ids = participantIds_of (listCorrectReplies db1 t);
             sd = salt @ js '':'' @ t @ js '':'' @ tweet_id trivia @ js '':'' @
                    tl (concat (map (\<lambda>x. js '','' @ x) ids));
             st' = fst (close_route B env w st req)
         in sorted ids \<and> distinct ids \<and> set ids = r_twitter_user_id ` eligible \<and>
            (ids = [] \<longrightarrow>
               store st' = closeTrivia db1 t h sd None None None None \<and>
               getTrivia (store st') t =
                 Some (trivia\<lparr> status := Closed, block_height := Some h, seed := Some sd,
                         winner_twitter_user_id := None, winner_tweet_id := None,
                         claim_code := None, claim_expires_at := None \<rparr>)) \<and>
            (ids \<noteq> [] \<longrightarrow>
               (\<exists>i winner. i < length ids \<and>
                  int i = be_int (sha256 (utf8_encode sd)) mod int (length ids) \<and>
                  deterministicPick sd (Finite (of_nat (length ids))) = Some (Finite (of_nat i)) \<and>
                  winner \<in> eligible \<and> r_twitter_user_id winner = ids ! i \<and>
                  (\<forall>r \<in> eligible. r_twitter_user_id r = ids ! i \<longrightarrow>
                     r_created_at winner \<le> r_created_at r) \<and>
                  store st' = closeTrivia db1 t h sd (Some (ids ! i)) (Some (r_tweet_id winner))
                                (Some (to_hex (w_randomBytes w)))
                                (Some (w_expiry_now w + CLAIM_TTL_MS)) \<and>
                  getTrivia (store st') t =
                    Some (trivia\<lparr> status := Closed, block_height := Some h, seed := Some sd,
                            winner_twitter_user_id := Some (ids ! i),
                            winner_tweet_id := Some (r_tweet_id winner),
                            claim_code := Some (to_hex (w_randomBytes w)),
                            claim_expires_at := Some (w_expiry_now w + CLAIM_TTL_MS) \<rparr>)))"
proof -
  define replies where "replies = collectReplies B rawTweets (tweet_id trivia) t
                        (correct_answers trivia) (created_at trivia) (closes_at trivia) (w_clock w)"
  define db1 where "db1 = addReplies (store st) replies"
  define eligible where
    "eligible = {r \<in> set (trivia_replies db1). r_trivia_id r = t \<and> r_is_correct r = 1}"
  define correct where "correct = listCorrectReplies db1 t"
  define ids where "ids = participantIds_of correct"
  define sd where "sd = salt @ js '':'' @ t @ js '':'' @ tweet_id trivia @ js '':'' @
                    tl (concat (map (\<lambda>x. js '','' @ x) ids))"
  define st' where "st' = fst (close_route B env w st req)"
  have sel: "selection_seed salt t (tweet_id trivia) ids = sd"
    by (simp add: selection_seed_def sd_def join_comma_concat)
  have tid: "trivia_id trivia = t" using assms(4) by (rule getTrivia_id)
  have g1: "getTrivia db1 t = Some trivia"
    using assms(4) by (simp add: db1_def getTrivia_addReplies)
  have el: "set correct = eligible"
    by (simp add: correct_def eligible_def set_listCorrectReplies)
  have "length replies \<le> length rawTweets"
    by (simp add: replies_def collectReplies_def length_collect_from)
  moreover have "length ids \<le> length (trivia_replies (store st)) + length replies"
    unfolding ids_def correct_def db1_def by (rule length_participantIds_of)
  ultimately have bound: "length ids \<le> 2 ^ 53" using assms(13) by simp
  have empty: "store st' = closeTrivia db1 t h sd None None None None" if "ids = []"
  proof -
    from that sel have "selection_seed salt t (tweet_id trivia) [] = sd" by simp
    with that assms tid show ?thesis unfolding st'_def close_route_def
      by (simp add: or_empty_def Let_def replies_def [symmetric] db1_def [symmetric]
          correct_def [symmetric] ids_def [symmetric])
  qed
  have pick: "\<exists>i winner. i < length ids \<and>
                  int i = be_int (sha256 (utf8_encode sd)) mod int (length ids) \<and>
                  deterministicPick sd (Finite (of_nat (length ids))) = Some (Finite (of_nat i)) \<and>
                  winner \<in> eligible \<and> r_twitter_user_id winner = ids ! i \<and>
                  (\<forall>r \<in> eligible. r_twitter_user_id r = ids ! i \<longrightarrow>
                     r_created_at winner \<le> r_created_at r) \<and>
                  store st' = closeTrivia db1 t h sd (Some (ids ! i)) (Some (r_tweet_id winner))
                                (Some (to_hex (w_randomBytes w)))
                                (Some (w_expiry_now w + CLAIM_TTL_MS))" if ne: "ids \<noteq> []"
  proof -
    from pick_index [OF ne bound] obtain i where i: "i < length ids"
      "deterministicPick sd (Finite (of_nat (length ids))) = Some (Finite (of_nat i))"
      "int i = be_int (sha256 (utf8_encode sd)) mod int (length ids)" by blast
    from i(1) have at: "array_at ids (Finite (of_nat i)) = Some (ids ! i)"
      by (rule array_at_index)
    from i(1) have "ids ! i \<in> r_twitter_user_id ` set correct"
      using set_participantIds_of [of correct] by (simp add: ids_def [symmetric]) (metis nth_mem)
    from find_by_key [OF this] obtain winner where
      win: "find (\<lambda>r. r_twitter_user_id r = ids ! i) correct = Some winner"
        "r_twitter_user_id winner = ids ! i" "winner \<in> set correct" by blast
    have least: "\<forall>r \<in> eligible. r_twitter_user_id r = ids ! i \<longrightarrow>
                     r_created_at winner \<le> r_created_at r"
    proof (intro ballI impI)
      fix r assume "r \<in> eligible" "r_twitter_user_id r = ids ! i"
      with el have "r \<in> set correct" by simp
      from find_sorted_least [OF _ win(1) this \<open>r_twitter_user_id r = ids ! i\<close>,
          of r_created_at]
      show "r_created_at winner \<le> r_created_at r"
        by (simp add: correct_def sorted_listCorrectReplies)
    qed
    have "store st' = closeTrivia db1 t h sd (Some (ids ! i)) (Some (r_tweet_id winner))
                                (Some (to_hex (w_randomBytes w)))
                                (Some (w_expiry_now w + CLAIM_TTL_MS))"
      using ne i(2) at win(1,2) assms(1-12) tid sel unfolding st'_def close_route_def
      by (simp add: or_empty_def Let_def replies_def [symmetric] db1_def [symmetric]
          correct_def [symmetric] ids_def [symmetric])
    with i win el least show ?thesis by blast
  qed
  have a: "sorted ids \<and> distinct ids \<and> set ids = r_twitter_user_id ` eligible"
    using participantIds_of_sorted [of correct] set_participantIds_of [of correct] el
    by (simp add: ids_def)
  have b: "ids = [] \<longrightarrow>
               store st' = closeTrivia db1 t h sd None None None None \<and>
               getTrivia (store st') t =
                 Some (trivia\<lparr> status := Closed, block_height := Some h, seed := Some sd,
                         winner_twitter_user_id := None, winner_tweet_id := None,
                         claim_code := None, claim_expires_at := None \<rparr>)"
    using empty g1 by (simp add: getTrivia_closeTrivia)
  have c: "ids \<noteq> [] \<longrightarrow>
               (\<exists>i winner. i < length ids \<and>
                  int i = be_int (sha256 (utf8_encode sd)) mod int (length ids) \<and>
                  deterministicPick sd (Finite (of_nat (length ids))) = Some (Finite (of_nat i)) \<and>
                  winner \<in> eligible \<and> r_twitter_user_id winner = ids ! i \<and>
                  (\<forall>r \<in> eligible. r_twitter_user_id r = ids ! i \<longrightarrow>
                     r_created_at winner \<le> r_created_at r) \<and>
                  store st' = closeTrivia db1 t h sd (Some (ids ! i)) (Some (r_tweet_id winner))
                                (Some (to_hex (w_randomBytes w)))
                                (Some (w_expiry_now w + CLAIM_TTL_MS)) \<and>
                  getTrivia (store st') t =
                    Some (trivia\<lparr> status := Closed, block_height := Some h, seed := Some sd,
                            winner_twitter_user_id := Some (ids ! i),
                            winner_tweet_id := Some (r_tweet_id winner),
                            claim_code := Some (to_hex (w_randomBytes w)),
                            claim_expires_at := Some (w_expiry_now w + CLAIM_TTL_MS) \<rparr>))"
  proof
    assume "ids \<noteq> []"
    from pick [OF this] obtain i winner where x: "i < length ids"
      "int i = be_int (sha256 (utf8_encode sd)) mod int (length ids)"
      "deterministicPick sd (Finite (of_nat (length ids))) = Some (Finite (of_nat i))"
      "winner \<in> eligible" "r_twitter_user_id winner = ids ! i"
      "\<forall>r \<in> eligible. r_twitter_user_id r = ids ! i \<longrightarrow> r_created_at winner \<le> r_created_at r"
      "store st' = closeTrivia db1 t h sd (Some (ids ! i)) (Some (r_tweet_id winner))
                                (Some (to_hex (w_randomBytes w)))
                                (Some (w_expiry_now w + CLAIM_TTL_MS))" by blast
    from x(7) g1 have y: "getTrivia (store st') t =
                    Some (trivia\<lparr> status := Closed, block_height := Some h, seed := Some sd,
                            winner_twitter_user_id := Some (ids ! i),
                            winner_tweet_id := Some (r_tweet_id winner),
                            claim_code := Some (to_hex (w_randomBytes w)),
                            claim_expires_at := Some (w_expiry_now w + CLAIM_TTL_MS) \<rparr>)"
      by (simp add: getTrivia_closeTrivia)
    show "\<exists>i winner. i < length ids \<and>
                  int i = be_int (sha256 (utf8_encode sd)) mod int (length ids) \<and>
                  deterministicPick sd (Finite (of_nat (length ids))) = Some (Finite (of_nat i)) \<and>
                  winner \<in> eligible \<and> r_twitter_user_id winner = ids ! i \<and>
                  (\<forall>r \<in> eligible. r_twitter_user_id r = ids ! i \<longrightarrow>
                     r_created_at winner \<le> r_created_at r) \<and>
                  store st' = closeTrivia db1 t h sd (Some (ids ! i)) (Some (r_tweet_id winner))
                                (Some (to_hex (w_randomBytes w)))
                                (Some (w_expiry_now w + CLAIM_TTL_MS)) \<and>
                  getTrivia (store st') t =
                    Some (trivia\<lparr> status := Closed, block_height := Some h, seed := Some sd,
                            winner_twitter_user_id := Some (ids ! i),
                            winner_tweet_id := Some (r_tweet_id winner),
                            claim_code := Some (to_hex (w_randomBytes w)),
                            claim_expires_at := Some (w_expiry_now w + CLAIM_TTL_MS) \<rparr>)"
      by (intro exI [of _ i] exI [of _ winner] conjI) (rule x y)+
  qed
  from a b c show ?thesis
    unfolding Let_def replies_def [symmetric] db1_def [symmetric] eligible_def [symmetric]
      correct_def [symmetric] ids_def [symmetric] sd_def [symmetric] st'_def [symmetric]
    by blast
qed

lemma crowd_rows:
  "map (\<lambda>r. (r_tweet_id r, r_twitter_user_id r, r_trivia_id r, r_is_correct r, r_created_at r))
     (trivia_replies (addReplies (store open_server)
        (collectReplies latin1_builtins
           [raw_late, raw_paris, raw_london, raw_no_id, raw_epoch, raw_early]
           (tweet_id open_round) (js ''t1'') (correct_answers open_round) (created_at open_round)
           (closes_at open_round) (w_clock crowd_world)))) =
   [(js ''109'', js ''u8'', js ''t1'', 1, 450000), (js ''101'', js ''u1'', js ''t1'', 1, 500000),
    (js ''105'', js ''u4'', js ''t1'', 0, 420000), (js ''103'', js ''u3'', js ''t1'', 1, 0),
    (js ''108'', js ''u8'', js ''t1'', 1, 400000)]"
  by code_simp

lemma crowd_ids:
  "participantIds_of (listCorrectReplies
     (addReplies (store open_server)
        (collectReplies latin1_builtins
           [raw_late, raw_paris, raw_london, raw_no_id, raw_epoch, raw_early]
           (tweet_id open_round) (js ''t1'') (correct_answers open_round) (created_at open_round)
           (closes_at open_round) (w_clock crowd_world)))
     (js ''t1'')) = [js ''u1'', js ''u3'', js ''u8'']"
  by code_simp

lemma crowd_seed:
  "js ''salt'' @ js '':'' @ js ''t1'' @ js '':'' @ tweet_id open_round @ js '':'' @
     tl (concat (map (\<lambda>x. js '','' @ x) [js ''u1'', js ''u3'', js ''u8''])) =
   js ''salt:t1:100:u1,u3,u8''"
  by (simp add: js_def open_round_def sample_round_def)

lemma crowd_digest:
  "sha256_hex (js ''salt:t1:100:u1,u3,u8'') =
     js ''e35a510e2a72bb211b597d740f0d13c904bdd28159befc202d0a14f0ad31f121''"
  by code_simp

lemma crowd_index: "be_int (sha256 (utf8_encode (js ''salt:t1:100:u1,u3,u8''))) mod 3 = 2"
proof -
  let ?d = "sha256 (utf8_encode (js ''salt:t1:100:u1,u3,u8''))"
  have "?d \<noteq> []" using sha256_length [of "utf8_encode (js ''salt:t1:100:u1,u3,u8'')"] by auto
  then have "BigInt_hex (js ''0x'' @ sha256_hex (js ''salt:t1:100:u1,u3,u8'')) = Some (be_int ?d)"
    by (simp add: sha256_hex_def BigInt_hex_to_hex)
  then have "be_int ?d = 0xE35A510E2A72BB211B597D740F0D13C904BDD28159BEFC202D0A14F0AD31F121"
    by (simp add: crowd_digest) (simp add: js_def hex_digit_value_def)
  then show ?thesis by simp
qed

lemma crowd_winner_tweet:
  fixes rows :: "TriviaReplyRecord list"
  assumes rows: "map (\<lambda>r. (r_tweet_id r, r_twitter_user_id r, r_trivia_id r, r_is_correct r, r_created_at r)) rows =
   [(js ''109'', js ''u8'', js ''t1'', 1, 450000), (js ''101'', js ''u1'', js ''t1'', 1, 500000),
    (js ''105'', js ''u4'', js ''t1'', 0, 420000), (js ''103'', js ''u3'', js ''t1'', 1, 0),
    (js ''108'', js ''u8'', js ''t1'', 1, 400000)]"
    and w: "winner \<in> {r \<in> set rows. r_trivia_id r = js ''t1'' \<and> r_is_correct r = 1}"
      "r_twitter_user_id winner = js ''u8''"
      "\<forall>r \<in> {r \<in> set rows. r_trivia_id r = js ''t1'' \<and> r_is_correct r = 1}.
          r_twitter_user_id r = js ''u8'' \<longrightarrow> r_created_at winner \<le> r_created_at r"
  shows "r_tweet_id winner = js ''108''"
proof -
  let ?f = "\<lambda>r. (r_tweet_id r, r_twitter_user_id r, r_trivia_id r, r_is_correct r, r_created_at r)"
  have "(js ''108'', js ''u8'', js ''t1'', 1, 400000) \<in> set (map ?f rows)"
    unfolding rows by simp
  then obtain r where r: "r \<in> set rows" "?f r = (js ''108'', js ''u8'', js ''t1'', 1, 400000)"
    by auto
  with w(3) have le: "r_created_at winner \<le> 400000" by auto
  from w(1) have "?f winner \<in> set (map ?f rows)" by auto
  then have "?f winner \<in> {(js ''109'', js ''u8'', js ''t1'', 1, 450000), (js ''101'', js ''u1'', js ''t1'', 1, 500000),
    (js ''105'', js ''u4'', js ''t1'', 0, 420000), (js ''103'', js ''u3'', js ''t1'', 1, 0),
    (js ''108'', js ''u8'', js ''t1'', 1, 400000)}" unfolding rows by simp
  with le w(2) show ?thesis by (auto simp: js_def)
qed

lemma bearer_admin: "extractBearerToken close_req_admin = js ''s3cret''"
  by code_simp

theorem close_route_selects_winner_witness:
  "\<exists>r. getTrivia (store (fst (close_route latin1_builtins sample_env crowd_world open_server
                close_req_admin))) (js ''t1'') = Some r \<and>
       status r = Closed \<and> seed r = Some (js ''salt:t1:100:u1,u3,u8'') \<and>
       be_int (sha256 (utf8_encode (js ''salt:t1:100:u1,u3,u8''))) mod 3 = 2 \<and>
       winner_twitter_user_id r = Some (js ''u8'') \<and>
       winner_tweet_id r = Some (js ''108'') \<and>
       claim_code r = Some (to_hex (w_randomBytes crowd_world)) \<and>
       claim_expires_at r = Some 4300002"
proof -
  have a: "fst (requireAdmin sample_env close_req_admin)"
    by (simp add: requireAdmin_pass bearer_admin sample_env_def js_def)
  have t: "k_triviaId close_req_admin = Some (js ''t1'')" "js ''t1'' \<noteq> []"
    by (simp_all add: close_req_admin_def js_def)
  have g: "getTrivia (store open_server) (js ''t1'') = Some open_round"
    by (simp add: getTrivia_def open_server_def open_round_def sample_round_def empty_db_def)
  have o: "status open_round = Open" "closes_at open_round \<le> w_now crowd_world"
    by (simp_all add: open_round_def sample_round_def sample_world_def crowd_world_def)
  have w: "w_runtime crowd_world" "w_twitterManager crowd_world"
    "w_tweets crowd_world = Some [raw_late, raw_paris, raw_london, raw_no_id, raw_epoch, raw_early]"
    "w_blockHeight crowd_world = Some 800000"
    by (simp_all add: sample_world_def crowd_world_def)
  have s: "TRIVIA_SALT sample_env = Some (js ''salt'')" "js ''salt'' \<noteq> []"
    by (simp_all add: sample_env_def js_def)
  have l: "length (trivia_replies (store open_server)) +
             length [raw_late, raw_paris, raw_london, raw_no_id, raw_epoch, raw_early] \<le> 2 ^ 53"
    by (simp add: open_server_def empty_db_def)
  note c = close_route_selects_winner [OF a t g o w s l, of latin1_builtins,
      unfolded Let_def crowd_ids crowd_seed]
  have ne: "[js ''u1'', js ''u3'', js ''u8''] \<noteq> ([] :: jsstring list)" by simp
  note d = c [THEN conjunct2, THEN conjunct2, THEN conjunct2, THEN conjunct2, rule_format, OF ne]
  let ?rows = "trivia_replies (addReplies (store open_server)
        (collectReplies latin1_builtins
           [raw_late, raw_paris, raw_london, raw_no_id, raw_epoch, raw_early]
           (tweet_id open_round) (js ''t1'') (correct_answers open_round) (created_at open_round)
           (closes_at open_round) (w_clock crowd_world)))"
  from d obtain i winner where i: "int i = be_int (sha256 (utf8_encode (js ''salt:t1:100:u1,u3,u8'')))
        mod int (length [js ''u1'', js ''u3'', js ''u8''])"
    and e: "winner \<in> {r \<in> set ?rows. r_trivia_id r = js ''t1'' \<and> r_is_correct r = 1}"
      "r_twitter_user_id winner = [js ''u1'', js ''u3'', js ''u8''] ! i"
      "\<forall>r \<in> {r \<in> set ?rows. r_trivia_id r = js ''t1'' \<and> r_is_correct r = 1}.
          r_twitter_user_id r = [js ''u1'', js ''u3'', js ''u8''] ! i \<longrightarrow>
          r_created_at winner \<le> r_created_at r"
    and r: "getTrivia (store (fst (close_route latin1_builtins sample_env crowd_world open_server
                close_req_admin))) (js ''t1'') =
              Some (open_round\<lparr> status := Closed, block_height := Some 800000,
                      seed := Some (js ''salt:t1:100:u1,u3,u8''),
                      winner_twitter_user_id := Some ([js ''u1'', js ''u3'', js ''u8''] ! i),
                      winner_tweet_id := Some (r_tweet_id winner),
                      claim_code := Some (to_hex (w_randomBytes crowd_world)),
                      claim_expires_at := Some (w_expiry_now crowd_world + CLAIM_TTL_MS) \<rparr>)"
    by blast
  from i have i2: "i = 2" by (simp add: crowd_index)
  have u: "[js ''u1'', js ''u3'', js ''u8''] ! 2 = js ''u8''" by simp
  have "r_tweet_id winner = js ''108''"
    using crowd_rows e unfolding i2 u by (rule crowd_winner_tweet)
  with r crowd_index show ?thesis
    unfolding i2 u by (simp add: sample_world_def crowd_world_def CLAIM_TTL_MS_def)
qed

section \<open>Properties of the claim route\<close>

lemma allowRateLimit_frame:
  "store (fst (allowRateLimit st k l t)) = store st \<and>
   sendRmz_calls (fst (allowRateLimit st k l t)) = sendRmz_calls st"
  by (simp add: allowRateLimit_def Let_def split: option.splits)

lemma getClaimByCode_clearClaimAttemptLock:
  "getClaimByCode (clearClaimAttemptLock db c t) c' = getClaimByCode db c'"
  by (simp add: getClaimByCode_def clearClaimAttemptLock_def split: option.splits)

lemma claim_gate_Inr:
  assumes "claim_gate B env w st req = Inr (st', claim, address)"
  shows "sendRmz_calls st' = sendRmz_calls st \<and>
         store st' \<in> set (cleared_variants (store st) (or_empty (c_claimCode req)) (t_clear w)
                            (trivia_id claim)) \<and>
         getClaimByCode (store st) (or_empty (c_claimCode req)) = Some claim \<and>
         address = or_empty (c_address req) \<and> \<not> truthy_time (used_at claim)"
proof -
  let ?lim = "env_number B (CLAIM_RATE_LIMIT_PER_MINUTE env) 10"
  let ?code = "or_empty (c_claimCode req)"
  obtain st0 ok0 where a0: "allowRateLimit st (js ''ip:'' @ getRequestIp req) ?lim (t_ip w) = (st0, ok0)"
    by (cases "allowRateLimit st (js ''ip:'' @ getRequestIp req) ?lim (t_ip w)")
  have f0: "store st0 = store st" "sendRmz_calls st0 = sendRmz_calls st"
    using allowRateLimit_frame [of st "js ''ip:'' @ getRequestIp req" ?lim "t_ip w"] a0 by simp_all
  define code_lock where "code_lock = (case getClaimAttemptByCode (store st0) ?code of
                               None \<Rightarrow> None | Some a \<Rightarrow> a_lock_expires_at a)"
  define st1 where "st1 = (if lock_expired code_lock (t_now w)
                            then st0\<lparr>store := clearClaimAttemptLock (store st0) ?code (t_clear w)\<rparr>
                            else st0)"
  have f1: "sendRmz_calls st1 = sendRmz_calls st"
    "store st1 = store st \<or> store st1 = clearClaimAttemptLock (store st) ?code (t_clear w)"
    using f0 by (auto simp: st1_def)
  have g1: "getClaimByCode (store st1) ?code = getClaimByCode (store st) ?code"
    using f1(2) by (auto simp: getClaimByCode_clearClaimAttemptLock)
  from assms a0 obtain c where c: "getClaimByCode (store st1) ?code = Some c"
    unfolding claim_gate_def
    by (auto simp: Let_def code_lock_def [symmetric] st1_def [symmetric] invalid_attempt_def
        split: if_splits option.splits prod.splits)
  define st2 where "st2 = (if lock_expired (lock_expires_at c) (t_now w)
                           then st1\<lparr>store := clearClaimLock (store st1) (trivia_id c)\<rparr> else st1)"
  have f2: "sendRmz_calls st2 = sendRmz_calls st"
    "store st2 \<in> set (cleared_variants (store st) ?code (t_clear w) (trivia_id c))"
    using f1 by (auto simp: st2_def cleared_variants_def)
  let ?u = "if or_empty (winner_twitter_user_id c) \<noteq> []
            then allowRateLimit st2 (js ''user:'' @ or_empty (winner_twitter_user_id c)) ?lim (t_user w)
            else (st2, True)"
  obtain st3 ok3 where a3: "?u = (st3, ok3)" by (cases ?u)
  have f3: "store st3 = store st2" "sendRmz_calls st3 = sendRmz_calls st2"
    using allowRateLimit_frame [of st2 "js ''user:'' @ or_empty (winner_twitter_user_id c)" ?lim "t_user w"] a3
    by (auto split: if_splits)
  from assms a0 c a3 have "st' = st3 \<and> claim = c \<and> address = or_empty (c_address req) \<and>
      \<not> truthy_time (used_at c)"
    unfolding claim_gate_def
    by (simp add: Let_def code_lock_def [symmetric] st1_def [symmetric] st2_def [symmetric]
        invalid_attempt_def split: if_splits prod.splits)
  with f2 f3 g1 c show ?thesis by simp
qed


lemma clearClaimLock_no_attempt: "no_attempt_recorded db (clearClaimLock db t)"
  by (simp add: no_attempt_recorded_def clearClaimLock_def list_all2_map2 list_all2_same
      split: option.splits)

lemma clearClaimAttemptLock_no_attempt: "no_attempt_recorded db (clearClaimAttemptLock db c t)"
  by (simp add: no_attempt_recorded_def clearClaimAttemptLock_def list_all2_same
      split: option.splits)

lemma no_attempt_recorded_refl: "no_attempt_recorded db db"
  by (simp add: no_attempt_recorded_def list_all2_same split: option.splits)

lemma no_attempt_recorded_both:
  "no_attempt_recorded db (clearClaimLock (clearClaimAttemptLock db c t) tid)"
  by (simp add: no_attempt_recorded_def clearClaimLock_def clearClaimAttemptLock_def
      list_all2_map2 list_all2_same split: option.splits)

lemma clear_frame:
  "trivia_payouts (clearClaimLock db tid) = trivia_payouts db"
  "daily_spend (clearClaimLock db tid) = daily_spend db"
  "trivia_payouts (clearClaimAttemptLock db c t) = trivia_payouts db"
  "daily_spend (clearClaimAttemptLock db c t) = daily_spend db"
  by (simp_all add: clearClaimLock_def clearClaimAttemptLock_def split: option.splits)

lemma cleared_variants_frame:
  assumes "db' \<in> set (cleared_variants db c t tid)"
  shows "trivia_payouts db' = trivia_payouts db \<and> daily_spend db' = daily_spend db \<and>
         no_attempt_recorded db db'"
proof -
  from assms consider "db' = db" | "db' = clearClaimAttemptLock db c t"
    | "db' = clearClaimLock db tid" | "db' = clearClaimLock (clearClaimAttemptLock db c t) tid"
    by (auto simp: cleared_variants_def)
  then show ?thesis
  proof cases
    case 1
    then show ?thesis by (simp add: no_attempt_recorded_refl)
  next
    case 2
    then show ?thesis by (simp add: clear_frame clearClaimAttemptLock_no_attempt)
  next
    case 3
    then show ?thesis by (simp add: clear_frame clearClaimLock_no_attempt)
  next
    case 4
    then show ?thesis by (simp add: clear_frame no_attempt_recorded_both)
  qed
qed

lemma cap_breached_frame:
  "trivia_payouts db' = trivia_payouts db \<Longrightarrow> daily_spend db' = daily_spend db \<Longrightarrow>
   cap_breached B env db' claim address tnow = cap_breached B env db claim address tnow"
  by (simp add: cap_breached_def getDailySpend_def countWinsForUser_def sumAddressSpend_def)

text \<open>
  Claim C8. A claim request that reaches the capacity checks and breaches one of them
  (the daily cap, the wins of the user for the day, the spend of the address for the
  day) is answered \<open>rate_limited\<close> (status 429). The payment executor is not invoked,
  the payouts and the daily totals are unchanged, and no invalid attempt is recorded:
  the store differs from the one before the request at most by an expired lockout that
  the earlier steps cleared.
\<close>

theorem claim_route_cap_breach:
  assumes "claim_gate B env w st req = Inr (st1, claim, address)"
    and "cap_breached B env (store st) claim address (t_now w)"
  shows "claim_route B env w st req = (st1, rate_limited) \<and>
         sendRmz_calls st1 = sendRmz_calls st \<and>
         trivia_payouts (store st1) = trivia_payouts (store st) \<and>
         daily_spend (store st1) = daily_spend (store st) \<and>
         no_attempt_recorded (store st) (store st1) \<and>
         store st1 \<in> set (cleared_variants (store st) (or_empty (c_claimCode req)) (t_clear w)
                            (trivia_id claim))"
proof -
  note g = claim_gate_Inr [OF assms(1)]
  then have v: "store st1 \<in> set (cleared_variants (store st) (or_empty (c_claimCode req))
                                  (t_clear w) (trivia_id claim))" by simp
  note f = cleared_variants_frame [OF v]
  from f have "cap_breached B env (store st1) claim address (t_now w) =
      cap_breached B env (store st) claim address (t_now w)"
    by (intro cap_breached_frame) simp_all
  with assms(2) have "cap_breached B env (store st1) claim address (t_now w)" by simp
  then have "claim_payout B env w st1 claim address = (st1, rate_limited)"
    by (auto simp: claim_payout_def cap_breached_def Let_def)
  with assms(1) have "claim_route B env w st req = (st1, rate_limited)"
    by (simp add: claim_route_def)
  with g f v show ?thesis by simp
qed


lemma capped_gate:
  "\<exists>st1. claim_gate latin1_builtins sample_env claim_w capped_server claim_req =
           Inr (st1, sample_round, js ''ecash:qq0000000000'')"
  by (simp add: claim_gate_def Let_def allowRateLimit_def capped_server_def claim_req_def
      claim_w_def sample_env_def env_number_def or_empty_def getRequestIp_def
      getClaimAttemptByCode_def getClaimByCode_def sample_db_def sample_round_def empty_db_def
      lock_active_def lock_expired_def truthy_time_def isValidEcashAddress_def js_def)

theorem claim_route_cap_breach_witness:
  "snd (claim_route latin1_builtins sample_env claim_w capped_server claim_req) = rate_limited \<and>
   sendRmz_calls (fst (claim_route latin1_builtins sample_env claim_w capped_server claim_req)) = [] \<and>
   trivia_payouts (store (fst (claim_route latin1_builtins sample_env claim_w capped_server
      claim_req))) = [] \<and>
   daily_spend (store (fst (claim_route latin1_builtins sample_env claim_w capped_server
      claim_req))) (toDayKey 700101) = Some 50"
proof -
  from capped_gate obtain st1 where
    g: "claim_gate latin1_builtins sample_env claim_w capped_server claim_req =
          Inr (st1, sample_round, js ''ecash:qq0000000000'')" by blast
  have b: "cap_breached latin1_builtins sample_env (store capped_server) sample_round
             (js ''ecash:qq0000000000'') (t_now claim_w)"
    by (simp add: cap_breached_def capped_server_def claim_w_def getDailySpend_def
        sample_round_def sample_env_def env_number_def or_empty_def num_gt_def)
  note c = claim_route_cap_breach [OF g b]
  from c have r: "claim_route latin1_builtins sample_env claim_w capped_server claim_req =
                    (st1, rate_limited)" by simp
  from c have "sendRmz_calls st1 = []" "trivia_payouts (store st1) = []"
    "daily_spend (store st1) (toDayKey 700101) = Some 50"
    by (simp_all add: capped_server_def sample_db_def empty_db_def)
  with r show ?thesis by simp
qed

lemma allowRateLimit_snd:
  "rateLimitBuckets st' k = rateLimitBuckets st k \<Longrightarrow>
   snd (allowRateLimit st' k l t) = snd (allowRateLimit st k l t)"
  by (simp add: allowRateLimit_def Let_def split: option.splits)

lemma allowRateLimit_other:
  "k' \<noteq> k \<Longrightarrow> rateLimitBuckets (fst (allowRateLimit st k l t)) k' = rateLimitBuckets st k'"
  by (simp add: allowRateLimit_def Let_def split: option.splits)

lemma ip_key_not_user_key: "js ''user:'' @ u \<noteq> js ''ip:'' @ i"
  by (simp add: js_def)

lemma already_paid_not_rate_limited: "already_paid claim \<noteq> rate_limited"
  by (simp add: already_paid_def rate_limited_def)

text \<open>
  Claim C6 as stated fails: on \<open>busy_server\<close> the claim code \<^verbatim>\<open>c0de\<close> resolves to a round
  that is already settled, and the request is answered with the error 429, not with the
  round's transaction id, because the winner has used up the rate limit of the minute.
\<close>

theorem claim_route_used_counterexample:
  "getClaimByCode (store busy_server) (js ''c0de'') = Some used_round \<and>
   used_at used_round = Some 690000 \<and>
   snd (claim_route latin1_builtins sample_env claim_w busy_server claim_req) =
     Response 429 (error_body ''rate_limited'') \<and>
   snd (claim_route latin1_builtins sample_env claim_w busy_server claim_req) \<noteq>
     already_paid used_round"
proof -
  have g: "getClaimByCode (store busy_server) (js ''c0de'') = Some used_round"
    by (simp add: getClaimByCode_def busy_server_def used_round_def sample_round_def empty_db_def)
  have u: "used_at used_round = Some 690000" by (simp add: used_round_def)
  have r: "snd (claim_route latin1_builtins sample_env claim_w busy_server claim_req) = rate_limited"
    by (simp add: claim_route_def claim_gate_def Let_def allowRateLimit_def busy_server_def
      claim_req_def claim_w_def sample_env_def env_number_def or_empty_def getRequestIp_def
      getClaimAttemptByCode_def getClaimByCode_def used_round_def sample_round_def empty_db_def
      lock_active_def lock_expired_def truthy_time_def num_ge_def js_def rateLimitWindowMs_def)
  from g u r already_paid_not_rate_limited [of used_round] show ?thesis
    by (simp add: rate_limited_def)
qed


text \<open>
  Claim C6, amended. A claim request that carries a claim code and an address, and whose
  code resolves to a round marked used (at a time other than 0), is answered either
  with \<open>rate_limited\<close> or with the success response \<open>already_paid\<close> that carries the
  round's stored transaction id. It is the success response exactly when neither rate
  limit (by address, by winner) refuses the request and neither lockout (of the claim
  code, of the round) is active. In both cases the payment executor is not invoked, the
  payouts and daily totals are unchanged, and no invalid attempt is recorded: the store
  changes at most by an expired lockout being cleared.
\<close>

theorem claim_route_already_paid:
  assumes "c_claimCode req = Some code" and "code \<noteq> []"
    and "c_address req = Some a" and "a \<noteq> []"
    and "getClaimByCode (store st) code = Some claim"
    and "used_at claim = Some u" and "u \<noteq> 0"
  shows "let R = claim_route B env w st req;
             lim = env_number B (CLAIM_RATE_LIMIT_PER_MINUTE env) 10;
             winner = or_empty (winner_twitter_user_id claim)
         in (snd R = rate_limited \<or> snd R = already_paid claim) \<and>
            (snd R = already_paid claim \<longleftrightarrow>
               snd (allowRateLimit st (js ''ip:'' @ getRequestIp req) lim (t_ip w)) \<and>
               \<not> lock_active (case getClaimAttemptByCode (store st) code of
                                 None \<Rightarrow> None | Some x \<Rightarrow> a_lock_expires_at x) (t_now w) \<and>
               \<not> lock_active (lock_expires_at claim) (t_now w) \<and>
               (winner \<noteq> [] \<longrightarrow>
                  snd (allowRateLimit st (js ''user:'' @ winner) lim (t_user w)))) \<and>
            sendRmz_calls (fst R) = sendRmz_calls st \<and>
            trivia_payouts (store (fst R)) = trivia_payouts (store st) \<and>
            daily_spend (store (fst R)) = daily_spend (store st) \<and>
            no_attempt_recorded (store st) (store (fst R)) \<and>
            store (fst R) \<in> set (cleared_variants (store st) code (t_clear w) (trivia_id claim))"
proof -
  let ?lim = "env_number B (CLAIM_RATE_LIMIT_PER_MINUTE env) 10"
  let ?ipkey = "js ''ip:'' @ getRequestIp req"
  let ?winner = "or_empty (winner_twitter_user_id claim)"
  let ?ukey = "js ''user:'' @ ?winner"
  have code: "or_empty (c_claimCode req) = code" "or_empty (c_address req) = a"
    using assms(1,3) by (simp_all add: or_empty_def)
  obtain st0 ok0 where a0: "allowRateLimit st ?ipkey ?lim (t_ip w) = (st0, ok0)"
    by (cases "allowRateLimit st ?ipkey ?lim (t_ip w)")
  have f0: "store st0 = store st" "sendRmz_calls st0 = sendRmz_calls st"
    using allowRateLimit_frame [of st ?ipkey ?lim "t_ip w"] a0 by simp_all
  have b0: "rateLimitBuckets st0 ?ukey = rateLimitBuckets st ?ukey"
    using allowRateLimit_other [OF ip_key_not_user_key, of st _ ?lim "t_ip w" ?winner] a0
    by (metis fst_conv)
  define code_lock where "code_lock = (case getClaimAttemptByCode (store st) code of
                               None \<Rightarrow> None | Some x \<Rightarrow> a_lock_expires_at x)"
  define st1 where "st1 = (if lock_expired code_lock (t_now w)
                            then st0\<lparr>store := clearClaimAttemptLock (store st0) code (t_clear w)\<rparr>
                            else st0)"
  have f1: "sendRmz_calls st1 = sendRmz_calls st"
    "store st1 = store st \<or> store st1 = clearClaimAttemptLock (store st) code (t_clear w)"
    "rateLimitBuckets st1 = rateLimitBuckets st0"
    using f0 by (auto simp: st1_def)
  have g1: "getClaimByCode (store st1) code = Some claim"
    using f1(2) assms(5) by (auto simp: getClaimByCode_clearClaimAttemptLock)
  define st2 where "st2 = (if lock_expired (lock_expires_at claim) (t_now w)
                           then st1\<lparr>store := clearClaimLock (store st1) (trivia_id claim)\<rparr> else st1)"
  have f2: "sendRmz_calls st2 = sendRmz_calls st"
    "store st2 \<in> set (cleared_variants (store st) code (t_clear w) (trivia_id claim))"
    "rateLimitBuckets st2 = rateLimitBuckets st0"
    using f1 by (auto simp: st2_def cleared_variants_def)
  let ?u = "if ?winner \<noteq> [] then allowRateLimit st2 ?ukey ?lim (t_user w) else (st2, True)"
  obtain st3 ok3 where a3: "?u = (st3, ok3)" by (cases ?u)
  have f3: "store st3 = store st2" "sendRmz_calls st3 = sendRmz_calls st2"
    using allowRateLimit_frame [of st2 ?ukey ?lim "t_user w"] a3 by (auto split: if_splits)
  have ok3: "ok3 \<longleftrightarrow> (?winner \<noteq> [] \<longrightarrow> snd (allowRateLimit st ?ukey ?lim (t_user w)))"
  proof -
    have "snd (allowRateLimit st2 ?ukey ?lim (t_user w)) = snd (allowRateLimit st ?ukey ?lim (t_user w))"
      by (rule allowRateLimit_snd) (simp add: f2(3) b0)
    with a3 show ?thesis by (auto split: if_splits)
  qed
  have used: "truthy_time (used_at claim)" using assms(6,7) by (simp add: truthy_time_def)
  have gate: "claim_gate B env w st req = Inl
     (if \<not> ok0 then (st0, rate_limited)
      else if lock_active code_lock (t_now w) then (st0, rate_limited)
      else if lock_active (lock_expires_at claim) (t_now w) then (st1, rate_limited)
      else if \<not> ok3 then (st3, rate_limited)
      else (st3, already_paid claim))"
    using a0 a3 g1 used assms(2,4) f0(1)
    unfolding claim_gate_def
    by (simp add: Let_def code code_lock_def [symmetric] st1_def [symmetric] st2_def [symmetric])
  define R where "R = claim_route B env w st req"
  have R: "R = (if \<not> ok0 then (st0, rate_limited)
      else if lock_active code_lock (t_now w) then (st0, rate_limited)
      else if lock_active (lock_expires_at claim) (t_now w) then (st1, rate_limited)
      else if \<not> ok3 then (st3, rate_limited)
      else (st3, already_paid claim))"
    by (simp add: R_def claim_route_def gate)
  have v0: "store st \<in> set (cleared_variants (store st) code (t_clear w) (trivia_id claim))"
    by (simp add: cleared_variants_def)
  have v1: "store st1 \<in> set (cleared_variants (store st) code (t_clear w) (trivia_id claim))"
    using f1(2) by (auto simp: cleared_variants_def)
  have var: "store (fst R) \<in> set (cleared_variants (store st) code (t_clear w) (trivia_id claim))"
    using v0 v1 f2(2) f0(1) f3(1) by (simp add: R)
  have calls: "sendRmz_calls (fst R) = sendRmz_calls st"
    using f0(2) f1(1) f2(1) f3(2) by (simp add: R)
  have resp: "snd R = rate_limited \<or> snd R = already_paid claim" by (simp add: R)
  have iff: "snd R = already_paid claim \<longleftrightarrow>
               snd (allowRateLimit st ?ipkey ?lim (t_ip w)) \<and>
               \<not> lock_active code_lock (t_now w) \<and>
               \<not> lock_active (lock_expires_at claim) (t_now w) \<and>
               (?winner \<noteq> [] \<longrightarrow> snd (allowRateLimit st ?ukey ?lim (t_user w)))"
    using a0 ok3 already_paid_not_rate_limited [of claim]
      already_paid_not_rate_limited [of claim, symmetric]
    by (simp add: R)
  note fr = cleared_variants_frame [OF var]
  from resp iff calls fr var show ?thesis
    unfolding Let_def R_def [symmetric] code_lock_def [symmetric] by simp
qed


theorem claim_route_already_paid_witness:
  "snd (claim_route latin1_builtins sample_env claim_w used_server claim_req) =
     already_paid used_round \<and>
   already_paid used_round =
     Response 200 (JObj [(''triviaId'', JStr (js ''t1'')),
       (''txid'', JStr (js ''dryrun_0123456789abcdef'')),
       (''status'', JStr (js ''already_paid''))]) \<and>
   sendRmz_calls (fst (claim_route latin1_builtins sample_env claim_w used_server claim_req)) = [] \<and>
   trivia_payouts (store (fst (claim_route latin1_builtins sample_env claim_w used_server
     claim_req))) = [] \<and>
   no_attempt_recorded (store used_server)
     (store (fst (claim_route latin1_builtins sample_env claim_w used_server claim_req)))"
proof -
  have h: "c_claimCode claim_req = Some (js ''c0de'')" "js ''c0de'' \<noteq> []"
    "c_address claim_req = Some (js ''ecash:qq0000000000'')" "js ''ecash:qq0000000000'' \<noteq> []"
    by (simp_all add: claim_req_def js_def)
  have g: "getClaimByCode (store used_server) (js ''c0de'') = Some used_round"
    by (simp add: getClaimByCode_def used_server_def used_round_def sample_round_def empty_db_def)
  have u: "used_at used_round = Some 690000" "(690000::int) \<noteq> 0" by (simp_all add: used_round_def)
  note t = claim_route_already_paid [OF h g u, of latin1_builtins sample_env claim_w, unfolded Let_def]
  have ok: "snd (allowRateLimit used_server k l t)" for k l t
    by (simp add: allowRateLimit_def used_server_def Let_def)
  have nl: "getClaimAttemptByCode (store used_server) (js ''c0de'') = None"
    "lock_expires_at used_round = None"
    by (simp_all add: getClaimAttemptByCode_def used_server_def empty_db_def used_round_def
        sample_round_def)
  from t [THEN conjunct2, THEN conjunct1] ok nl
  have r: "snd (claim_route latin1_builtins sample_env claim_w used_server claim_req) =
             already_paid used_round"
    by (simp add: lock_active_def)
  have b: "already_paid used_round =
     Response 200 (JObj [(''triviaId'', JStr (js ''t1'')),
       (''txid'', JStr (js ''dryrun_0123456789abcdef'')),
       (''status'', JStr (js ''already_paid''))])"
    by (simp add: already_paid_def used_round_def sample_round_def)
  from t have "sendRmz_calls (fst (claim_route latin1_builtins sample_env claim_w used_server
      claim_req)) = []"
    "trivia_payouts (store (fst (claim_route latin1_builtins sample_env claim_w used_server
      claim_req))) = []"
    "no_attempt_recorded (store used_server)
     (store (fst (claim_route latin1_builtins sample_env claim_w used_server claim_req)))"
    by (simp_all add: used_server_def empty_db_def)
  with r b show ?thesis by simp
qed

end
